(* ===== verification/Kora_Errors.thy ===== *)
theory Kora_Errors
  imports Main
begin

text \<open>
  The error enumeration shared by every contract (\<^verbatim>\<open>contracts/shared/src/errors.rs\<close>).

  \<^item> \<open>KoraError\<close> has the source's variants, in the source's order;
  \<^item> \<open>error_code\<close> is the \<open>repr(u32)\<close> discriminant of a variant, the number a client of the
    contracts sees, and \<open>error_of_code\<close> decodes it;
  \<^item> the derived \<open>Eq\<close>, \<open>PartialOrd\<close> and \<open>Ord\<close> of the source compare discriminants, which is
    how the classes \<open>equal\<close> and \<open>linorder\<close> are instantiated here.
\<close>

section \<open>The error enumeration\<close>

datatype (plugins only: ) KoraError =
    Unauthorized | NotAdmin | NotVerifier | ProtocolPaused | AlreadyPaused | NotPaused
    | RoleNotAssigned | InvoiceNotFound | InvoiceAlreadyExists | InvalidInvoiceStatus
    | InvoiceExpired | InvalidAmount | InvalidDueDate | InvalidRiskScore | InvalidCid
    | InvoiceFrozen | ListingNotFound | ListingAlreadyCancelled | ListingExpired
    | FundingDeadlinePassed | InsufficientFunds | ExceedsFundingTarget | AlreadyFullyFunded
    | ListingFullyFunded | FundingNotExpired | RefundAlreadyClaimed | NoContribution
    | PoolNotFound | PoolAlreadyClosed | RepaymentAlreadyMade | InsufficientPoolBalance
    | PositionNotFound | SaleAlreadyListed | SaleNotFound | InvalidFeeRate
    | WithdrawalFailed | TokenNotWhitelisted | WithdrawalRateLimitExceeded
    | WithdrawalCapTimelockNotElapsed | NoCapChangeProposed | SMENotRegistered
    | DebtorNotRegistered | RiskScoreOutOfRange | ComplianceNotAttested | ArithmeticOverflow
    | ArithmeticUnderflow | InvalidAddress | EmptyString | AlreadyInitialized
    | NotInitialized | EmptyBytes | FieldTooLong | Reentrancy | InvalidLength
    | NoUpgradeProposed | UpgradeTimelockNotElapsed | ParameterProposalNotFound
    | ParameterProposalExecuted | NotMultisigSigner | AlreadyVoted
    | GovernanceThresholdNotMet | GovernanceTimelockNotElapsed | InvalidParameterValue
    | ScoreUpdateCooldownNotElapsed | CancellationPending | NoCancellationPending
    | InvalidThreshold | ProposalNotFound | ProposalAlreadyExecuted | ProposalExpired
    | AlreadyApproved | ThresholdNotMet | MultisigNotConfigured | SignerNotFound
    | CreditLimitExceeded | NotInvoiceOwner | CurrencyNotAllowed

text \<open>The discriminants of \<open>repr(u32)\<close>.\<close>

primrec error_code :: "KoraError \<Rightarrow> nat" where
  "error_code Unauthorized = 1"
| "error_code NotAdmin = 2"
| "error_code NotVerifier = 3"
| "error_code ProtocolPaused = 4"
| "error_code AlreadyPaused = 5"
| "error_code NotPaused = 6"
| "error_code RoleNotAssigned = 7"
| "error_code InvoiceNotFound = 10"
| "error_code InvoiceAlreadyExists = 11"
| "error_code InvalidInvoiceStatus = 12"
| "error_code InvoiceExpired = 13"
| "error_code InvalidAmount = 14"
| "error_code InvalidDueDate = 15"
| "error_code InvalidRiskScore = 16"
| "error_code InvalidCid = 17"
| "error_code InvoiceFrozen = 18"
| "error_code ListingNotFound = 20"
| "error_code ListingAlreadyCancelled = 21"
| "error_code ListingExpired = 22"
| "error_code FundingDeadlinePassed = 23"
| "error_code InsufficientFunds = 24"
| "error_code ExceedsFundingTarget = 25"
| "error_code AlreadyFullyFunded = 26"
| "error_code ListingFullyFunded = 27"
| "error_code FundingNotExpired = 28"
| "error_code RefundAlreadyClaimed = 29"
| "error_code NoContribution = 95"
| "error_code PoolNotFound = 30"
| "error_code PoolAlreadyClosed = 31"
| "error_code RepaymentAlreadyMade = 32"
| "error_code InsufficientPoolBalance = 33"
| "error_code PositionNotFound = 34"
| "error_code SaleAlreadyListed = 35"
| "error_code SaleNotFound = 36"
| "error_code InvalidFeeRate = 40"
| "error_code WithdrawalFailed = 41"
| "error_code TokenNotWhitelisted = 42"
| "error_code WithdrawalRateLimitExceeded = 43"
| "error_code WithdrawalCapTimelockNotElapsed = 44"
| "error_code NoCapChangeProposed = 45"
| "error_code SMENotRegistered = 50"
| "error_code DebtorNotRegistered = 51"
| "error_code RiskScoreOutOfRange = 52"
| "error_code ComplianceNotAttested = 53"
| "error_code ArithmeticOverflow = 90"
| "error_code ArithmeticUnderflow = 91"
| "error_code InvalidAddress = 92"
| "error_code EmptyString = 93"
| "error_code AlreadyInitialized = 94"
| "error_code NotInitialized = 96"
| "error_code EmptyBytes = 97"
| "error_code FieldTooLong = 103"
| "error_code Reentrancy = 98"
| "error_code InvalidLength = 99"
| "error_code NoUpgradeProposed = 100"
| "error_code UpgradeTimelockNotElapsed = 101"
| "error_code ParameterProposalNotFound = 110"
| "error_code ParameterProposalExecuted = 111"
| "error_code NotMultisigSigner = 112"
| "error_code AlreadyVoted = 113"
| "error_code GovernanceThresholdNotMet = 114"
| "error_code GovernanceTimelockNotElapsed = 115"
| "error_code InvalidParameterValue = 116"
| "error_code ScoreUpdateCooldownNotElapsed = 117"
| "error_code CancellationPending = 118"
| "error_code NoCancellationPending = 119"
| "error_code InvalidThreshold = 120"
| "error_code ProposalNotFound = 121"
| "error_code ProposalAlreadyExecuted = 122"
| "error_code ProposalExpired = 123"
| "error_code AlreadyApproved = 124"
| "error_code ThresholdNotMet = 125"
| "error_code MultisigNotConfigured = 126"
| "error_code SignerNotFound = 127"
| "error_code CreditLimitExceeded = 128"
| "error_code NotInvoiceOwner = 129"
| "error_code CurrencyNotAllowed = 130"

definition error_table :: "(nat \<times> KoraError) list" where
  "error_table =
    [(1, Unauthorized), (2, NotAdmin), (3, NotVerifier), (4, ProtocolPaused)
     , (5, AlreadyPaused), (6, NotPaused), (7, RoleNotAssigned), (10, InvoiceNotFound)
     , (11, InvoiceAlreadyExists), (12, InvalidInvoiceStatus), (13, InvoiceExpired)
     , (14, InvalidAmount), (15, InvalidDueDate), (16, InvalidRiskScore), (17, InvalidCid)
     , (18, InvoiceFrozen), (20, ListingNotFound), (21, ListingAlreadyCancelled)
     , (22, ListingExpired), (23, FundingDeadlinePassed), (24, InsufficientFunds)
     , (25, ExceedsFundingTarget), (26, AlreadyFullyFunded), (27, ListingFullyFunded)
     , (28, FundingNotExpired), (29, RefundAlreadyClaimed), (95, NoContribution)
     , (30, PoolNotFound), (31, PoolAlreadyClosed), (32, RepaymentAlreadyMade)
     , (33, InsufficientPoolBalance), (34, PositionNotFound), (35, SaleAlreadyListed)
     , (36, SaleNotFound), (40, InvalidFeeRate), (41, WithdrawalFailed)
     , (42, TokenNotWhitelisted), (43, WithdrawalRateLimitExceeded)
     , (44, WithdrawalCapTimelockNotElapsed), (45, NoCapChangeProposed)
     , (50, SMENotRegistered), (51, DebtorNotRegistered), (52, RiskScoreOutOfRange)
     , (53, ComplianceNotAttested), (90, ArithmeticOverflow), (91, ArithmeticUnderflow)
     , (92, InvalidAddress), (93, EmptyString), (94, AlreadyInitialized)
     , (96, NotInitialized), (97, EmptyBytes), (103, FieldTooLong), (98, Reentrancy)
     , (99, InvalidLength), (100, NoUpgradeProposed), (101, UpgradeTimelockNotElapsed)
     , (110, ParameterProposalNotFound), (111, ParameterProposalExecuted)
     , (112, NotMultisigSigner), (113, AlreadyVoted), (114, GovernanceThresholdNotMet)
     , (115, GovernanceTimelockNotElapsed), (116, InvalidParameterValue)
     , (117, ScoreUpdateCooldownNotElapsed), (118, CancellationPending)
     , (119, NoCancellationPending), (120, InvalidThreshold), (121, ProposalNotFound)
     , (122, ProposalAlreadyExecuted), (123, ProposalExpired), (124, AlreadyApproved)
     , (125, ThresholdNotMet), (126, MultisigNotConfigured), (127, SignerNotFound)
     , (128, CreditLimitExceeded), (129, NotInvoiceOwner), (130, CurrencyNotAllowed)]"

definition error_of_code :: "nat \<Rightarrow> KoraError option" where
  "error_of_code n = map_of error_table n"

text \<open>Decoding a discriminant gives the variant back, so no two variants share one.\<close>

lemma error_of_code_error_code: "error_of_code (error_code e) = Some e"
  by (cases e) (simp_all add: error_of_code_def error_table_def)

lemma error_code_inject [simp]: "error_code e = error_code f \<longleftrightarrow> e = f"
  by (metis error_of_code_error_code option.inject)

lemma error_code_bounds: "1 \<le> error_code e \<and> error_code e \<le> 130"
  by (cases e) simp_all

instantiation KoraError :: equal
begin

definition equal_KoraError :: "KoraError \<Rightarrow> KoraError \<Rightarrow> bool" where
  "equal_KoraError e f \<longleftrightarrow> error_code e = error_code f"

instance
  by standard (simp add: equal_KoraError_def)

end

instantiation KoraError :: linorder
begin

definition less_eq_KoraError :: "KoraError \<Rightarrow> KoraError \<Rightarrow> bool" where
  "less_eq_KoraError e f \<longleftrightarrow> error_code e \<le> error_code f"

definition less_KoraError :: "KoraError \<Rightarrow> KoraError \<Rightarrow> bool" where
  "less_KoraError e f \<longleftrightarrow> error_code e < error_code f"

instance
  by standard (auto simp: less_eq_KoraError_def less_KoraError_def)

end

end
