(* ===== verification/Kora_Prelude.thy ===== *)
theory Kora_Prelude
  imports Kora_Errors "HOL-Library.Word" "HOL-Library.Signed_Division"
begin

text \<open>
  What the contract theories share: the types of the model, results and faults, the host
  environment of an invocation, and the checked integer arithmetic of Rust.

  \<^item> \<open>u32\<close> and \<open>u64\<close> values are natural numbers, \<open>i128\<close> values are integers. The workspace is
    built with \<open>overflow-checks = true\<close>, so that no operation of the sources wraps silently:
    every addition, subtraction, multiplication or cast that can leave its width is written
    with one of the functions below, which return \<open>None\<close>, saturate, wrap or trap exactly
    where the Rust operation does.
  \<^item> An operation returns \<open>'a res\<close>: \<open>Ok x\<close>, \<open>Err e\<close> for a \<open>KoraError\<close> returned by the
    contract, or \<open>Trap t\<close> where the host aborts the invocation. A failed invocation
    leaves no trace in the ledger, so that the failing values carry no state.
  \<^item> \<open>andThen\<close> is the question-mark operator of Rust.
\<close>

section \<open>Automation shared by the components\<close>

named_theorems res_simps "inversion of results"
named_theorems state_defs "definitions of storage accessors unfolded by component proofs"

section \<open>Types\<close>

type_synonym u32 = nat
type_synonym u64 = nat
type_synonym i128 = int

text \<open>
  Addresses are opaque to the contracts, which compare them for equality and use them as keys
  of ordered maps.
\<close>

type_synonym Address = nat
type_synonym Symbol = string
type_synonym Bytes = "8 word list"
type_synonym BytesN32 = "8 word list"

section \<open>Results\<close>

text \<open>Reasons for which the host aborts an invocation.\<close>

datatype trap =
    AuthRequired       \<comment> \<open>\<open>require_auth\<close> of an address that did not authorise the call\<close>
  | Overflow           \<comment> \<open>arithmetic overflow under \<open>overflow-checks\<close>\<close>
  | MissingContract    \<comment> \<open>a call of an address where no such contract is deployed\<close>
  | BadEncoding        \<comment> \<open>a stored value read at a type it does not have\<close>
  | CalleeFailed       \<comment> \<open>a call through a client (not a \<open>try_\<close> client) that failed\<close>

datatype fault = Kora KoraError | Trapped trap

type_synonym 'a res = "fault + 'a"

abbreviation Ok :: "'a \<Rightarrow> 'a res" where "Ok x \<equiv> Inr x"
abbreviation Err :: "KoraError \<Rightarrow> 'a res" where "Err e \<equiv> Inl (Kora e)"
abbreviation Trap :: "trap \<Rightarrow> 'a res" where "Trap t \<equiv> Inl (Trapped t)"

definition andThen :: "'a res \<Rightarrow> ('a \<Rightarrow> 'b res) \<Rightarrow> 'b res" where
  "andThen m k = (case m of Inl f \<Rightarrow> Inl f | Inr x \<Rightarrow> k x)"

definition ok_or :: "'a option \<Rightarrow> KoraError \<Rightarrow> 'a res" where
  "ok_or m e = (case m of None \<Rightarrow> Err e | Some x \<Rightarrow> Ok x)"

definition unwrap_or :: "'a option \<Rightarrow> 'a \<Rightarrow> 'a" where
  "unwrap_or m d = (case m of None \<Rightarrow> d | Some x \<Rightarrow> x)"

text \<open>A call of another contract through its client: any failure of the callee traps.\<close>

definition call :: "'a res \<Rightarrow> 'a res" where
  "call m = (case m of Inl _ \<Rightarrow> Trap CalleeFailed | Inr x \<Rightarrow> Ok x)"

text \<open>The instance deployed at an address.\<close>

definition deployed :: "'a option \<Rightarrow> 'a res" where
  "deployed m = (case m of None \<Rightarrow> Trap MissingContract | Some x \<Rightarrow> Ok x)"

lemma andThen_Inl [simp]: "andThen (Inl f) k = Inl f"
  and andThen_Ok [simp]: "andThen (Ok x) k = k x"
  by (simp_all add: andThen_def)

lemma andThen_assoc: "andThen (andThen m k) h = andThen m (\<lambda>x. andThen (k x) h)"
  by (simp add: andThen_def split: sum.split)

lemma andThen_eq_Ok [simp, res_simps]:
  "andThen m k = Ok y \<longleftrightarrow> (\<exists>x. m = Ok x \<and> k x = Ok y)"
  by (simp add: andThen_def split: sum.split)

lemma andThen_eq_Inl:
  "andThen m k = Inl f \<longleftrightarrow> m = Inl f \<or> (\<exists>x. m = Ok x \<and> k x = Inl f)"
  by (auto simp: andThen_def split: sum.split)

text \<open>For evaluation: the continuation is rewritten only once its argument is known.\<close>

lemma andThen_weak_cong: "m = m' \<Longrightarrow> andThen m k = andThen m' k"
  by simp

lemma andThen_cong [fundef_cong]:
  "m = m' \<Longrightarrow> (\<And>x. m' = Ok x \<Longrightarrow> k x = k' x) \<Longrightarrow> andThen m k = andThen m' k'"
  by (auto simp: andThen_def split: sum.split)

lemma ok_or_simps [simp]: "ok_or None e = Err e" "ok_or (Some x) e = Ok x"
  by (simp_all add: ok_or_def)

lemma ok_or_eq_Ok [simp, res_simps]: "ok_or m e = Ok x \<longleftrightarrow> m = Some x"
  by (simp add: ok_or_def split: option.split)

lemma ok_or_eq_Inl [simp]: "ok_or m e = Inl f \<longleftrightarrow> m = None \<and> f = Kora e"
  by (auto simp: ok_or_def split: option.split)

lemma unwrap_or_simps [simp]: "unwrap_or None d = d" "unwrap_or (Some x) d = x"
  by (simp_all add: unwrap_or_def)

lemma call_simps [simp]: "call (Inl f) = Trap CalleeFailed" "call (Ok x) = Ok x"
  by (simp_all add: call_def)

lemma call_eq_Ok [simp, res_simps]: "call m = Ok x \<longleftrightarrow> m = Ok x"
  by (simp add: call_def split: sum.split)

lemma deployed_simps [simp]:
  "deployed None = Trap MissingContract" "deployed (Some x) = Ok x"
  by (simp_all add: deployed_def)

lemma deployed_eq_Ok [simp, res_simps]: "deployed m = Ok x \<longleftrightarrow> m = Some x"
  by (simp add: deployed_def split: option.split)

lemma if_Inl_eq_Ok [simp, res_simps]:
  "(if b then Inl f else m) = Ok x \<longleftrightarrow> \<not> b \<and> m = Ok x"
  "(if b then m else Inl f) = Ok x \<longleftrightarrow> b \<and> m = Ok x"
  by auto

section \<open>The host environment of an invocation\<close>

text \<open>
  \<open>self\<close> is the address of the running contract, \<open>invoker\<close> the contract that called it (none
  for a call made by a transaction), \<open>timestamp\<close> the ledger time. \<open>auth c a\<close> says that address
  \<open>a\<close> authorised the call of contract \<open>c\<close> in the transaction. The host accepts
  \<open>require_auth a\<close> when \<open>a\<close> is the direct invoker or authorised the running call.
\<close>

record env =
  self :: Address
  invoker :: "Address option"
  timestamp :: u64
  auth :: "Address \<Rightarrow> Address \<Rightarrow> bool"

definition authorised :: "env \<Rightarrow> Address \<Rightarrow> bool" where
  "authorised env a \<longleftrightarrow> invoker env = Some a \<or> auth env (self env) a"

definition require_auth :: "env \<Rightarrow> Address \<Rightarrow> unit res" where
  "require_auth env a = (if authorised env a then Ok () else Trap AuthRequired)"

text \<open>The environment of a call of contract \<open>c\<close> made by the running contract.\<close>

definition subcall :: "env \<Rightarrow> Address \<Rightarrow> env" where
  "subcall env c = env\<lparr>self := c, invoker := Some (self env)\<rparr>"

lemma require_auth_eq_Ok [simp, res_simps]: "require_auth env a = Ok u \<longleftrightarrow> authorised env a"
  by (simp add: require_auth_def)

lemma require_auth_denied [simp]: "\<not> authorised env a \<Longrightarrow> require_auth env a = Trap AuthRequired"
  by (simp add: require_auth_def)

lemma subcall_simps [simp]:
  "self (subcall env c) = c" "invoker (subcall env c) = Some (self env)"
  "timestamp (subcall env c) = timestamp env" "auth (subcall env c) = auth env"
  by (simp_all add: subcall_def)

lemma authorised_subcall_self [simp]: "authorised (subcall env c) (self env)"
  by (simp add: authorised_def)

text \<open>The environment of a call made by a transaction that every address authorised, for
  concrete runs.\<close>

definition open_env :: "Address \<Rightarrow> u64 \<Rightarrow> env" where
  "open_env c t = \<lparr>self = c, invoker = None, timestamp = t, auth = (\<lambda>_ _. True)\<rparr>"

lemma open_env_simps [simp]:
  "self (open_env c t) = c" "timestamp (open_env c t) = t" "authorised (open_env c t) a"
  "require_auth (open_env c t) a = Ok ()"
  by (simp_all add: open_env_def authorised_def require_auth_def)

section \<open>Integers of a fixed width\<close>

definition U32_MAX :: nat where "U32_MAX = 2 ^ 32 - 1"
definition U64_MAX :: nat where "U64_MAX = 2 ^ 64 - 1"
definition I128_MAX :: int where "I128_MAX = 2 ^ 127 - 1"
definition I128_MIN :: int where "I128_MIN = - (2 ^ 127)"

lemmas width_defs = U32_MAX_def U64_MAX_def I128_MAX_def I128_MIN_def

definition in_i128 :: "int \<Rightarrow> bool" where
  "in_i128 x \<longleftrightarrow> I128_MIN \<le> x \<and> x \<le> I128_MAX"

text \<open>\<open>checked_*\<close>: \<open>None\<close> on overflow, and on a division by zero.\<close>

definition checked_add :: "i128 \<Rightarrow> i128 \<Rightarrow> i128 option" where
  "checked_add a b = (if in_i128 (a + b) then Some (a + b) else None)"

definition checked_sub :: "i128 \<Rightarrow> i128 \<Rightarrow> i128 option" where
  "checked_sub a b = (if in_i128 (a - b) then Some (a - b) else None)"

definition checked_mul :: "i128 \<Rightarrow> i128 \<Rightarrow> i128 option" where
  "checked_mul a b = (if in_i128 (a * b) then Some (a * b) else None)"

definition checked_div :: "i128 \<Rightarrow> i128 \<Rightarrow> i128 option" where
  "checked_div a b =
     (if b = 0 then None else if in_i128 (a sdiv b) then Some (a sdiv b) else None)"

definition checked_pow :: "i128 \<Rightarrow> u32 \<Rightarrow> i128 option" where
  "checked_pow a n = (if in_i128 (a ^ n) then Some (a ^ n) else None)"

text \<open>\<open>saturating_*\<close> on \<open>i128\<close>: the nearest value of the type.\<close>

definition clamp_i128 :: "int \<Rightarrow> i128" where
  "clamp_i128 x = max I128_MIN (min I128_MAX x)"

definition saturating_add :: "i128 \<Rightarrow> i128 \<Rightarrow> i128" where
  "saturating_add a b = clamp_i128 (a + b)"

definition saturating_sub :: "i128 \<Rightarrow> i128 \<Rightarrow> i128" where
  "saturating_sub a b = clamp_i128 (a - b)"

text \<open>\<open>checked_add\<close> on the unsigned types, and their \<open>+\<close>, \<open>-\<close>, \<open>*\<close> that trap.\<close>

definition checked_add_u64 :: "u64 \<Rightarrow> u64 \<Rightarrow> u64 option" where
  "checked_add_u64 a b = (if a + b \<le> U64_MAX then Some (a + b) else None)"

definition checked_add_u32 :: "u32 \<Rightarrow> u32 \<Rightarrow> u32 option" where
  "checked_add_u32 a b = (if a + b \<le> U32_MAX then Some (a + b) else None)"

definition add_u64 :: "u64 \<Rightarrow> u64 \<Rightarrow> u64 res" where
  "add_u64 a b = (if a + b \<le> U64_MAX then Ok (a + b) else Trap Overflow)"

definition sub_u64 :: "u64 \<Rightarrow> u64 \<Rightarrow> u64 res" where
  "sub_u64 a b = (if b \<le> a then Ok (a - b) else Trap Overflow)"

definition saturating_mul_u64 :: "u64 \<Rightarrow> u64 \<Rightarrow> u64" where
  "saturating_mul_u64 a b = min (a * b) U64_MAX"

text \<open>The casts \<open>as u32\<close> and \<open>as u128\<close> of an \<open>i128\<close> and \<open>as i128\<close> of a \<open>u128\<close> wrap.\<close>

definition as_u32 :: "i128 \<Rightarrow> u32" where
  "as_u32 x = nat (x mod 2 ^ 32)"

definition as_u128 :: "i128 \<Rightarrow> nat" where
  "as_u128 x = nat (x mod 2 ^ 128)"

definition as_i128 :: "nat \<Rightarrow> i128" where
  "as_i128 n = (if n < 2 ^ 127 then int n else int n - 2 ^ 128)"

definition mul_u128 :: "nat \<Rightarrow> nat \<Rightarrow> nat res" where
  "mul_u128 a b = (if a * b < 2 ^ 128 then Ok (a * b) else Trap Overflow)"

subsection \<open>Facts on the arithmetic\<close>

lemma checked_add_eq_Some [simp]: "checked_add a b = Some c \<longleftrightarrow> c = a + b \<and> in_i128 (a + b)"
  and checked_sub_eq_Some [simp]: "checked_sub a b = Some c \<longleftrightarrow> c = a - b \<and> in_i128 (a - b)"
  and checked_mul_eq_Some [simp]: "checked_mul a b = Some c \<longleftrightarrow> c = a * b \<and> in_i128 (a * b)"
  and checked_pow_eq_Some [simp]: "checked_pow a n = Some c \<longleftrightarrow> c = a ^ n \<and> in_i128 (a ^ n)"
  by (auto simp: checked_add_def checked_sub_def checked_mul_def checked_pow_def)

lemma checked_add_eq_None [simp]: "checked_add a b = None \<longleftrightarrow> \<not> in_i128 (a + b)"
  and checked_sub_eq_None [simp]: "checked_sub a b = None \<longleftrightarrow> \<not> in_i128 (a - b)"
  and checked_mul_eq_None [simp]: "checked_mul a b = None \<longleftrightarrow> \<not> in_i128 (a * b)"
  and checked_pow_eq_None [simp]: "checked_pow a n = None \<longleftrightarrow> \<not> in_i128 (a ^ n)"
  by (simp_all add: checked_add_def checked_sub_def checked_mul_def checked_pow_def)

lemma add_u64_eq_Ok [simp, res_simps]: "add_u64 a b = Ok c \<longleftrightarrow> c = a + b \<and> a + b \<le> U64_MAX"
  by (auto simp: add_u64_def)

lemma checked_add_u64_eq_Some [simp]:
  "checked_add_u64 a b = Some c \<longleftrightarrow> c = a + b \<and> a + b \<le> U64_MAX"
  by (auto simp: checked_add_u64_def)

lemma checked_add_u32_eq_Some [simp]:
  "checked_add_u32 a b = Some c \<longleftrightarrow> c = a + b \<and> a + b \<le> U32_MAX"
  by (auto simp: checked_add_u32_def)

lemma sdiv_nonneg [simp]: "0 \<le> a \<Longrightarrow> 0 < b \<Longrightarrow> a sdiv b = a div (b::int)"
  by (auto simp: signed_divide_int_def sgn_if)

lemma in_i128_nonneg: "0 \<le> x \<Longrightarrow> in_i128 x \<longleftrightarrow> x \<le> I128_MAX"
  by (simp add: in_i128_def I128_MIN_def)

lemma in_i128_0 [simp]: "in_i128 0"
  by (simp add: in_i128_def width_defs)

lemma in_i128_between: "in_i128 b \<Longrightarrow> 0 \<le> a \<Longrightarrow> a \<le> b \<Longrightarrow> in_i128 a"
  by (simp add: in_i128_def I128_MIN_def)

lemma div_le_self_int: "0 \<le> a \<Longrightarrow> 0 < b \<Longrightarrow> a div b \<le> (a::int)"
  using zdiv_mono2 [of a 1 b] by simp

lemma checked_div_pos:
  "0 \<le> a \<Longrightarrow> 0 < b \<Longrightarrow> in_i128 a \<Longrightarrow> checked_div a b = Some (a div b)"
  using in_i128_between [of a "a div b"] div_le_self_int [of a b]
  by (simp add: checked_div_def pos_imp_zdiv_nonneg_iff)

lemma clamp_i128_id [simp]: "in_i128 x \<Longrightarrow> clamp_i128 x = x"
  by (auto simp: clamp_i128_def in_i128_def)

lemma clamp_i128_in [simp]: "in_i128 (clamp_i128 x)"
  by (auto simp: clamp_i128_def in_i128_def width_defs)

lemma as_u32_small: "0 \<le> x \<Longrightarrow> x < 2 ^ 32 \<Longrightarrow> as_u32 x = nat x"
  by (simp add: as_u32_def)

section \<open>Sums over the entries of a map\<close>

definition map_total :: "('k \<rightharpoonup> int) \<Rightarrow> int" where
  "map_total m = (\<Sum>k\<in>dom m. the (m k))"

lemma map_total_empty [simp]: "map_total Map.empty = 0"
  by (simp add: map_total_def)

lemma map_total_del:
  assumes "finite (dom m)"
  shows "map_total (m(k := None)) = map_total m - unwrap_or (m k) 0"
proof -
  have "(\<Sum>j\<in>dom m - {k}. the ((m(k := None)) j)) = (\<Sum>j\<in>dom m - {k}. the (m j))"
    by (intro sum.cong) auto
  with assms show ?thesis
    by (cases "m k") (auto simp: map_total_def sum.remove [of _ k] domIff)
qed

lemma map_total_upd:
  assumes "finite (dom m)"
  shows "map_total (m(k \<mapsto> v)) = map_total m - unwrap_or (m k) 0 + v"
proof -
  have "(\<Sum>j\<in>dom m - {k}. the ((m(k \<mapsto> v)) j)) = (\<Sum>j\<in>dom m - {k}. the ((m(k := None)) j))"
    by (intro sum.cong) auto
  with assms have "map_total (m(k \<mapsto> v)) = map_total (m(k := None)) + v"
    by (simp add: map_total_def sum.insert_remove)
  with map_total_del [OF assms] show ?thesis by simp
qed

end
