(* ===== verification/Shared_Types.thy ===== *)
theory Shared_Types
  imports Kora_Prelude
begin

text \<open>
  The data structures shared by the contracts: \<^verbatim>\<open>contracts/shared/src/types.rs\<close> and the types of
  \<^verbatim>\<open>contracts/shared/src/audit.rs\<close>. A struct is a record, an enum a datatype; the fields and
  variants are those of the source, with a prefix where a name is used by several structs.
\<close>

section \<open>Invoices\<close>

datatype InvoiceStatus = Created | Listed | Funded | Repaid | Defaulted

datatype RiskTier = AAA | AA | A | B | C

definition from_score :: "u32 \<Rightarrow> RiskTier" where
  "from_score score =
     (if score \<le> 20 then AAA
      else if 21 \<le> score \<and> score \<le> 40 then AA
      else if 41 \<le> score \<and> score \<le> 60 then A
      else if 61 \<le> score \<and> score \<le> 80 then B
      else C)"

record Invoice =
  inv_id :: u64
  inv_sme :: Address
  inv_debtor_hash :: Bytes
  inv_amount :: i128
  inv_currency :: Symbol
  inv_due_date :: u64
  inv_ipfs_cid :: string
  inv_metadata_hash :: Bytes
  inv_risk_score :: u32
  inv_risk_tier :: RiskTier
  inv_status :: InvoiceStatus
  inv_created_at :: u64
  inv_funded_at :: "u64 option"
  inv_repaid_at :: "u64 option"
  inv_notes :: "string option"

section \<open>Marketplace and pool\<close>

record Listing =
  lst_invoice_id :: u64
  lst_seller :: Address
  lst_asking_price :: i128
  lst_face_value :: i128
  lst_token :: Address
  lst_funded_amount :: i128
  lst_funding_deadline :: u64
  lst_is_active :: bool

record Position =
  pos_investor :: Address
  pos_invoice_id :: u64
  pos_contributed :: i128
  pos_share_bps :: u32
  pos_yield_claimed :: i128

record Pool =
  pool_invoice_id :: u64
  pool_token :: Address
  pool_total_funded :: i128
  pool_face_value :: i128
  pool_repaid_amount :: i128
  pool_is_closed :: bool
  pool_late_penalty_bps :: u32
  pool_total_owed :: i128
  pool_penalty_applied :: bool

record PositionSaleOffer =
  sale_seller :: Address
  sale_invoice_id :: u64
  sale_token :: Address
  sale_price :: i128

record EarlySettlementOffer =
  eso_invoice_id :: u64
  eso_amount :: i128
  eso_accepted_bps :: u32
  eso_accepted :: "Address list"

record ProtocolConfig =
  cfg_fee_bps :: u32
  cfg_late_penalty_bps :: u32
  cfg_max_risk_score :: u32
  cfg_min_funding_period :: u64

section \<open>Risk registry\<close>

record SmeProfile =
  sme_address :: Address
  sme_verified :: bool
  sme_verifier :: Address
  sme_risk_score :: u32
  sme_total_invoices :: u32
  sme_defaults :: u32
  sme_registered_at :: u64
  sme_compliance_attested :: bool
  sme_credit_limit :: i128

section \<open>Governance\<close>

datatype AdminAction =
    Pause
  | Unpause
  | GrantRole Address u32
  | RevokeRole Address
  | TransferAdmin Address

record Proposal =
  prop_id :: u64
  prop_action :: AdminAction
  prop_proposer :: Address
  prop_approvals :: "Address list"
  prop_executed :: bool
  prop_created_at :: u64
  prop_expires_at :: u64

record MultisigConfig =
  ms_threshold :: u32
  ms_signers :: "Address list"

datatype ParameterKey = FeeBps | LatePenaltyBps | MaxRiskScore

record ParameterProposal =
  pp_id :: u64
  pp_key :: ParameterKey
  pp_new_value :: u32
  pp_proposer :: Address
  pp_approvals :: "Address list"
  pp_created_at :: u64
  pp_executed :: bool

section \<open>Audit entries\<close>

definition MAX_AUDIT_LOG_SIZE :: u64 where
  "MAX_AUDIT_LOG_SIZE = 500"

datatype AuditSource = AccessControl | Treasury | RiskRegistry

text \<open>
  The variants of \<open>AdminActionType\<close>; those that \<open>AdminAction\<close> has too are written with the
  type's name, as in \<open>AdminActionType.Pause\<close>.
\<close>

datatype (plugins only: code size) AdminActionType =
    Pause | Unpause | GrantRole | RevokeRole | TransferAdmin | ConfigureMultisig
  | ProposeUpgrade | ExecuteUpgrade | MultisigExecuteAction | ProposeParameter
  | ExecuteParameter
  | SetFeeBps | WhitelistToken | Withdraw | EmergencyWithdraw | ProposeWithdrawalCap
  | ExecuteWithdrawalCap | TreasuryProposeUpgrade | TreasuryExecuteUpgrade
  | AddVerifier | RemoveVerifier | RecordDefault | RegistryTransferAdmin
  | RegistryProposeUpgrade | RegistryExecuteUpgrade

record AdminAuditEntry =
  ent_sequence :: u64
  ent_timestamp :: u64
  ent_actor :: Address
  ent_action :: AdminActionType
  ent_source :: AuditSource

section \<open>The risk tier of a score\<close>

text \<open>The tiers partition the scores in bands of twenty, in increasing order of risk.\<close>

primrec tier_floor :: "RiskTier \<Rightarrow> u32" where
  "tier_floor AAA = 0"
| "tier_floor AA = 21"
| "tier_floor A = 41"
| "tier_floor B = 61"
| "tier_floor C = 81"

lemma tier_floor_from_score_le: "tier_floor (from_score s) \<le> s"
  by (simp add: from_score_def)

lemma from_score_mono: "s \<le> t \<Longrightarrow> tier_floor (from_score s) \<le> tier_floor (from_score t)"
  by (auto simp: from_score_def)

lemma from_score_tier_floor: "from_score (tier_floor t) = t"
  by (cases t) (simp_all add: from_score_def)

end
