(* ===== verification/Shared_Events.thy ===== *)
theory Shared_Events
  imports Shared_Types
begin

text \<open>
  The events of the protocol (\<^verbatim>\<open>contracts/shared/src/events.rs\<close>). An event has a topic and a
  tuple of values; each emission function of the source is a definition that builds the event
  published for its arguments. The contracts append events to the event log of their state,
  so that an invocation that fails publishes none.
\<close>

section \<open>Events\<close>

datatype Val =
    AddressV Address
  | U64V u64
  | U32V u32
  | I128V i128
  | BytesV Bytes
  | ActionV AdminActionType
  | SourceV AuditSource

record event =
  ev_topic :: Symbol
  ev_data :: "Val list"

definition event_of :: "Symbol \<Rightarrow> Val list \<Rightarrow> event" where
  "event_of topic data = \<lparr>ev_topic = topic, ev_data = data\<rparr>"

section \<open>The emission functions, in the order of the source\<close>

definition invoice_created :: "env \<Rightarrow> u64 \<Rightarrow> Address
   \<Rightarrow> i128 \<Rightarrow> event" where
  "invoice_created env invoice_id sme amount =
     event_of ''INV_CRT'' [AddressV sme, U64V invoice_id, I128V amount, U64V (timestamp env)]"

definition invoice_listed :: "env \<Rightarrow> u64 \<Rightarrow> Address
   \<Rightarrow> i128 \<Rightarrow> event" where
  "invoice_listed env invoice_id seller asking_price =
     event_of ''INV_LST'' [AddressV seller, U64V invoice_id, I128V asking_price,
       U64V (timestamp env)]"

definition invoice_funded :: "env \<Rightarrow> u64 \<Rightarrow> Address
   \<Rightarrow> i128 \<Rightarrow> event" where
  "invoice_funded env invoice_id investor amount =
     event_of ''INV_FND'' [AddressV investor, U64V invoice_id, I128V amount,
       U64V (timestamp env)]"

definition invoice_repaid :: "env \<Rightarrow> u64 \<Rightarrow> Address
   \<Rightarrow> i128 \<Rightarrow> event" where
  "invoice_repaid env invoice_id sme amount =
     event_of ''INV_RPD'' [AddressV sme, U64V invoice_id, I128V amount, U64V (timestamp env)]"

definition invoice_defaulted :: "env \<Rightarrow> u64 \<Rightarrow> Address
   \<Rightarrow> event" where
  "invoice_defaulted env invoice_id actor =
     event_of ''INV_DFT'' [AddressV actor, U64V invoice_id, U64V (timestamp env)]"

definition invoice_amended :: "env \<Rightarrow> u64 \<Rightarrow> Address
   \<Rightarrow> event" where
  "invoice_amended env invoice_id sme =
     event_of ''INV_AMD'' [U64V invoice_id, AddressV sme, U64V (timestamp env)]"

definition invoice_withdrawn :: "env \<Rightarrow> u64 \<Rightarrow> Address
   \<Rightarrow> event" where
  "invoice_withdrawn env invoice_id sme =
     event_of ''INV_WTH'' [U64V invoice_id, AddressV sme, U64V (timestamp env)]"

definition repayment_made :: "env \<Rightarrow> u64 \<Rightarrow> Address
   \<Rightarrow> i128 \<Rightarrow> event" where
  "repayment_made env invoice_id payer amount =
     event_of ''REPAY'' [AddressV payer, U64V invoice_id, I128V amount, U64V (timestamp env)]"

definition yield_distributed :: "env \<Rightarrow> u64 \<Rightarrow> Address
   \<Rightarrow> i128 \<Rightarrow> event" where
  "yield_distributed env invoice_id investor yield_amount =
     event_of ''YIELD'' [AddressV investor, U64V invoice_id, I128V yield_amount,
       U64V (timestamp env)]"

definition late_penalty_applied :: "env \<Rightarrow> u64 \<Rightarrow> i128
   \<Rightarrow> i128 \<Rightarrow> event" where
  "late_penalty_applied env invoice_id penalty_amount total_owed =
     event_of ''LATE_PEN'' [U64V invoice_id, I128V penalty_amount, I128V total_owed,
       U64V (timestamp env)]"

definition listing_cancelled :: "env \<Rightarrow> u64 \<Rightarrow> Address
   \<Rightarrow> event" where
  "listing_cancelled env invoice_id seller =
     event_of ''LST_CXL'' [AddressV seller, U64V invoice_id, U64V (timestamp env)]"

definition listing_expired :: "env \<Rightarrow> u64 \<Rightarrow> Address
   \<Rightarrow> event" where
  "listing_expired env invoice_id seller =
     event_of ''LST_EXP'' [AddressV seller, U64V invoice_id, U64V (timestamp env)]"

definition fee_collected :: "env \<Rightarrow> Address \<Rightarrow> u64
   \<Rightarrow> i128 \<Rightarrow> Address \<Rightarrow> event" where
  "fee_collected env investor invoice_id fee_amount token =
     event_of ''FEE_COLL'' [AddressV investor, U64V invoice_id, I128V fee_amount,
       AddressV token, U64V (timestamp env)]"

definition fee_withdrawn :: "env \<Rightarrow> Address \<Rightarrow> Address
   \<Rightarrow> i128 \<Rightarrow> event" where
  "fee_withdrawn env actor token amount =
     event_of ''FEE_WTH'' [AddressV actor, AddressV token, I128V amount, U64V (timestamp env)]"

definition emergency_withdrawn :: "env \<Rightarrow> Address
   \<Rightarrow> Address \<Rightarrow> i128 \<Rightarrow> event" where
  "emergency_withdrawn env by token amount =
     event_of ''EMRG_WTH'' [AddressV by, AddressV token, I128V amount, U64V (timestamp env)]"

definition fee_rate_updated :: "env \<Rightarrow> Address \<Rightarrow> u32
   \<Rightarrow> u32 \<Rightarrow> event" where
  "fee_rate_updated env by old_bps new_bps =
     event_of ''FEE_UPD'' [AddressV by, U32V old_bps, U32V new_bps, U64V (timestamp env)]"

definition treasury_initialized :: "env \<Rightarrow> Address \<Rightarrow> u32
   \<Rightarrow> event" where
  "treasury_initialized env admin fee_bps =
     event_of ''TRES_INI'' [AddressV admin, U32V fee_bps, U64V (timestamp env)]"

definition protocol_paused :: "env \<Rightarrow> Address \<Rightarrow> event" where
  "protocol_paused env by =
     event_of ''AC_PAUSED'' [AddressV by, U64V (timestamp env)]"

definition protocol_unpaused :: "env \<Rightarrow> Address \<Rightarrow> event" where
  "protocol_unpaused env by =
     event_of ''AC_UNPA'' [AddressV by, U64V (timestamp env)]"

definition token_whitelisted :: "env \<Rightarrow> Address \<Rightarrow> Address
   \<Rightarrow> event" where
  "token_whitelisted env actor token =
     event_of ''TOK_WL'' [AddressV actor, AddressV token, U64V (timestamp env)]"

definition admin_transferred :: "env \<Rightarrow> Address \<Rightarrow> Address
   \<Rightarrow> event" where
  "admin_transferred env actor new_admin =
     event_of ''ADM_TRF'' [AddressV actor, AddressV new_admin, U64V (timestamp env)]"

definition role_granted :: "env \<Rightarrow> Address \<Rightarrow> Address
   \<Rightarrow> event" where
  "role_granted env admin target =
     event_of ''ROL_GRT'' [AddressV admin, AddressV target, U64V (timestamp env)]"

definition role_revoked :: "env \<Rightarrow> Address \<Rightarrow> Address
   \<Rightarrow> event" where
  "role_revoked env admin target =
     event_of ''ROL_RVK'' [AddressV admin, AddressV target, U64V (timestamp env)]"

definition pool_opened :: "env \<Rightarrow> Address \<Rightarrow> u64
   \<Rightarrow> Address \<Rightarrow> i128 \<Rightarrow> event" where
  "pool_opened env marketplace invoice_id token face_value =
     event_of ''POOL_OPEN'' [AddressV marketplace, U64V invoice_id, AddressV token,
       I128V face_value, U64V (timestamp env)]"

definition position_recorded :: "env \<Rightarrow> Address \<Rightarrow> u64
   \<Rightarrow> Address \<Rightarrow> i128 \<Rightarrow> u32 \<Rightarrow> event" where
  "position_recorded env admin invoice_id investor contributed share_bps =
     event_of ''POS_REC'' [AddressV admin, U64V invoice_id, AddressV investor,
       I128V contributed, U32V share_bps, U64V (timestamp env)]"

definition verifier_added :: "env \<Rightarrow> Address \<Rightarrow> Address
   \<Rightarrow> event" where
  "verifier_added env admin verifier =
     event_of ''RV_ADD'' [AddressV admin, AddressV verifier, U64V (timestamp env)]"

definition verifier_removed :: "env \<Rightarrow> Address \<Rightarrow> Address
   \<Rightarrow> event" where
  "verifier_removed env admin verifier =
     event_of ''RV_REM'' [AddressV admin, AddressV verifier, U64V (timestamp env)]"

definition sme_registered :: "env \<Rightarrow> Address \<Rightarrow> Address
   \<Rightarrow> u32 \<Rightarrow> event" where
  "sme_registered env verifier sme risk_score =
     event_of ''SME_REG'' [AddressV verifier, AddressV sme, U32V risk_score,
       U64V (timestamp env)]"

definition sme_score_updated :: "env \<Rightarrow> Address \<Rightarrow> Address
   \<Rightarrow> u32 \<Rightarrow> event" where
  "sme_score_updated env verifier sme new_score =
     event_of ''SME_UPD'' [AddressV verifier, AddressV sme, U32V new_score, U64V (timestamp env)]"

definition sme_default_recorded :: "env \<Rightarrow> Address
   \<Rightarrow> Address \<Rightarrow> u32 \<Rightarrow> event" where
  "sme_default_recorded env admin sme total_defaults =
     event_of ''SME_DFT'' [AddressV admin, AddressV sme, U32V total_defaults,
       U64V (timestamp env)]"

definition sme_invoice_count_incremented :: "env \<Rightarrow> Address
   \<Rightarrow> u32 \<Rightarrow> event" where
  "sme_invoice_count_incremented env sme new_total =
     event_of ''INV_CNT'' [AddressV sme, U32V new_total, U64V (timestamp env)]"

definition debtor_score_set :: "env \<Rightarrow> Address \<Rightarrow> Bytes
   \<Rightarrow> u32 \<Rightarrow> event" where
  "debtor_score_set env verifier debtor_hash score =
     event_of ''RISK_DEBT'' [AddressV verifier, BytesV debtor_hash, U32V score,
       U64V (timestamp env)]"

definition registry_initialized :: "env \<Rightarrow> Address
   \<Rightarrow> Address \<Rightarrow> event" where
  "registry_initialized env admin invoice_nft =
     event_of ''REG_INI'' [AddressV admin, AddressV invoice_nft, U64V (timestamp env)]"

definition upgrade_proposed :: "env \<Rightarrow> Address \<Rightarrow> BytesN32
   \<Rightarrow> event" where
  "upgrade_proposed env admin wasm_hash =
     event_of ''UPG_PROP'' [AddressV admin, BytesV wasm_hash, U64V (timestamp env)]"

definition upgrade_executed :: "env \<Rightarrow> Address \<Rightarrow> BytesN32
   \<Rightarrow> event" where
  "upgrade_executed env admin wasm_hash =
     event_of ''UPG_EXEC'' [AddressV admin, BytesV wasm_hash, U64V (timestamp env)]"

definition multisig_configured :: "env \<Rightarrow> u32 \<Rightarrow> u32
   \<Rightarrow> event" where
  "multisig_configured env threshold signer_count =
     event_of ''AC_MS_CFG'' [U32V threshold, U32V signer_count, U64V (timestamp env)]"

definition action_proposed :: "env \<Rightarrow> u64 \<Rightarrow> Address
   \<Rightarrow> event" where
  "action_proposed env proposal_id proposer =
     event_of ''ACT_PROP'' [U64V proposal_id, AddressV proposer, U64V (timestamp env)]"

definition action_approved :: "env \<Rightarrow> u64 \<Rightarrow> Address
   \<Rightarrow> u32 \<Rightarrow> event" where
  "action_approved env proposal_id approver approval_count =
     event_of ''ACT_APPR'' [U64V proposal_id, AddressV approver, U32V approval_count,
       U64V (timestamp env)]"

definition action_executed :: "env \<Rightarrow> u64 \<Rightarrow> Address
   \<Rightarrow> event" where
  "action_executed env proposal_id executor =
     event_of ''ACT_EXEC'' [U64V proposal_id, AddressV executor, U64V (timestamp env)]"

definition refund_claimed :: "env \<Rightarrow> u64 \<Rightarrow> Address
   \<Rightarrow> i128 \<Rightarrow> event" where
  "refund_claimed env invoice_id investor amount =
     event_of ''REFUND'' [AddressV investor, U64V invoice_id, I128V amount, U64V (timestamp env)]"

definition position_listed_for_sale :: "env \<Rightarrow> u64
   \<Rightarrow> Address \<Rightarrow> i128 \<Rightarrow> event" where
  "position_listed_for_sale env invoice_id seller price =
     event_of ''POS_SALE'' [U64V invoice_id, AddressV seller, I128V price, U64V (timestamp env)]"

definition position_sold :: "env \<Rightarrow> u64 \<Rightarrow> Address
   \<Rightarrow> Address \<Rightarrow> i128 \<Rightarrow> event" where
  "position_sold env invoice_id seller buyer price =
     event_of ''POS_SOLD'' [U64V invoice_id, AddressV seller, AddressV buyer, I128V price,
       U64V (timestamp env)]"

definition withdrawal_cap_proposed :: "env \<Rightarrow> Address
   \<Rightarrow> i128 \<Rightarrow> event" where
  "withdrawal_cap_proposed env admin new_cap =
     event_of ''WTH_CAP_P'' [AddressV admin, I128V new_cap, U64V (timestamp env)]"

definition withdrawal_cap_updated :: "env \<Rightarrow> Address
   \<Rightarrow> i128 \<Rightarrow> i128 \<Rightarrow> event" where
  "withdrawal_cap_updated env admin old_cap new_cap =
     event_of ''WTH_CAP_U'' [AddressV admin, I128V old_cap, I128V new_cap, U64V (timestamp env)]"

definition sme_credit_limit_set :: "env \<Rightarrow> Address
   \<Rightarrow> Address \<Rightarrow> i128 \<Rightarrow> event" where
  "sme_credit_limit_set env verifier sme credit_limit =
     event_of ''SME_CR'' [AddressV verifier, AddressV sme, I128V credit_limit,
       U64V (timestamp env)]"

definition invoice_frozen :: "env \<Rightarrow> u64 \<Rightarrow> Address
   \<Rightarrow> event" where
  "invoice_frozen env invoice_id admin =
     event_of ''INV_FRZ'' [AddressV admin, U64V invoice_id, U64V (timestamp env)]"

definition invoice_unfrozen :: "env \<Rightarrow> u64 \<Rightarrow> Address
   \<Rightarrow> event" where
  "invoice_unfrozen env invoice_id admin =
     event_of ''INV_UFRZ'' [AddressV admin, U64V invoice_id, U64V (timestamp env)]"

definition cancellation_requested :: "env \<Rightarrow> u64 \<Rightarrow> Address
   \<Rightarrow> event" where
  "cancellation_requested env invoice_id caller =
     event_of ''CXL_REQ'' [AddressV caller, U64V invoice_id, U64V (timestamp env)]"

definition admin_action_audited :: "env \<Rightarrow> AdminAuditEntry \<Rightarrow> event" where
  "admin_action_audited env entry =
     event_of ''ADM_AUDIT'' [U64V (ent_sequence entry), AddressV (ent_actor entry),
       ActionV (ent_action entry), SourceV (ent_source entry), U64V (ent_timestamp entry)]"

lemmas event_defs =   event_of_def invoice_created_def invoice_listed_def invoice_funded_def
  invoice_repaid_def invoice_defaulted_def invoice_amended_def invoice_withdrawn_def
  repayment_made_def yield_distributed_def late_penalty_applied_def listing_cancelled_def
  listing_expired_def fee_collected_def fee_withdrawn_def emergency_withdrawn_def
  fee_rate_updated_def treasury_initialized_def protocol_paused_def protocol_unpaused_def
  token_whitelisted_def admin_transferred_def role_granted_def role_revoked_def
  pool_opened_def position_recorded_def verifier_added_def verifier_removed_def
  sme_registered_def sme_score_updated_def sme_default_recorded_def
  sme_invoice_count_incremented_def debtor_score_set_def registry_initialized_def
  upgrade_proposed_def upgrade_executed_def multisig_configured_def action_proposed_def
  action_approved_def action_executed_def refund_claimed_def position_listed_for_sale_def
  position_sold_def withdrawal_cap_proposed_def withdrawal_cap_updated_def
  sme_credit_limit_set_def invoice_frozen_def invoice_unfrozen_def
  cancellation_requested_def admin_action_audited_def

section \<open>The schema of the payloads\<close>

text \<open>
  The canonical schema puts the ledger time last in every payload, for indexers that order
  events by it.
\<close>

definition stamped :: "u64 \<Rightarrow> event \<Rightarrow> bool" where
  "stamped t e \<longleftrightarrow> ev_data e \<noteq> [] \<and> last (ev_data e) = U64V t"

end
