(* ===== verification/Shared_Validation.thy ===== *)
theory Shared_Validation
  imports Shared_Types "HOL-Library.Char_ord"
begin

text \<open>
  The guards and the arithmetic of \<^verbatim>\<open>contracts/shared/src/validation.rs\<close>.

  The first part translates each function; the second part proves what the callers rely on:
  a guard succeeds on exactly the values it names, \<open>bps_of\<close> is the rounded-down share of a
  non-negative amount and never exceeds it, and the variant with decimal normalisation agrees
  with it for tokens of at most seven decimals and stays below it for the others.

  The time-to-live helpers at the end of the source file only call the host's
  \<open>extend_ttl\<close>, which changes no value of the storage; they are not modelled.
\<close>

section \<open>Constants\<close>

definition UPGRADE_TIMELOCK_DELAY :: u64 where "UPGRADE_TIMELOCK_DELAY = 86400"
definition MAX_AMOUNT :: i128 where "MAX_AMOUNT = I128_MAX sdiv 2"
definition CID_MAX_LEN :: u32 where "CID_MAX_LEN = 128"
definition MAX_IPFS_CID_LEN :: u32 where "MAX_IPFS_CID_LEN = 128"
definition MAX_DEBTOR_HASH_LEN :: u32 where "MAX_DEBTOR_HASH_LEN = 64"
definition STANDARD_DECIMALS :: u32 where "STANDARD_DECIMALS = 7"

section \<open>Amount guards\<close>

definition require_within_max_amount :: "i128 \<Rightarrow> unit res" where
  "require_within_max_amount amount =
     (if amount > MAX_AMOUNT then Err InvalidAmount else Ok ())"

definition require_non_zero_amount :: "i128 \<Rightarrow> unit res" where
  "require_non_zero_amount amount = (if amount \<le> 0 then Err InvalidAmount else Ok ())"

definition require_non_negative_amount :: "i128 \<Rightarrow> unit res" where
  "require_non_negative_amount amount = (if amount < 0 then Err InvalidAmount else Ok ())"

definition require_amount_within_bounds :: "i128 \<Rightarrow> i128 \<Rightarrow> unit res" where
  "require_amount_within_bounds amount max_amount =
     (if amount < 0 \<or> amount > max_amount then Err InvalidAmount else Ok ())"

section \<open>Timestamp, risk and fee guards\<close>

definition require_future_timestamp :: "env \<Rightarrow> u64 \<Rightarrow> unit res" where
  "require_future_timestamp env ts =
     (if ts \<le> timestamp env then Err InvalidDueDate else Ok ())"

definition require_valid_risk_score :: "u32 \<Rightarrow> unit res" where
  "require_valid_risk_score score = (if score > 100 then Err InvalidRiskScore else Ok ())"

definition require_valid_fee_bps :: "u32 \<Rightarrow> unit res" where
  "require_valid_fee_bps bps = (if bps > 10000 then Err InvalidFeeRate else Ok ())"

definition require_valid_bps_range :: "u32 \<Rightarrow> u32 \<Rightarrow> u32 \<Rightarrow> unit res" where
  "require_valid_bps_range bps min_bps max_bps =
     (if bps < min_bps \<or> bps > max_bps then Err InvalidFeeRate else Ok ())"

section \<open>String and byte guards\<close>

definition require_non_empty_string :: "string \<Rightarrow> unit res" where
  "require_non_empty_string s = (if length s = 0 then Err EmptyString else Ok ())"

definition require_exact_length :: "Bytes \<Rightarrow> u32 \<Rightarrow> unit res" where
  "require_exact_length bytes expected =
     (if length bytes \<noteq> expected then Err InvalidLength else Ok ())"

definition is_base58_char :: "char \<Rightarrow> bool" where
  "is_base58_char c \<longleftrightarrow>
     CHR ''1'' \<le> c \<and> c \<le> CHR ''9'' \<or> CHR ''A'' \<le> c \<and> c \<le> CHR ''H'' \<or>
     CHR ''J'' \<le> c \<and> c \<le> CHR ''N'' \<or> CHR ''P'' \<le> c \<and> c \<le> CHR ''Z'' \<or>
     CHR ''a'' \<le> c \<and> c \<le> CHR ''k'' \<or> CHR ''m'' \<le> c \<and> c \<le> CHR ''z''"

definition require_valid_ipfs_cid :: "string \<Rightarrow> unit res" where
  "require_valid_ipfs_cid cid =
     (let len = length cid in
      if len < 2 \<or> len > CID_MAX_LEN then Err InvalidCid else
      let first = cid ! 0; second = cid ! 1 in
      if first = CHR ''Q'' \<and> second = CHR ''m'' then
        (if len \<noteq> 46 then Err InvalidCid
         else if list_all is_base58_char (take 46 cid) then Ok ()
         else Err InvalidCid)
      else if first \<in> set ''bBzfFuUkK'' then
        (if len < 10 then Err InvalidCid else Ok ())
      else Err InvalidCid)"

definition require_non_empty_bytes :: "Bytes \<Rightarrow> unit res" where
  "require_non_empty_bytes b = (if length b = 0 then Err EmptyBytes else Ok ())"

definition require_max_length_string :: "string \<Rightarrow> u32 \<Rightarrow> unit res" where
  "require_max_length_string s max_bytes =
     (if length s > max_bytes then Err FieldTooLong else Ok ())"

definition require_max_length_bytes :: "Bytes \<Rightarrow> u32 \<Rightarrow> unit res" where
  "require_max_length_bytes b max_bytes =
     (if length b > max_bytes then Err FieldTooLong else Ok ())"

section \<open>Safe arithmetic\<close>

definition bps_of :: "i128 \<Rightarrow> u32 \<Rightarrow> i128 res" where
  "bps_of amount bps =
     (if amount < 0 then Err InvalidAmount
      else ok_or (Option.bind (checked_mul amount (int bps)) (\<lambda>v. checked_div v 10000))
             ArithmeticOverflow)"

definition safe_add :: "i128 \<Rightarrow> i128 \<Rightarrow> i128 res" where
  "safe_add a b = ok_or (checked_add a b) ArithmeticOverflow"

definition safe_sub :: "i128 \<Rightarrow> i128 \<Rightarrow> i128 res" where
  "safe_sub a b = ok_or (checked_sub a b) ArithmeticUnderflow"

definition require_not_self :: "env \<Rightarrow> Address \<Rightarrow> unit res" where
  "require_not_self env addr = (if addr = self env then Err InvalidAddress else Ok ())"

definition require_distinct :: "Address \<Rightarrow> Address \<Rightarrow> unit res" where
  "require_distinct a b = (if a = b then Err InvalidAddress else Ok ())"

definition safe_mul :: "i128 \<Rightarrow> i128 \<Rightarrow> i128 res" where
  "safe_mul a b = ok_or (checked_mul a b) ArithmeticOverflow"

definition safe_div :: "i128 \<Rightarrow> i128 \<Rightarrow> i128 res" where
  "safe_div a b =
     (if b = 0 then Err InvalidAmount else ok_or (checked_div a b) ArithmeticOverflow)"

section \<open>Decimal normalisation\<close>

definition normalize_amount :: "i128 \<Rightarrow> u32 \<Rightarrow> i128 res" where
  "normalize_amount amount token_decimals =
     (if token_decimals = STANDARD_DECIMALS then Ok amount
      else if token_decimals < STANDARD_DECIMALS then
        andThen (ok_or (checked_pow 10 (STANDARD_DECIMALS - token_decimals)) ArithmeticOverflow)
          (\<lambda>scale. ok_or (checked_mul amount scale) ArithmeticOverflow)
      else
        andThen (ok_or (checked_pow 10 (token_decimals - STANDARD_DECIMALS)) ArithmeticOverflow)
          (\<lambda>scale. ok_or (checked_div amount scale) ArithmeticOverflow))"

definition denormalize_amount :: "i128 \<Rightarrow> u32 \<Rightarrow> i128 res" where
  "denormalize_amount amount token_decimals =
     (if token_decimals = STANDARD_DECIMALS then Ok amount
      else if token_decimals < STANDARD_DECIMALS then
        andThen (ok_or (checked_pow 10 (STANDARD_DECIMALS - token_decimals)) ArithmeticOverflow)
          (\<lambda>scale. ok_or (checked_div amount scale) ArithmeticOverflow)
      else
        andThen (ok_or (checked_pow 10 (token_decimals - STANDARD_DECIMALS)) ArithmeticOverflow)
          (\<lambda>scale. ok_or (checked_mul amount scale) ArithmeticOverflow))"

definition bps_of_normalized :: "i128 \<Rightarrow> u32 \<Rightarrow> u32 \<Rightarrow> i128 res" where
  "bps_of_normalized amount bps token_decimals =
     (if amount < 0 then Err InvalidAmount
      else andThen (normalize_amount amount token_decimals) (\<lambda>normalized.
           andThen (ok_or (Option.bind (checked_mul normalized (int bps)) (\<lambda>v. checked_div v 10000))
                      ArithmeticOverflow) (\<lambda>result.
           denormalize_amount result token_decimals)))"

section \<open>When the guards succeed\<close>

lemma require_eq_Ok [simp, res_simps]:
  "require_within_max_amount x = Ok u \<longleftrightarrow> x \<le> MAX_AMOUNT"
  "require_non_zero_amount x = Ok u \<longleftrightarrow> 0 < x"
  "require_non_negative_amount x = Ok u \<longleftrightarrow> 0 \<le> x"
  "require_amount_within_bounds x y = Ok u \<longleftrightarrow> 0 \<le> x \<and> x \<le> y"
  "require_future_timestamp env t = Ok u \<longleftrightarrow> timestamp env < t"
  "require_valid_risk_score n = Ok u \<longleftrightarrow> n \<le> 100"
  "require_valid_fee_bps n = Ok u \<longleftrightarrow> n \<le> 10000"
  "require_valid_bps_range n lo hi = Ok u \<longleftrightarrow> lo \<le> n \<and> n \<le> hi"
  "require_non_empty_string s = Ok u \<longleftrightarrow> s \<noteq> []"
  "require_exact_length b n = Ok u \<longleftrightarrow> length b = n"
  "require_non_empty_bytes b = Ok u \<longleftrightarrow> b \<noteq> []"
  "require_max_length_string s n = Ok u \<longleftrightarrow> length s \<le> n"
  "require_max_length_bytes b n = Ok u \<longleftrightarrow> length b \<le> n"
  "require_not_self env a = Ok u \<longleftrightarrow> a \<noteq> self env"
  "require_distinct a b' = Ok u \<longleftrightarrow> a \<noteq> b'"
  by (auto simp: require_within_max_amount_def require_non_zero_amount_def
      require_non_negative_amount_def require_amount_within_bounds_def
      require_future_timestamp_def require_valid_risk_score_def require_valid_fee_bps_def
      require_valid_bps_range_def require_non_empty_string_def require_exact_length_def
      require_non_empty_bytes_def require_max_length_string_def require_max_length_bytes_def
      require_not_self_def require_distinct_def)

lemma safe_eq_Ok [simp, res_simps]:
  "safe_add a b = Ok c \<longleftrightarrow> c = a + b \<and> in_i128 (a + b)"
  "safe_sub a b = Ok c \<longleftrightarrow> c = a - b \<and> in_i128 (a - b)"
  "safe_mul a b = Ok c \<longleftrightarrow> c = a * b \<and> in_i128 (a * b)"
  by (auto simp: safe_add_def safe_sub_def safe_mul_def)

section \<open>Shares in basis points\<close>

lemma mul_div_le: "0 \<le> a \<Longrightarrow> 0 \<le> m \<Longrightarrow> m \<le> n \<Longrightarrow> 0 < n \<Longrightarrow> a * m div n \<le> (a::int)"
proof -
  assume "0 \<le> a" and "0 \<le> m" and "m \<le> n" and "0 < n"
  then have "a * m div n \<le> a * n div n"
    by (intro zdiv_mono1 mult_left_mono) auto
  with \<open>0 < n\<close> show ?thesis by simp
qed

lemma div_mult_le_int: "0 < n \<Longrightarrow> x div n * n \<le> (x::int)"
  by (simp add: minus_mod_eq_div_mult [symmetric])

lemma le_divI: "0 < n \<Longrightarrow> a * n \<le> b \<Longrightarrow> a \<le> b div (n::int)"
  using zdiv_mono1 [of "a * n" b n] by simp

lemma bps_of_eq_Ok:
  "bps_of amount bps = Ok v \<longleftrightarrow>
     0 \<le> amount \<and> amount * int bps \<le> I128_MAX \<and> v = amount * int bps div 10000"
  by (auto simp: bps_of_def in_i128_nonneg bind_eq_Some_conv checked_div_pos)

lemma bps_of_le: "bps_of amount bps = Ok v \<Longrightarrow> bps \<le> 10000 \<Longrightarrow> 0 \<le> v \<and> v \<le> amount"
  by (auto simp: bps_of_eq_Ok pos_imp_zdiv_nonneg_iff intro!: mul_div_le)

text \<open>The value of the scaled computation, in closed form.\<close>

definition scaled_share :: "i128 \<Rightarrow> u32 \<Rightarrow> u32 \<Rightarrow> i128" where
  "scaled_share amount bps d =
     (if d \<le> STANDARD_DECIMALS then amount * int bps div 10000
      else amount div 10 ^ (d - STANDARD_DECIMALS) * int bps div 10000
             * 10 ^ (d - STANDARD_DECIMALS))"

lemma div_scale_cancel: "0 < s \<Longrightarrow> x * s * m div n div s = x * m div (n::int)"
proof -
  assume s: "0 < s"
  have "x * s * m div n div s = x * s * m div (n * s)"
    using s by (simp add: zdiv_zmult2_eq)
  also have "\<dots> = x * m div n"
    using s div_mult_mult1 [of s "x * m" n] by (simp add: ac_simps)
  finally show ?thesis .
qed

lemma bps_of_normalized_Ok:
  assumes "bps_of_normalized amount bps d = Ok v"
  shows "0 \<le> amount \<and> v = scaled_share amount bps d"
proof (cases "d = STANDARD_DECIMALS")
  case True
  with assms show ?thesis
    by (auto simp: bps_of_normalized_def normalize_amount_def denormalize_amount_def
        scaled_share_def in_i128_nonneg checked_div_pos bind_eq_Some_conv)
next
  case neq: False
  show ?thesis
  proof (cases "d < STANDARD_DECIMALS")
    case True
    define s where "s = (10::int) ^ (STANDARD_DECIMALS - d)"
    have s: "0 < s" by (simp add: s_def)
    from assms neq True have amt: "0 \<le> amount"
      by (simp add: bps_of_normalized_def split: if_splits)
    have in1: "in_i128 (amount * s * int bps div 10000)" if "in_i128 (amount * s * int bps)"
      using that amt s by (intro in_i128_between [OF that]) (simp_all add: pos_imp_zdiv_nonneg_iff div_le_self_int)
    have "0 \<le> amount * s" using amt s by simp
    with assms neq True amt s show ?thesis
      by (auto simp: bps_of_normalized_def normalize_amount_def denormalize_amount_def
          scaled_share_def checked_div_pos bind_eq_Some_conv s_def [symmetric] in1
          pos_imp_zdiv_nonneg_iff div_scale_cancel)
  next
    case False
    define s where "s = (10::int) ^ (d - STANDARD_DECIMALS)"
    have s: "0 < s" by (simp add: s_def)
    from assms have amt: "0 \<le> amount"
      by (simp add: bps_of_normalized_def split: if_splits)
    from assms neq False amt s show ?thesis
      by (auto simp: bps_of_normalized_def normalize_amount_def denormalize_amount_def
          scaled_share_def checked_div_def bind_eq_Some_conv s_def [symmetric]
          pos_imp_zdiv_nonneg_iff split: if_splits)
  qed
qed

lemma scaled_share_bounds:
  assumes "0 \<le> amount" "bps \<le> 10000"
  shows "0 \<le> scaled_share amount bps d \<and> scaled_share amount bps d \<le> amount * int bps div 10000"
proof (cases "d \<le> STANDARD_DECIMALS")
  case True
  with assms show ?thesis by (simp add: scaled_share_def pos_imp_zdiv_nonneg_iff)
next
  case False
  define s where "s = (10::int) ^ (d - STANDARD_DECIMALS)"
  have s: "0 < s" by (simp add: s_def)
  have "amount div s * int bps div 10000 * 10000 * s \<le> amount div s * int bps * s"
    using s by (intro mult_right_mono div_mult_le_int) auto
  also have "\<dots> = amount div s * s * int bps" by simp
  also have "\<dots> \<le> amount * int bps"
    using s by (intro mult_right_mono div_mult_le_int) auto
  finally have "amount div s * int bps div 10000 * s \<le> amount * int bps div 10000"
    by (intro le_divI) (simp_all add: ac_simps)
  with False s assms show ?thesis
    by (simp add: scaled_share_def s_def [symmetric] pos_imp_zdiv_nonneg_iff)
qed

lemma bps_of_normalized_bounds:
  assumes "bps_of_normalized amount bps d = Ok v" "bps \<le> 10000"
  shows "0 \<le> v \<and> v \<le> amount * int bps div 10000 \<and> v \<le> amount"
proof -
  from bps_of_normalized_Ok [OF assms(1)] have amt: "0 \<le> amount" and v: "v = scaled_share amount bps d"
    by auto
  have "amount * int bps div 10000 \<le> amount"
    using assms(2) amt by (intro mul_div_le) auto
  with scaled_share_bounds [OF amt assms(2), of d] v show ?thesis by auto
qed

section \<open>When shares do not overflow\<close>

text \<open>The amounts that the scaled computation of shares handles, for a token with \<open>d\<close> decimals.\<close>

definition payable :: "i128 \<Rightarrow> u32 \<Rightarrow> bool" where
  "payable r d \<longleftrightarrow> 0 \<le> r \<and> d \<le> 18 \<and> r * 10 ^ (STANDARD_DECIMALS - d) * 10000 \<le> I128_MAX"

lemma mult_le_self_int: "0 \<le> (a::int) \<Longrightarrow> 1 \<le> b \<Longrightarrow> a \<le> a * b"
  using mult_left_mono [of 1 b a] by simp

lemma payable_bound: "payable r d \<Longrightarrow> r * 10000 \<le> I128_MAX"
  using mult_le_self_int [of r "10 ^ (STANDARD_DECIMALS - d)"] by (simp add: payable_def)

lemma share_succeeds:
  assumes "0 \<le> y" "y * 10000 \<le> I128_MAX" "bps \<le> 10000"
  shows "Option.bind (checked_mul y (int bps)) (\<lambda>v. checked_div v 10000) = Some (y * int bps div 10000)"
    "0 \<le> y * int bps div 10000" "y * int bps div 10000 \<le> y"
proof -
  have "y * int bps \<le> y * 10000" using assms(1,3) by (intro mult_left_mono) auto
  with assms have "in_i128 (y * int bps)" by (simp add: in_i128_nonneg)
  then show "Option.bind (checked_mul y (int bps)) (\<lambda>v. checked_div v 10000) = Some (y * int bps div 10000)"
    using assms(1) by (simp add: checked_mul_def checked_div_pos)
  show "0 \<le> y * int bps div 10000" "y * int bps div 10000 \<le> y"
    using assms(1,3) by (auto simp: pos_imp_zdiv_nonneg_iff intro: mul_div_le)
qed

lemma scale_in_range: "n \<le> 18 \<Longrightarrow> in_i128 (10 ^ n)"
  using power_increasing [of n 18 "10::int"] by (simp add: in_i128_nonneg) (simp add: I128_MAX_def)

lemma bps_of_normalized_succeeds:
  assumes "payable r d" "bps \<le> 10000"
  shows "bps_of_normalized r bps d = Ok (scaled_share r bps d)"
proof -
  have r: "0 \<le> r" "d \<le> 18" "r * 10000 \<le> I128_MAX" "in_i128 r"
    using assms(1) payable_bound [OF assms(1)] by (simp_all add: payable_def in_i128_nonneg)
  have "\<exists>v. bps_of_normalized r bps d = Ok v"
  proof (cases "d < STANDARD_DECIMALS")
    case True
    define s where "s = (10::int) ^ (STANDARD_DECIMALS - d)"
    have s: "0 < s" "in_i128 s" "r * s * 10000 \<le> I128_MAX"
      using assms(1) by (simp_all add: s_def payable_def scale_in_range STANDARD_DECIMALS_def)
    note y = share_succeeds [OF mult_nonneg_nonneg [OF r(1) less_imp_le [OF s(1)]] s(3) assms(2)]
    have "in_i128 (r * s)" using r(1) s by (simp add: in_i128_nonneg)
    moreover from in_i128_between [OF this y(2,3)] have "in_i128 (r * s * int bps div 10000)" .
    ultimately show ?thesis
      using True r(1) s y
      by (simp add: bps_of_normalized_def normalize_amount_def denormalize_amount_def s_def [symmetric]
          checked_pow_def checked_mul_def checked_div_pos)
  next
    case False
    define s where "s = (10::int) ^ (d - STANDARD_DECIMALS)"
    have s: "0 < s" "in_i128 s" using r(2) by (simp_all add: s_def scale_in_range)
    have y0: "0 \<le> r div s" "r div s \<le> r"
      using r(1) s(1) by (simp_all add: pos_imp_zdiv_nonneg_iff div_le_self_int)
    then have "r div s * 10000 \<le> I128_MAX" using r(3) by linarith
    note y = share_succeeds [OF y0(1) this assms(2)]
    have "r div s * int bps div 10000 * s \<le> r div s * s" using y(3) s(1) by (intro mult_right_mono) auto
    also have "\<dots> \<le> r" using s(1) by (rule div_mult_le_int)
    finally have "in_i128 (r div s * int bps div 10000 * s)"
      using y(2) s(1) by (intro in_i128_between [OF r(4)]) simp_all
    with share_succeeds(1) [OF r(1,3) assms(2)] False r s y show ?thesis
      by (auto simp: bps_of_normalized_def normalize_amount_def denormalize_amount_def s_def [symmetric]
          checked_pow_def checked_mul_def checked_div_pos)
  qed
  with bps_of_normalized_Ok show ?thesis by blast
qed

section \<open>Properties\<close>

text \<open>
  C37: the scaled computation of a share against the plain one. For an amount and a rate of at most 100
  percent in the range of the computation it returns a value; for a token with at most seven
  decimals that is exactly the value of \<open>bps_of\<close>, the share rounded down; for a token with more
  decimals it is a multiple of \<open>10 ^ (d - 7)\<close>, at most the exact share and less than two such units
  below it.
\<close>

theorem normalized_share_exact:
  assumes "payable amount d" "bps \<le> 10000"
  shows "\<exists>v. bps_of_normalized amount bps d = Ok v \<and>
    (d \<le> STANDARD_DECIMALS \<longrightarrow> bps_of amount bps = Ok v) \<and>
    (10 :: int) ^ (d - STANDARD_DECIMALS) dvd v \<and> v \<le> amount * int bps div 10000 \<and>
    amount * int bps div 10000 < v + 2 * 10 ^ (d - STANDARD_DECIMALS)"
proof -
  define s where "s = (10::int) ^ (d - STANDARD_DECIMALS)"
  define q where "q = amount div s"
  have s: "0 < s" by (simp add: s_def)
  have r: "0 \<le> amount" "amount * 10000 \<le> I128_MAX"
    using assms(1) payable_bound [OF assms(1)] by (simp_all add: payable_def)
  have "bps_of amount bps = Ok (amount * int bps div 10000)"
    using share_succeeds(1) [OF r assms(2)] r(1) by (simp add: bps_of_def)
  moreover have v: "scaled_share amount bps d = q * int bps div 10000 * s"
    by (simp add: scaled_share_def q_def s_def)
  have "amount * int bps div 10000 < q * int bps div 10000 * s + 2 * s"
  proof -
    have "amount < (q + 1) * s"
      using s mod_pos_pos_trivial pos_mod_bound [of s amount] by (simp add: q_def distrib_right minus_mod_eq_div_mult [symmetric])
    then have "amount * int bps \<le> (q + 1) * s * int bps" by (intro mult_right_mono) auto
    also have "\<dots> = q * int bps * s + s * int bps" by (simp add: algebra_simps)
    also have "\<dots> \<le> q * int bps * s + s * 10000" using s assms(2) by (intro add_left_mono mult_left_mono) auto
    also have "q * int bps < (q * int bps div 10000 + 1) * 10000" by presburger
    then have "q * int bps * s < (q * int bps div 10000 + 1) * 10000 * s" using s by (intro mult_strict_right_mono)
    finally have "amount * int bps < (q * int bps div 10000 * s + 2 * s) * 10000" by (simp add: algebra_simps)
    then show ?thesis by (simp add: div_less_iff_less_mult)
  qed
  moreover have "d \<le> STANDARD_DECIMALS \<longrightarrow> scaled_share amount bps d = amount * int bps div 10000" "s dvd scaled_share amount bps d"
    by (simp add: scaled_share_def, simp add: v)
  ultimately show ?thesis
    using bps_of_normalized_succeeds [OF assms] scaled_share_bounds [OF r(1) assms(2), of d]
    by (intro exI [of _ "scaled_share amount bps d"]) (simp add: v [symmetric] s_def [symmetric])
qed

theorem normalized_share_exact_witness:
  "payable 12345678901234567890 18 \<and> (\<exists>v. bps_of_normalized 12345678901234567890 50 18 = Ok v \<and> v \<le> 12345678901234567890 * 50 div 10000 \<and>
     12345678901234567890 * 50 div 10000 < v + 2 * 10 ^ 11)"
proof -
  have "payable 12345678901234567890 18" by (simp add: payable_def STANDARD_DECIMALS_def I128_MAX_def)
  from normalized_share_exact [OF this, of 50] show ?thesis
    by (auto simp: payable_def STANDARD_DECIMALS_def I128_MAX_def)
qed

end
