(* ===== verification/Audit_Log.thy ===== *)
theory Audit_Log
  imports Shared_Events Shared_Validation
begin

text \<open>
  The on-chain audit log. Three contracts (access control, treasury, risk registry) hold the same
  ring buffer of \<open>MAX_AUDIT_LOG_SIZE\<close> entries and the same two functions on it,
  \<open>append_audit_entry\<close> and \<open>get_audit_log\<close>; the functions here are the ones of
  \<^verbatim>\<open>contracts/access_control/src/lib.rs\<close>, with the source tag as an argument.

  The specification of the log is the list of all entries ever appended, oldest first:
  \<open>audit_repr h l\<close> relates that history to the ring buffer. Appending appends to the history,
  and a page of the log is a slice of the last \<open>MAX_AUDIT_LOG_SIZE\<close> entries, newest first.
  The locale \<open>audited\<close> carries both facts to every contract that keeps a log.
\<close>

section \<open>The ring buffer\<close>

record audit_log =
  log_head :: "u64 option"
  log_total :: "u64 option"
  log_entries :: "u64 \<rightharpoonup> AdminAuditEntry"

definition empty_log :: audit_log where
  "empty_log = \<lparr>log_head = None, log_total = None, log_entries = Map.empty\<rparr>"

definition audit_entry :: "AuditSource \<Rightarrow> env \<Rightarrow> Address \<Rightarrow> AdminActionType \<Rightarrow> u64 \<Rightarrow> AdminAuditEntry" where
  "audit_entry source env actor action seq =
     \<lparr>ent_sequence = seq, ent_timestamp = timestamp env, ent_actor = actor,
      ent_action = action, ent_source = source\<rparr>"

definition audit_append ::
    "AuditSource \<Rightarrow> env \<Rightarrow> Address \<Rightarrow> AdminActionType \<Rightarrow> audit_log \<Rightarrow> (AdminAuditEntry \<times> audit_log) res" where
  "audit_append source env actor action l =
     (let total = unwrap_or (log_total l) 0;
          head = unwrap_or (log_head l) 0;
          entry = audit_entry source env actor action total;
          l = l\<lparr>log_entries := (log_entries l)(head \<mapsto> entry)\<rparr>
      in andThen (add_u64 head 1) (\<lambda>head1.
         let next_head = head1 mod MAX_AUDIT_LOG_SIZE in
         andThen (add_u64 total 1) (\<lambda>total1.
         Ok (entry, l\<lparr>log_head := Some next_head, log_total := Some total1\<rparr>))))"

function audit_walk ::
    "audit_log \<Rightarrow> u64 \<Rightarrow> u64 \<Rightarrow> u64 \<Rightarrow> u64 \<Rightarrow> u64 \<Rightarrow> AdminAuditEntry list \<Rightarrow> AdminAuditEntry list res" where
  "audit_walk l head stored skip page_size i results =
     (if i < page_size then
        andThen (add_u64 skip i) (\<lambda>offset.
        if offset \<ge> stored then Ok results else
        andThen (add_u64 head MAX_AUDIT_LOG_SIZE) (\<lambda>h1.
        andThen (sub_u64 h1 1) (\<lambda>h2.
        andThen (sub_u64 h2 offset) (\<lambda>h3.
        let pos = h3 mod MAX_AUDIT_LOG_SIZE;
            results = (case log_entries l pos of None \<Rightarrow> results | Some entry \<Rightarrow> results @ [entry])
        in audit_walk l head stored skip page_size (i + 1) results))))
      else Ok results)"
  by pat_completeness auto
termination
  by (relation "measure (\<lambda>(l, head, stored, skip, page_size, i, results). page_size - i)") auto

declare audit_walk.simps [simp del]

definition audit_page :: "audit_log \<Rightarrow> u32 \<Rightarrow> u32 \<Rightarrow> AdminAuditEntry list res" where
  "audit_page l page page_size =
     (let page_size = min (max page_size 1) 50;
          total = unwrap_or (log_total l) 0;
          head = unwrap_or (log_head l) 0;
          stored = min total MAX_AUDIT_LOG_SIZE;
          skip = saturating_mul_u64 page page_size
      in audit_walk l head stored skip page_size 0 [])"

section \<open>The history behind the buffer\<close>

definition audit_repr :: "AdminAuditEntry list \<Rightarrow> audit_log \<Rightarrow> bool" where
  "audit_repr h l \<longleftrightarrow>
     unwrap_or (log_total l) 0 = length h \<and>
     unwrap_or (log_head l) 0 = length h mod MAX_AUDIT_LOG_SIZE \<and>
     (\<forall>k<length h. length h \<le> k + MAX_AUDIT_LOG_SIZE \<longrightarrow>
        log_entries l (k mod MAX_AUDIT_LOG_SIZE) = Some (h ! k))"

text \<open>The entries the buffer still holds, newest first.\<close>

definition recent :: "AdminAuditEntry list \<Rightarrow> AdminAuditEntry list" where
  "recent h = take MAX_AUDIT_LOG_SIZE (rev h)"

lemma audit_repr_empty: "audit_repr [] empty_log"
  by (simp add: audit_repr_def empty_log_def)

lemma mod_window_neq: "k < n \<Longrightarrow> n < k + m \<Longrightarrow> k mod m \<noteq> n mod (m::nat)"
proof
  assume "k < n" "n < k + m" "k mod m = n mod m"
  then have "m dvd n - k" by (metis mod_eq_dvd_iff_nat less_imp_le)
  with \<open>k < n\<close> \<open>n < k + m\<close> show False by (auto dest: dvd_imp_le)
qed

lemma audit_append_repr:
  assumes "audit_repr h l" "audit_append source env actor action l = Ok (e, l')"
  shows "e = audit_entry source env actor action (length h) \<and> audit_repr (h @ [e]) l'"
proof -
  from assms have e: "e = audit_entry source env actor action (length h)"
    and l': "l' = l\<lparr>log_entries := (log_entries l)(length h mod MAX_AUDIT_LOG_SIZE \<mapsto> e),
               log_head := Some ((length h mod MAX_AUDIT_LOG_SIZE + 1) mod MAX_AUDIT_LOG_SIZE),
               log_total := Some (length h + 1)\<rparr>"
    by (auto simp: audit_append_def audit_repr_def Let_def)
  have "log_entries l' (k mod MAX_AUDIT_LOG_SIZE) = Some ((h @ [e]) ! k)"
    if k: "k < Suc (length h)" "Suc (length h) \<le> k + MAX_AUDIT_LOG_SIZE" for k
  proof (cases "k = length h")
    case True
    then show ?thesis by (simp add: l')
  next
    case False
    with k have "k < length h" by simp
    with k have "k mod MAX_AUDIT_LOG_SIZE \<noteq> length h mod MAX_AUDIT_LOG_SIZE"
      by (intro mod_window_neq) auto
    with \<open>k < length h\<close> k assms(1) show ?thesis
      by (simp add: l' audit_repr_def nth_append)
  qed
  with e l' show ?thesis
    by (simp add: audit_repr_def MAX_AUDIT_LOG_SIZE_def mod_Suc_eq)
qed

lemma audit_append_history:
  "audit_append source env actor action l = Ok (e, l') \<Longrightarrow> audit_repr h l \<Longrightarrow> \<exists>h. audit_repr h l'"
  using audit_append_repr by blast

lemma length_recent: "length (recent h) = min (length h) MAX_AUDIT_LOG_SIZE"
  by (simp add: recent_def)

lemma audit_slot:
  assumes "audit_repr h l" "offset < length (recent h)"
  shows "log_entries l ((unwrap_or (log_head l) 0 + MAX_AUDIT_LOG_SIZE - 1 - offset) mod MAX_AUDIT_LOG_SIZE)
           = Some (recent h ! offset)"
proof -
  define k where "k = length h - 1 - offset"
  from assms(2) have off: "offset < length h" "offset < MAX_AUDIT_LOG_SIZE"
    by (simp_all add: length_recent)
  then have k: "k < length h" "length h \<le> k + MAX_AUDIT_LOG_SIZE" "length h = k + 1 + offset"
    by (simp_all add: k_def)
  have "(length h mod MAX_AUDIT_LOG_SIZE + MAX_AUDIT_LOG_SIZE - 1 - offset) mod MAX_AUDIT_LOG_SIZE
          = (length h mod MAX_AUDIT_LOG_SIZE + (MAX_AUDIT_LOG_SIZE - 1 - offset)) mod MAX_AUDIT_LOG_SIZE"
    using off by simp
  also have "\<dots> = (length h + (MAX_AUDIT_LOG_SIZE - 1 - offset)) mod MAX_AUDIT_LOG_SIZE"
    by (simp add: mod_add_left_eq)
  also have "\<dots> = (k + MAX_AUDIT_LOG_SIZE) mod MAX_AUDIT_LOG_SIZE"
    using k(3) off by simp
  finally have "(length h mod MAX_AUDIT_LOG_SIZE + MAX_AUDIT_LOG_SIZE - 1 - offset) mod MAX_AUDIT_LOG_SIZE
          = k mod MAX_AUDIT_LOG_SIZE" by simp
  moreover have "recent h ! offset = h ! k"
    using off by (simp add: recent_def rev_nth k_def)
  ultimately show ?thesis
    using assms(1) k by (simp add: audit_repr_def)
qed

lemma drop_nth_conv: "k < length xs \<Longrightarrow> drop k xs = xs ! k # drop (Suc k) xs"
  by (simp add: Cons_nth_drop_Suc)

lemma audit_walk_recent:
  assumes "audit_repr h l" "skip + page_size \<le> U64_MAX" "head = unwrap_or (log_head l) 0"
    "i \<le> page_size"
  shows "audit_walk l head (length (recent h)) skip page_size i results
           = Ok (results @ take (page_size - i) (drop (skip + i) (recent h)))"
  using assms(4)
proof (induction "page_size - i" arbitrary: i results)
  case 0
  then show ?case by (subst audit_walk.simps) simp
next
  case (Suc n)
  then have i: "i < page_size" by simp
  show ?case
  proof (cases "skip + i < length (recent h)")
    case False
    with i assms(2) show ?thesis
      by (simp add: audit_walk.simps [of l head _ skip page_size i] add_u64_def)
  next
    case True
    have "log_head l = None \<or> head < MAX_AUDIT_LOG_SIZE"
      using assms(1,3) by (cases "log_head l") (auto simp: audit_repr_def MAX_AUDIT_LOG_SIZE_def)
    then have head: "head < MAX_AUDIT_LOG_SIZE"
      using assms(3) by (auto simp: MAX_AUDIT_LOG_SIZE_def)
    then have small: "head + MAX_AUDIT_LOG_SIZE \<le> U64_MAX"
      by (simp add: MAX_AUDIT_LOG_SIZE_def U64_MAX_def)
    have "skip + i < MAX_AUDIT_LOG_SIZE" using True by (simp add: length_recent)
    then have "audit_walk l head (length (recent h)) skip page_size i results
        = audit_walk l head (length (recent h)) skip page_size (i + 1)
            (results @ [recent h ! (skip + i)])"
      using i True assms(2) small audit_slot [OF assms(1) True]
      by (subst audit_walk.simps)
        (simp add: add_u64_def sub_u64_def Let_def assms(3) MAX_AUDIT_LOG_SIZE_def)
    also have "\<dots> = Ok ((results @ [recent h ! (skip + i)])
        @ take (page_size - (i + 1)) (drop (skip + (i + 1)) (recent h)))"
      using Suc.hyps i by (intro Suc.hyps(1)) simp_all
    finally show ?thesis
      using i True by (simp add: drop_nth_conv [OF True] take_Cons' Suc_diff_Suc)
  qed
qed

lemma audit_page_recent:
  assumes "audit_repr h l"
  shows "audit_page l page page_size =
    (let n = min (max page_size 1) 50 in Ok (take n (drop (page * n) (recent h))))"
proof -
  define n where "n = min (max page_size 1) 50"
  define skip where "skip = saturating_mul_u64 page n"
  have n: "1 \<le> n" "n \<le> 50" by (simp_all add: n_def)
  have page: "audit_page l page page_size
      = audit_walk l (unwrap_or (log_head l) 0) (length (recent h)) skip n 0 []"
    using assms by (simp add: audit_page_def Let_def n_def skip_def audit_repr_def length_recent)
  show ?thesis
  proof (cases "skip < length (recent h)")
    case True
    then have skip: "skip < 500" by (simp add: length_recent MAX_AUDIT_LOG_SIZE_def)
    then have eq: "skip = page * n"
      by (simp add: skip_def saturating_mul_u64_def U64_MAX_def min_def split: if_splits)
    from skip n have "skip + n \<le> U64_MAX" by (simp add: U64_MAX_def)
    from audit_walk_recent [OF assms this refl, of 0 "[]"] show ?thesis
      by (simp only: page Let_def n_def [symmetric]) (simp add: eq)
  next
    case False
    then have "length (recent h) \<le> page * n"
      using length_recent [of h]
      by (auto simp: skip_def saturating_mul_u64_def)
    moreover have "length (recent h) \<le> U64_MAX"
      by (simp add: length_recent MAX_AUDIT_LOG_SIZE_def U64_MAX_def)
    ultimately show ?thesis
      using False n
      by (simp only: page Let_def n_def [symmetric])
        (subst audit_walk.simps, simp add: add_u64_def skip_def saturating_mul_u64_def)
  qed
qed

section \<open>The contract of an audited component\<close>

locale audited =
  fixes log_of :: "'s \<Rightarrow> audit_log"
    and append :: "env \<Rightarrow> Address \<Rightarrow> AdminActionType \<Rightarrow> 's \<Rightarrow> 's res"
    and page :: "'s \<Rightarrow> u32 \<Rightarrow> u32 \<Rightarrow> AdminAuditEntry list res"
    and source :: AuditSource
  assumes append_log: "append env a act s = Ok s' \<Longrightarrow>
      \<exists>e. audit_append source env a act (log_of s) = Ok (e, log_of s')"
    and append_total: "audit_append source env a act (log_of s) = Ok el \<Longrightarrow> \<exists>s'. append env a act s = Ok s'"
    and page_log: "page s p n = audit_page (log_of s) p n"
begin

lemma append_history:
  assumes "audit_repr h (log_of s)" "append env a act s = Ok s'"
  shows "audit_repr (h @ [audit_entry source env a act (length h)]) (log_of s')"
  using audit_append_repr [OF assms(1)] append_log [OF assms(2)] by fastforce

lemma append_succeeds:
  assumes "audit_repr h (log_of s)" "length h < U64_MAX"
  shows "\<exists>s'. append env a act s = Ok s'"
proof -
  have "unwrap_or (log_total (log_of s)) 0 + 1 \<le> U64_MAX"
    and "unwrap_or (log_head (log_of s)) 0 + 1 \<le> U64_MAX"
    using assms by (auto simp: audit_repr_def U64_MAX_def intro: le_trans [OF Suc_leI [OF mod_less_divisor]] simp: MAX_AUDIT_LOG_SIZE_def)
  then show ?thesis
    using append_total by (fastforce simp: audit_append_def Let_def add_u64_def)
qed

lemma page_of_history:
  "audit_repr h (log_of s) \<Longrightarrow> page s p n =
     (let k = min (max n 1) 50 in Ok (take k (drop (p * k) (recent h))))"
  by (simp add: page_log audit_page_recent)

lemma newest_entry_first:
  assumes "audit_repr h (log_of s)" "append env a act s = Ok s'" "1 \<le> n"
  shows "\<exists>rest. page s' 0 n = Ok (audit_entry source env a act (length h) # rest)"
  using page_of_history [OF append_history [OF assms(1,2)]] assms(3)
  by (simp add: Let_def recent_def MAX_AUDIT_LOG_SIZE_def take_Cons')

end

section \<open>The log of a sequence of actions\<close>

fun audit_all ::
    "AuditSource \<Rightarrow> (env \<times> Address \<times> AdminActionType) list \<Rightarrow> audit_log \<Rightarrow> audit_log res" where
  "audit_all source [] l = Ok l"
| "audit_all source ((env, actor, action) # ops) l =
     andThen (audit_append source env actor action l) (\<lambda>(e, l). audit_all source ops l)"

fun audit_history ::
    "AuditSource \<Rightarrow> u64 \<Rightarrow> (env \<times> Address \<times> AdminActionType) list \<Rightarrow> AdminAuditEntry list" where
  "audit_history source n [] = []"
| "audit_history source n ((env, actor, action) # ops) =
     audit_entry source env actor action n # audit_history source (n + 1) ops"

lemma audit_append_Ok:
  assumes "audit_repr h l" "length h < U64_MAX"
  shows "\<exists>l'. audit_append source env a act l = Ok (audit_entry source env a act (length h), l')"
  using assms by (auto simp: audit_append_def audit_repr_def Let_def add_u64_def MAX_AUDIT_LOG_SIZE_def U64_MAX_def
      intro: le_trans [OF Suc_leI [OF mod_less_divisor]])

lemma audit_all_repr:
  assumes "audit_repr h l" "length h + length ops \<le> U64_MAX"
  shows "\<exists>l'. audit_all source ops l = Ok l' \<and> audit_repr (h @ audit_history source (length h) ops) l'"
  using assms
proof (induction source "length h" ops arbitrary: h l rule: audit_history.induct)
  case (2 source env actor action ops)
  from 2(3) have "length h < U64_MAX" by simp
  from audit_append_Ok [OF 2(2) this] obtain l1 where
    l1: "audit_append source env actor action l = Ok (audit_entry source env actor action (length h), l1)" by blast
  with audit_append_repr [OF 2(2) l1] 2(1) [of "h @ [audit_entry source env actor action (length h)]" l1] 2(3)
  show ?case by simp
qed simp

section \<open>Property\<close>

text \<open>
  C39: the audit log is a faithful window on the history. Every sequence of admin actions is recorded
  without failing, and a page of the log then holds, newest first, the entries of that sequence
  with consecutive numbers, restricted to the last 500 of them: page \<open>p\<close> of size \<open>n\<close> (clamped to 1 to 50)
  is the slice from position \<open>p * n\<close> on.
\<close>

theorem audit_page_shows_history:
  assumes "length ops \<le> U64_MAX"
  shows "\<exists>l. audit_all source ops empty_log = Ok l \<and>
    audit_page l p n = (let k = min (max n 1) 50 in
      Ok (take k (drop (p * k) (take MAX_AUDIT_LOG_SIZE (rev (audit_history source 0 ops))))))"
  using audit_all_repr [OF audit_repr_empty, of ops source] assms
  by (auto simp: audit_page_recent recent_def)

theorem audit_page_shows_history_witness:
  "\<exists>l. audit_all Treasury [(open_env 600 5, 1, Withdraw), (open_env 600 6, 1, SetFeeBps)] empty_log = Ok l \<and>
     audit_page l 0 1 = Ok [audit_entry Treasury (open_env 600 6) 1 SetFeeBps 1]"
  using audit_page_shows_history [of "[(open_env 600 5, 1, Withdraw), (open_env 600 6, 1, SetFeeBps)]" Treasury 0 1]
  by (simp add: U64_MAX_def MAX_AUDIT_LOG_SIZE_def)

end
