(* ===== verification/Shared_Reentrancy.thy ===== *)
theory Shared_Reentrancy
  imports Shared_Validation
begin

text \<open>
  The reentrancy lock of \<^verbatim>\<open>contracts/shared/src/reentrancy.rs\<close>.

  The lock is one instance-storage key of the contract that uses it, so that the functions here
  take the reading and the writing of that key as arguments. The guard value of the source is
  released when it goes out of scope: \<open>with_guard\<close> runs a body with the lock held and releases
  it on the way out (a failing body leaves no state behind, hence no lock either).

  The locale \<open>lock_cell\<close> states what a contract's lock key must satisfy and proves the guarantees
  of the guard once; every contract that uses the guard interprets it.
\<close>

section \<open>The lock\<close>

definition acquire_guard :: "('s \<Rightarrow> bool) \<Rightarrow> (bool \<Rightarrow> 's \<Rightarrow> 's) \<Rightarrow> 's \<Rightarrow> 's res" where
  "acquire_guard get put s = (if get s then Err Reentrancy else Ok (put True s))"

definition release_guard :: "(bool \<Rightarrow> 's \<Rightarrow> 's) \<Rightarrow> 's \<Rightarrow> 's" where
  "release_guard put s = put False s"

definition is_locked :: "('s \<Rightarrow> bool) \<Rightarrow> 's \<Rightarrow> bool" where
  "is_locked get s \<longleftrightarrow> get s"

definition with_guard ::
    "('s \<Rightarrow> bool) \<Rightarrow> (bool \<Rightarrow> 's \<Rightarrow> 's) \<Rightarrow> ('s \<Rightarrow> 's res) \<Rightarrow> 's \<Rightarrow> 's res" where
  "with_guard get put body s =
     andThen (acquire_guard get put s) (\<lambda>s.
     andThen (body s) (\<lambda>s.
     Ok (release_guard put s)))"

lemma acquire_guard_eq_Ok [simp, res_simps]:
  "acquire_guard get put s = Ok s' \<longleftrightarrow> \<not> get s \<and> s' = put True s"
  by (auto simp: acquire_guard_def)

lemma with_guard_eq_Ok [res_simps]:
  "with_guard get put body s = Ok s' \<longleftrightarrow>
     \<not> get s \<and> (\<exists>t. body (put True s) = Ok t \<and> s' = put False t)"
  by (auto simp: with_guard_def release_guard_def)

lemma with_guard_locked: "get s \<Longrightarrow> with_guard get put body s = Err Reentrancy"
  by (simp add: with_guard_def acquire_guard_def)

section \<open>The contract of the guard\<close>

locale lock_cell =
  fixes get :: "'s \<Rightarrow> bool" and put :: "bool \<Rightarrow> 's \<Rightarrow> 's"
  assumes get_put: "get (put b s) = b"
    and put_put: "put b (put c s) = put b s"
    and put_get: "put (get s) s = s"
begin

lemma guard_releases:
  "with_guard get put body s = Ok s' \<Longrightarrow> \<not> is_locked get s \<and> \<not> is_locked get s'"
  by (auto simp: with_guard_eq_Ok is_locked_def get_put)

lemma nested_guard_refused:
  "\<not> get s \<Longrightarrow> with_guard get put (\<lambda>t. with_guard get put body t) s = Err Reentrancy"
  by (simp add: with_guard_def acquire_guard_def get_put)

lemma acquire_after_release:
  "acquire_guard get put (release_guard put s) = Ok (put True s)"
  by (simp add: release_guard_def get_put put_put)

end

end
