(* ===== verification/Upgrade_Timelock.thy ===== *)
theory Upgrade_Timelock
  imports Shared_Validation
begin

text \<open>
  The two-step code upgrade that six contracts offer: \<open>propose_upgrade\<close> stores a code hash with
  the ledger time, \<open>execute_upgrade\<close> installs it once \<open>UPGRADE_TIMELOCK_DELAY\<close> seconds have gone
  by. The locale \<open>timelocked_upgrade\<close> states what the two operations of a contract promise and
  proves, once for all of them, that no code is installed early, twice, or by anybody but the
  admin.
\<close>

text \<open>The expression \<open>now < proposed_at + UPGRADE_TIMELOCK_DELAY\<close> of the sources, whose addition
  traps on overflow.\<close>

definition timelock_elapsed :: "env \<Rightarrow> u64 \<Rightarrow> KoraError \<Rightarrow> unit res" where
  "timelock_elapsed env proposed_at e =
     andThen (add_u64 proposed_at UPGRADE_TIMELOCK_DELAY) (\<lambda>ready.
     if timestamp env < ready then Err e else Ok ())"

lemma timelock_elapsed_eq_Ok [simp, res_simps]:
  "timelock_elapsed env t e = Ok u \<longleftrightarrow>
     t + UPGRADE_TIMELOCK_DELAY \<le> U64_MAX \<and> t + UPGRADE_TIMELOCK_DELAY \<le> timestamp env"
  by (auto simp: timelock_elapsed_def)

text \<open>
  What the pair of operations guarantees: only the admin proposes and executes, a proposal is stamped
  with the ledger time and installs nothing, and code is installed only from a proposal that is at
  least \<open>UPGRADE_TIMELOCK_DELAY\<close> old, which is used up by it.
\<close>

definition upgrade_safe ::
    "('s \<Rightarrow> Address option) \<Rightarrow> ('s \<Rightarrow> (BytesN32 \<times> u64) option) \<Rightarrow> ('s \<Rightarrow> BytesN32 option) \<Rightarrow>
     (env \<Rightarrow> Address \<Rightarrow> BytesN32 \<Rightarrow> 's \<Rightarrow> 's res) \<Rightarrow> (env \<Rightarrow> Address \<Rightarrow> 's \<Rightarrow> 's res) \<Rightarrow> bool" where
  "upgrade_safe admin_of proposal_of code_of propose execute \<longleftrightarrow>
     (\<forall>env a h s s1. propose env a h s = Ok s1 \<longrightarrow>
        authorised env a \<and> admin_of s = Some a \<and> code_of s1 = code_of s \<and>
        (\<forall>env' b s2. execute env' b s1 = Ok s2 \<longrightarrow> b = a \<and> code_of s2 = Some h \<and>
           timestamp env + UPGRADE_TIMELOCK_DELAY \<le> timestamp env')) \<and>
     (\<forall>env a s s1. execute env a s = Ok s1 \<longrightarrow>
        authorised env a \<and> admin_of s = Some a \<and>
        (\<exists>h t. proposal_of s = Some (h, t) \<and> t + UPGRADE_TIMELOCK_DELAY \<le> timestamp env \<and>
               code_of s1 = Some h) \<and>
        (\<forall>env' b s2. execute env' b s1 \<noteq> Ok s2))"

locale timelocked_upgrade =
  fixes admin_of :: "'s \<Rightarrow> Address option"
    and proposal_of :: "'s \<Rightarrow> (BytesN32 \<times> u64) option"
    and code_of :: "'s \<Rightarrow> BytesN32 option"
    and propose :: "env \<Rightarrow> Address \<Rightarrow> BytesN32 \<Rightarrow> 's \<Rightarrow> 's res"
    and execute :: "env \<Rightarrow> Address \<Rightarrow> 's \<Rightarrow> 's res"
  assumes propose_Ok: "propose env a h s = Ok s' \<Longrightarrow>
      authorised env a \<and> admin_of s = Some a \<and> admin_of s' = Some a \<and>
      proposal_of s' = Some (h, timestamp env) \<and> code_of s' = code_of s"
    and execute_Ok: "execute env a s = Ok s' \<Longrightarrow>
      authorised env a \<and> admin_of s = Some a \<and> proposal_of s' = None \<and>
      (\<exists>h t. proposal_of s = Some (h, t) \<and> t + UPGRADE_TIMELOCK_DELAY \<le> timestamp env \<and>
             code_of s' = Some h)"
begin

lemma upgrade_delay:
  assumes "propose env a h s = Ok s1" "execute env' b s1 = Ok s2"
  shows "code_of s2 = Some h \<and> timestamp env + UPGRADE_TIMELOCK_DELAY \<le> timestamp env'
    \<and> a = b \<and> authorised env a \<and> authorised env' b"
  using propose_Ok [OF assms(1)] execute_Ok [OF assms(2)] by auto

lemma execute_once:
  assumes "execute env a s = Ok s1"
  shows "execute env' b s1 \<noteq> Ok s2"
  using execute_Ok [OF assms] execute_Ok [of env' b s1 s2] by auto

lemma safe: "upgrade_safe admin_of proposal_of code_of propose execute"
  unfolding upgrade_safe_def
proof (intro conjI allI impI)
  show "propose env a h s = Ok s1 \<Longrightarrow> execute env' b s1 = Ok s2 \<Longrightarrow> b = a" for env env' a b h s s1 s2
    using upgrade_delay by blast
qed (use propose_Ok execute_Ok upgrade_delay execute_once in \<open>simp_all, blast?\<close>)

lemma early_execute_refused:
  assumes "propose env a h s = Ok s1" "timestamp env' < timestamp env + UPGRADE_TIMELOCK_DELAY"
  shows "execute env' b s1 \<noteq> Ok s2"
  using propose_Ok [OF assms(1)] execute_Ok [of env' b s1 s2] assms(2) by auto

end

end
