(* ===== verification/Access_Control.thy ===== *)
theory Access_Control
  imports Audit_Log Shared_Reentrancy Upgrade_Timelock
begin

text \<open>
  The access-control contract (\<^verbatim>\<open>contracts/access_control/src/lib.rs\<close>): protocol pause, roles and
  admin transfer, the N-of-M multisig for admin actions, governance of the protocol parameters,
  the audit log and the timelocked upgrade.

  \<open>ac_state\<close> has one field per storage key (an \<open>option\<close> or a map where the key may be absent),
  the reentrancy lock, the installed code and the published events. Every entry point is one
  definition on it. The second half proves the invariants of every reachable state by induction
  over the entry points, and interprets the interfaces of the lock, the audit log and the upgrade.
\<close>

section \<open>State\<close>

datatype Role = RoleAdmin | RoleOperator | RoleVerifier | RoleNone

definition GOVERNANCE_TIMELOCK_DELAY :: u64 where
  "GOVERNANCE_TIMELOCK_DELAY = UPGRADE_TIMELOCK_DELAY"

definition PROPOSAL_TTL_LEDGERS :: u64 where
  "PROPOSAL_TTL_LEDGERS = 120960"

text \<open>The key \<open>Paused\<close> is written in instance storage (\<open>ac_paused\<close>); one helper of the source
  reads it from persistent storage (\<open>ac_paused_persistent\<close>), a different slot.\<close>

record ac_state =
  ac_admin :: "Address option"
  ac_paused :: "bool option"
  ac_paused_persistent :: "bool option"
  ac_role :: "Address \<rightharpoonup> Role"
  ac_upgrade_proposal :: "(BytesN32 \<times> u64) option"
  ac_multisig :: "MultisigConfig option"
  ac_next_proposal_id :: "u64 option"
  ac_proposals :: "u64 \<rightharpoonup> Proposal"
  ac_param_proposals :: "u64 \<rightharpoonup> ParameterProposal"
  ac_next_param_proposal_id :: "u64 option"
  ac_parameters :: "ParameterKey \<rightharpoonup> u32"
  ac_audit :: audit_log
  ac_lock :: bool
  ac_code :: "BytesN32 option"
  ac_events :: "event list"

definition ac_empty :: ac_state where
  "ac_empty = \<lparr>ac_admin = None, ac_paused = None, ac_paused_persistent = None,
     ac_role = Map.empty, ac_upgrade_proposal = None, ac_multisig = None,
     ac_next_proposal_id = None, ac_proposals = Map.empty, ac_param_proposals = Map.empty,
     ac_next_param_proposal_id = None, ac_parameters = Map.empty, ac_audit = empty_log,
     ac_lock = False, ac_code = None, ac_events = []\<rparr>"

abbreviation ac_emit :: "event \<Rightarrow> ac_state \<Rightarrow> ac_state" where
  "ac_emit e s \<equiv> s\<lparr>ac_events := ac_events s @ [e]\<rparr>"

abbreviation ac_put_lock :: "bool \<Rightarrow> ac_state \<Rightarrow> ac_state" where
  "ac_put_lock b s \<equiv> s\<lparr>ac_lock := b\<rparr>"

section \<open>Helpers\<close>

definition ac_append_audit_entry :: "env \<Rightarrow> Address \<Rightarrow> AdminActionType \<Rightarrow> ac_state \<Rightarrow> ac_state res" where
  "ac_append_audit_entry env actor action s =
     andThen (audit_append AccessControl env actor action (ac_audit s)) (\<lambda>(entry, l).
     Ok (ac_emit (admin_action_audited env entry) (s\<lparr>ac_audit := l\<rparr>)))"

definition ac_get_audit_log :: "ac_state \<Rightarrow> u32 \<Rightarrow> u32 \<Rightarrow> AdminAuditEntry list res" where
  "ac_get_audit_log s page page_size = audit_page (ac_audit s) page page_size"

definition ac_read_paused :: "ac_state \<Rightarrow> bool" where
  "ac_read_paused s = unwrap_or (ac_paused_persistent s) False"

definition ac_require_admin :: "ac_state \<Rightarrow> Address \<Rightarrow> unit res" where
  "ac_require_admin s caller =
     andThen (ok_or (ac_admin s) NotInitialized) (\<lambda>admin.
     if admin \<noteq> caller then Err NotAdmin else Ok ())"

definition ac_load_multisig_config :: "ac_state \<Rightarrow> MultisigConfig res" where
  "ac_load_multisig_config s = ok_or (ac_multisig s) MultisigNotConfigured"

definition ac_require_signer :: "MultisigConfig \<Rightarrow> Address \<Rightarrow> unit res" where
  "ac_require_signer config caller =
     (if list_ex (\<lambda>a. a = caller) (ms_signers config) then Ok () else Err SignerNotFound)"

definition ac_require_valid_parameter :: "ParameterKey \<Rightarrow> u32 \<Rightarrow> unit res" where
  "ac_require_valid_parameter key value =
     (let ok = (case key of FeeBps \<Rightarrow> value \<le> 10000 | LatePenaltyBps \<Rightarrow> value \<le> 10000
                          | MaxRiskScore \<Rightarrow> value \<le> 100)
      in if ok then Ok () else Err InvalidParameterValue)"

section \<open>Initialisation and pause\<close>

definition ac_initialize :: "env \<Rightarrow> Address \<Rightarrow> ac_state \<Rightarrow> ac_state res" where
  "ac_initialize env admin s =
     (if ac_admin s \<noteq> None then Err AlreadyInitialized else
      andThen (require_not_self env admin) (\<lambda>_.
      Ok (s\<lparr>ac_admin := Some admin, ac_paused := Some False,
            ac_role := (ac_role s)(admin \<mapsto> RoleAdmin)\<rparr>)))"

definition pause :: "env \<Rightarrow> Address \<Rightarrow> ac_state \<Rightarrow> ac_state res" where
  "pause env admin s =
     andThen (require_auth env admin) (\<lambda>_.
     andThen (ac_require_admin s admin) (\<lambda>_.
     if unwrap_or (ac_paused s) False then Err AlreadyPaused else
     with_guard ac_lock ac_put_lock (\<lambda>s.
       let s = s\<lparr>ac_paused := Some True\<rparr>;
           s = ac_emit (protocol_paused env admin) s
       in ac_append_audit_entry env admin AdminActionType.Pause s) s))"

definition unpause :: "env \<Rightarrow> Address \<Rightarrow> ac_state \<Rightarrow> ac_state res" where
  "unpause env admin s =
     andThen (require_auth env admin) (\<lambda>_.
     andThen (ac_require_admin s admin) (\<lambda>_.
     if \<not> unwrap_or (ac_paused s) False then Err NotPaused else
     with_guard ac_lock ac_put_lock (\<lambda>s.
       let s = s\<lparr>ac_paused := Some False\<rparr>;
           s = ac_emit (protocol_unpaused env admin) s
       in ac_append_audit_entry env admin AdminActionType.Unpause s) s))"

section \<open>Roles and admin transfer\<close>

definition grant_role :: "env \<Rightarrow> Address \<Rightarrow> Address \<Rightarrow> Role \<Rightarrow> ac_state \<Rightarrow> ac_state res" where
  "grant_role env admin target role s =
     andThen (require_auth env admin) (\<lambda>_.
     andThen (ac_require_admin s admin) (\<lambda>_.
     if role = RoleAdmin then Err Unauthorized else
     if role = RoleNone then Err Unauthorized else
     if target = admin then Err Unauthorized else
     let s = s\<lparr>ac_role := (ac_role s)(target \<mapsto> role)\<rparr>;
         s = ac_emit (role_granted env admin target) s
     in ac_append_audit_entry env admin AdminActionType.GrantRole s))"

definition revoke_role :: "env \<Rightarrow> Address \<Rightarrow> Address \<Rightarrow> ac_state \<Rightarrow> ac_state res" where
  "revoke_role env admin target s =
     andThen (require_auth env admin) (\<lambda>_.
     andThen (ac_require_admin s admin) (\<lambda>_.
     let current_role = unwrap_or (ac_role s target) RoleNone in
     if current_role = RoleAdmin then Err Unauthorized else
     if current_role = RoleNone then Err RoleNotAssigned else
     let s = s\<lparr>ac_role := (ac_role s)(target := None)\<rparr>;
         s = ac_emit (role_revoked env admin target) s
     in ac_append_audit_entry env admin AdminActionType.RevokeRole s))"

definition ac_transfer_admin :: "env \<Rightarrow> Address \<Rightarrow> Address \<Rightarrow> ac_state \<Rightarrow> ac_state res" where
  "ac_transfer_admin env current_admin new_admin s =
     andThen (require_auth env current_admin) (\<lambda>_.
     andThen (ac_require_admin s current_admin) (\<lambda>_.
     if current_admin = new_admin then Err InvalidAddress else
     andThen (require_not_self env new_admin) (\<lambda>_.
     let existing = unwrap_or (ac_role s new_admin) RoleNone in
     if existing \<noteq> RoleNone \<and> existing \<noteq> RoleAdmin then Err Unauthorized else
     let s = s\<lparr>ac_admin := Some new_admin\<rparr>;
         s = s\<lparr>ac_role := (ac_role s)(new_admin \<mapsto> RoleAdmin)\<rparr>;
         s = s\<lparr>ac_role := (ac_role s)(current_admin := None)\<rparr>;
         s = ac_emit (admin_transferred env current_admin new_admin) s
     in ac_append_audit_entry env current_admin AdminActionType.TransferAdmin s)))"

section \<open>Multisig\<close>

definition configure_multisig ::
    "env \<Rightarrow> Address \<Rightarrow> Address list \<Rightarrow> u32 \<Rightarrow> ac_state \<Rightarrow> ac_state res" where
  "configure_multisig env admin signers threshold s =
     andThen (require_auth env admin) (\<lambda>_.
     andThen (ac_require_admin s admin) (\<lambda>_.
     let signer_count = length signers in
     if threshold = 0 \<or> threshold > signer_count then Err InvalidThreshold else
     let config = \<lparr>ms_threshold = threshold, ms_signers = signers\<rparr>;
         s = s\<lparr>ac_multisig := Some config\<rparr>;
         s = (if ac_next_proposal_id s = None then s\<lparr>ac_next_proposal_id := Some 1\<rparr> else s);
         s = ac_emit (multisig_configured env threshold signer_count) s
     in ac_append_audit_entry env admin ConfigureMultisig s))"

definition propose_action :: "env \<Rightarrow> Address \<Rightarrow> AdminAction \<Rightarrow> ac_state \<Rightarrow> (u64 \<times> ac_state) res" where
  "propose_action env proposer action s =
     andThen (require_auth env proposer) (\<lambda>_.
     andThen (ac_load_multisig_config s) (\<lambda>config.
     andThen (ac_require_signer config proposer) (\<lambda>_.
     let proposal_id = unwrap_or (ac_next_proposal_id s) 1 in
     andThen (add_u64 (timestamp env) PROPOSAL_TTL_LEDGERS) (\<lambda>expires_at.
     let proposal = \<lparr>prop_id = proposal_id, prop_action = action, prop_proposer = proposer,
           prop_approvals = [proposer], prop_executed = False,
           prop_created_at = timestamp env, prop_expires_at = expires_at\<rparr>;
         s = s\<lparr>ac_proposals := (ac_proposals s)(proposal_id \<mapsto> proposal)\<rparr>
     in andThen (ok_or (checked_add_u64 proposal_id 1) ArithmeticOverflow) (\<lambda>next.
     let s = s\<lparr>ac_next_proposal_id := Some next\<rparr>;
         s = ac_emit (action_proposed env proposal_id proposer) s
     in Ok (proposal_id, s))))))"

definition approve_action :: "env \<Rightarrow> Address \<Rightarrow> u64 \<Rightarrow> ac_state \<Rightarrow> ac_state res" where
  "approve_action env approver proposal_id s =
     andThen (require_auth env approver) (\<lambda>_.
     andThen (ac_load_multisig_config s) (\<lambda>config.
     andThen (ac_require_signer config approver) (\<lambda>_.
     andThen (ok_or (ac_proposals s proposal_id) ProposalNotFound) (\<lambda>proposal.
     if prop_executed proposal then Err ProposalAlreadyExecuted else
     if timestamp env > prop_expires_at proposal then Err ProposalExpired else
     if list_ex (\<lambda>a. a = approver) (prop_approvals proposal) then Err AlreadyApproved else
     let proposal = proposal\<lparr>prop_approvals := prop_approvals proposal @ [approver]\<rparr>;
         s = s\<lparr>ac_proposals := (ac_proposals s)(proposal_id \<mapsto> proposal)\<rparr>;
         s = ac_emit (action_approved env proposal_id approver (length (prop_approvals proposal))) s
     in Ok s))))"

definition apply_admin_action :: "env \<Rightarrow> Address \<Rightarrow> AdminAction \<Rightarrow> ac_state \<Rightarrow> ac_state res" where
  "apply_admin_action env executor action s =
     (case action of
        AdminAction.Pause \<Rightarrow>
          Ok (ac_emit (protocol_paused env executor) (s\<lparr>ac_paused := Some True\<rparr>))
      | AdminAction.Unpause \<Rightarrow>
          Ok (ac_emit (protocol_unpaused env executor) (s\<lparr>ac_paused := Some False\<rparr>))
      | AdminAction.GrantRole target role_val \<Rightarrow>
          andThen (if role_val = 1 then Ok RoleOperator else if role_val = 2 then Ok RoleVerifier
                   else Err Unauthorized) (\<lambda>role.
          Ok (ac_emit (role_granted env executor target) (s\<lparr>ac_role := (ac_role s)(target \<mapsto> role)\<rparr>)))
      | AdminAction.RevokeRole target \<Rightarrow>
          Ok (ac_emit (role_revoked env executor target) (s\<lparr>ac_role := (ac_role s)(target := None)\<rparr>))
      | AdminAction.TransferAdmin new_admin \<Rightarrow>
          Ok (ac_emit (admin_transferred env executor new_admin)
                (s\<lparr>ac_admin := Some new_admin, ac_role := (ac_role s)(new_admin \<mapsto> RoleAdmin)\<rparr>)))"

definition execute_action :: "env \<Rightarrow> Address \<Rightarrow> u64 \<Rightarrow> ac_state \<Rightarrow> ac_state res" where
  "execute_action env executor proposal_id s =
     andThen (require_auth env executor) (\<lambda>_.
     andThen (ac_load_multisig_config s) (\<lambda>config.
     andThen (ac_require_signer config executor) (\<lambda>_.
     andThen (ok_or (ac_proposals s proposal_id) ProposalNotFound) (\<lambda>proposal.
     if prop_executed proposal then Err ProposalAlreadyExecuted else
     if timestamp env > prop_expires_at proposal then Err ProposalExpired else
     if length (prop_approvals proposal) < ms_threshold config then Err ThresholdNotMet else
     let proposal = proposal\<lparr>prop_executed := True\<rparr>;
         s = s\<lparr>ac_proposals := (ac_proposals s)(proposal_id \<mapsto> proposal)\<rparr>
     in andThen (apply_admin_action env executor (prop_action proposal) s) (\<lambda>s.
     let s = ac_emit (action_executed env proposal_id executor) s
     in ac_append_audit_entry env executor MultisigExecuteAction s)))))"

definition get_proposal :: "ac_state \<Rightarrow> u64 \<Rightarrow> Proposal res" where
  "get_proposal s proposal_id = ok_or (ac_proposals s proposal_id) ProposalNotFound"

definition get_multisig_config :: "ac_state \<Rightarrow> MultisigConfig res" where
  "get_multisig_config s = ac_load_multisig_config s"

section \<open>Parameter governance\<close>

definition propose_parameter_change ::
    "env \<Rightarrow> Address \<Rightarrow> ParameterKey \<Rightarrow> u32 \<Rightarrow> ac_state \<Rightarrow> (u64 \<times> ac_state) res" where
  "propose_parameter_change env proposer key new_value s =
     andThen (require_auth env proposer) (\<lambda>_.
     andThen (ac_load_multisig_config s) (\<lambda>config.
     andThen (ac_require_signer config proposer) (\<lambda>_.
     andThen (ac_require_valid_parameter key new_value) (\<lambda>_.
     let proposal_id = unwrap_or (ac_next_param_proposal_id s) 1;
         proposal = \<lparr>pp_id = proposal_id, pp_key = key, pp_new_value = new_value,
           pp_proposer = proposer, pp_approvals = [proposer],
           pp_created_at = timestamp env, pp_executed = False\<rparr>;
         s = s\<lparr>ac_param_proposals := (ac_param_proposals s)(proposal_id \<mapsto> proposal)\<rparr>
     in andThen (ok_or (checked_add_u64 proposal_id 1) ArithmeticOverflow) (\<lambda>next.
     let s = s\<lparr>ac_next_param_proposal_id := Some next\<rparr>;
         s = ac_emit (action_proposed env proposal_id proposer) s
     in andThen (ac_append_audit_entry env proposer ProposeParameter s) (\<lambda>s.
     Ok (proposal_id, s)))))))"

definition vote_parameter_change :: "env \<Rightarrow> Address \<Rightarrow> u64 \<Rightarrow> ac_state \<Rightarrow> ac_state res" where
  "vote_parameter_change env signer proposal_id s =
     andThen (require_auth env signer) (\<lambda>_.
     andThen (ac_load_multisig_config s) (\<lambda>config.
     andThen (ac_require_signer config signer) (\<lambda>_.
     andThen (ok_or (ac_param_proposals s proposal_id) ParameterProposalNotFound) (\<lambda>proposal.
     if pp_executed proposal then Err ParameterProposalExecuted else
     if list_ex (\<lambda>a. a = signer) (pp_approvals proposal) then Err AlreadyVoted else
     let proposal = proposal\<lparr>pp_approvals := pp_approvals proposal @ [signer]\<rparr>;
         count = length (pp_approvals proposal);
         s = s\<lparr>ac_param_proposals := (ac_param_proposals s)(proposal_id \<mapsto> proposal)\<rparr>;
         s = ac_emit (action_approved env proposal_id signer count) s
     in Ok s))))"

definition execute_parameter_change :: "env \<Rightarrow> Address \<Rightarrow> u64 \<Rightarrow> ac_state \<Rightarrow> ac_state res" where
  "execute_parameter_change env caller proposal_id s =
     andThen (require_auth env caller) (\<lambda>_.
     andThen (ac_load_multisig_config s) (\<lambda>config.
     andThen (ac_require_signer config caller) (\<lambda>_.
     andThen (ok_or (ac_param_proposals s proposal_id) ParameterProposalNotFound) (\<lambda>proposal.
     if pp_executed proposal then Err ParameterProposalExecuted else
     if length (pp_approvals proposal) < ms_threshold config then Err GovernanceThresholdNotMet else
     andThen (add_u64 (pp_created_at proposal) GOVERNANCE_TIMELOCK_DELAY) (\<lambda>ready.
     if timestamp env < ready then Err GovernanceTimelockNotElapsed else
     let proposal = proposal\<lparr>pp_executed := True\<rparr>;
         s = s\<lparr>ac_param_proposals := (ac_param_proposals s)(proposal_id \<mapsto> proposal)\<rparr>;
         s = s\<lparr>ac_parameters := (ac_parameters s)(pp_key proposal \<mapsto> pp_new_value proposal)\<rparr>;
         s = ac_emit (action_executed env proposal_id caller) s
     in ac_append_audit_entry env caller ExecuteParameter s)))))"

definition get_parameter :: "ac_state \<Rightarrow> ParameterKey \<Rightarrow> u32 option" where
  "get_parameter s key = ac_parameters s key"

definition get_parameter_proposal :: "ac_state \<Rightarrow> u64 \<Rightarrow> ParameterProposal res" where
  "get_parameter_proposal s proposal_id =
     ok_or (ac_param_proposals s proposal_id) ParameterProposalNotFound"

section \<open>Views\<close>

definition is_paused :: "ac_state \<Rightarrow> bool" where
  "is_paused s = unwrap_or (ac_paused s) False"

definition get_role :: "ac_state \<Rightarrow> Address \<Rightarrow> Role" where
  "get_role s address = unwrap_or (ac_role s address) RoleNone"

definition has_role :: "ac_state \<Rightarrow> Address \<Rightarrow> Role \<Rightarrow> bool" where
  "has_role s address role \<longleftrightarrow> unwrap_or (ac_role s address) RoleNone = role"

definition ac_get_admin :: "ac_state \<Rightarrow> Address res" where
  "ac_get_admin s = ok_or (ac_admin s) NotInitialized"

section \<open>Upgrade\<close>

definition ac_propose_upgrade :: "env \<Rightarrow> Address \<Rightarrow> BytesN32 \<Rightarrow> ac_state \<Rightarrow> ac_state res" where
  "ac_propose_upgrade env admin new_wasm_hash s =
     andThen (require_auth env admin) (\<lambda>_.
     andThen (ac_require_admin s admin) (\<lambda>_.
     let s = s\<lparr>ac_upgrade_proposal := Some (new_wasm_hash, timestamp env)\<rparr>;
         s = ac_emit (upgrade_proposed env admin new_wasm_hash) s
     in ac_append_audit_entry env admin ProposeUpgrade s))"

definition ac_execute_upgrade :: "env \<Rightarrow> Address \<Rightarrow> ac_state \<Rightarrow> ac_state res" where
  "ac_execute_upgrade env admin s =
     andThen (require_auth env admin) (\<lambda>_.
     andThen (ac_require_admin s admin) (\<lambda>_.
     andThen (ok_or (ac_upgrade_proposal s) NoUpgradeProposed) (\<lambda>(wasm_hash, proposed_at).
     andThen (timelock_elapsed env proposed_at UpgradeTimelockNotElapsed) (\<lambda>_.
     let s = s\<lparr>ac_upgrade_proposal := None\<rparr>;
         s = ac_emit (upgrade_executed env admin wasm_hash) s
     in andThen (ac_append_audit_entry env admin ExecuteUpgrade s) (\<lambda>s.
     Ok (s\<lparr>ac_code := Some wasm_hash\<rparr>))))))"

section \<open>Entry points as steps\<close>

lemmas ac_op_defs =
  ac_initialize_def pause_def unpause_def grant_role_def revoke_role_def ac_transfer_admin_def
  configure_multisig_def propose_action_def approve_action_def execute_action_def
  propose_parameter_change_def vote_parameter_change_def execute_parameter_change_def
  ac_propose_upgrade_def ac_execute_upgrade_def

inductive ac_step :: "ac_state \<Rightarrow> ac_state \<Rightarrow> bool" where
  "ac_initialize env a s = Ok s' \<Longrightarrow> ac_step s s'"
| "pause env a s = Ok s' \<Longrightarrow> ac_step s s'"
| "unpause env a s = Ok s' \<Longrightarrow> ac_step s s'"
| "grant_role env a target r s = Ok s' \<Longrightarrow> ac_step s s'"
| "revoke_role env a target s = Ok s' \<Longrightarrow> ac_step s s'"
| "ac_transfer_admin env a b s = Ok s' \<Longrightarrow> ac_step s s'"
| "configure_multisig env a signers n s = Ok s' \<Longrightarrow> ac_step s s'"
| "propose_action env a act s = Ok (i, s') \<Longrightarrow> ac_step s s'"
| "approve_action env a i s = Ok s' \<Longrightarrow> ac_step s s'"
| "execute_action env a i s = Ok s' \<Longrightarrow> ac_step s s'"
| "propose_parameter_change env a k v s = Ok (i, s') \<Longrightarrow> ac_step s s'"
| "vote_parameter_change env a i s = Ok s' \<Longrightarrow> ac_step s s'"
| "execute_parameter_change env a i s = Ok s' \<Longrightarrow> ac_step s s'"
| "ac_propose_upgrade env a h s = Ok s' \<Longrightarrow> ac_step s s'"
| "ac_execute_upgrade env a s = Ok s' \<Longrightarrow> ac_step s s'"

inductive ac_reachable :: "ac_state \<Rightarrow> bool" where
  ac_start: "ac_reachable ac_empty"
| ac_next: "ac_reachable s \<Longrightarrow> ac_step s s' \<Longrightarrow> ac_reachable s'"

lemma ac_require_admin_eq_Ok [simp, res_simps]:
  "ac_require_admin s a = Ok u \<longleftrightarrow> ac_admin s = Some a"
  by (auto simp: ac_require_admin_def)

lemma ac_require_signer_eq_Ok [simp, res_simps]:
  "ac_require_signer c a = Ok u \<longleftrightarrow> a \<in> set (ms_signers c)"
  by (auto simp: ac_require_signer_def list_ex_iff)

lemma ac_load_multisig_config_eq_Ok [simp, res_simps]:
  "ac_load_multisig_config s = Ok c \<longleftrightarrow> ac_multisig s = Some c"
  by (simp add: ac_load_multisig_config_def)

lemma ac_append_eq_Ok:
  "ac_append_audit_entry env a act s = Ok s' \<longleftrightarrow>
     (\<exists>e l. audit_append AccessControl env a act (ac_audit s) = Ok (e, l) \<and>
            s' = ac_emit (admin_action_audited env e) (s\<lparr>ac_audit := l\<rparr>))"
  by (auto simp: ac_append_audit_entry_def)

text \<open>What an action of the multisig may change: the pause flag, the roles and the admin.\<close>

lemma apply_admin_action_frame:
  assumes "apply_admin_action env x act s = Ok s'"
  shows "ac_paused_persistent s' = ac_paused_persistent s"
    "ac_upgrade_proposal s' = ac_upgrade_proposal s" "ac_multisig s' = ac_multisig s"
    "ac_next_proposal_id s' = ac_next_proposal_id s" "ac_proposals s' = ac_proposals s"
    "ac_param_proposals s' = ac_param_proposals s"
    "ac_next_param_proposal_id s' = ac_next_param_proposal_id s"
    "ac_parameters s' = ac_parameters s" "ac_audit s' = ac_audit s" "ac_lock s' = ac_lock s"
    "ac_code s' = ac_code s"
  using assms by (cases act; auto simp: apply_admin_action_def)+

section \<open>Interfaces\<close>

interpretation ac_guard: lock_cell ac_lock ac_put_lock
  by unfold_locales simp_all

interpretation ac_log: audited ac_audit ac_append_audit_entry ac_get_audit_log AccessControl
  by unfold_locales (auto simp: ac_append_eq_Ok ac_get_audit_log_def)

interpretation ac_upgrade: timelocked_upgrade ac_admin ac_upgrade_proposal ac_code
    ac_propose_upgrade ac_execute_upgrade
  by unfold_locales
    (auto simp: ac_propose_upgrade_def ac_execute_upgrade_def ac_append_eq_Ok Let_def)

section \<open>Invariants of the reachable states\<close>

text \<open>
  The lock is free between invocations and the persistent pause slot is never written; the audit
  log represents some history; a configured threshold lies between one and the number of
  signers; proposal ids lie below their counters, and no approver counts twice; a proposed or
  committed parameter value lies in its range.
\<close>

definition ac_idle :: "ac_state \<Rightarrow> bool" where
  "ac_idle s \<longleftrightarrow> \<not> ac_lock s \<and> ac_paused_persistent s = None"

definition ac_logged :: "ac_state \<Rightarrow> bool" where
  "ac_logged s \<longleftrightarrow> (\<exists>h. audit_repr h (ac_audit s))"

definition ac_multisig_ok :: "ac_state \<Rightarrow> bool" where
  "ac_multisig_ok s \<longleftrightarrow>
     (\<forall>c. ac_multisig s = Some c \<longrightarrow> 1 \<le> ms_threshold c \<and> ms_threshold c \<le> length (ms_signers c))"

definition ac_proposals_ok :: "ac_state \<Rightarrow> bool" where
  "ac_proposals_ok s \<longleftrightarrow>
     (\<forall>i p. ac_proposals s i = Some p \<longrightarrow>
        i < unwrap_or (ac_next_proposal_id s) 1 \<and> distinct (prop_approvals p))"

definition ac_params_ok :: "ac_state \<Rightarrow> bool" where
  "ac_params_ok s \<longleftrightarrow>
     (\<forall>i p. ac_param_proposals s i = Some p \<longrightarrow>
        i < unwrap_or (ac_next_param_proposal_id s) 1 \<and> distinct (pp_approvals p) \<and>
        ac_require_valid_parameter (pp_key p) (pp_new_value p) = Ok ()) \<and>
     (\<forall>k v. ac_parameters s k = Some v \<longrightarrow> ac_require_valid_parameter k v = Ok ())"

lemmas ac_inv_defs =
  ac_idle_def ac_logged_def ac_multisig_ok_def ac_proposals_ok_def ac_params_ok_def

lemma ac_step_idle: "ac_step s s' \<Longrightarrow> ac_idle s \<Longrightarrow> ac_idle s'"
  by (induction rule: ac_step.induct)
    (auto simp: ac_idle_def ac_op_defs Let_def ac_append_eq_Ok with_guard_eq_Ok
      dest: apply_admin_action_frame split: if_splits)

lemma ac_step_logged: "ac_step s s' \<Longrightarrow> ac_logged s \<Longrightarrow> ac_logged s'"
  by (induction rule: ac_step.induct)
    (auto simp: ac_logged_def ac_op_defs Let_def ac_append_eq_Ok with_guard_eq_Ok
      apply_admin_action_frame(9) split: if_splits dest: audit_append_history)

lemma ac_step_multisig_ok: "ac_step s s' \<Longrightarrow> ac_multisig_ok s \<Longrightarrow> ac_multisig_ok s'"
  by (induction rule: ac_step.induct)
    (auto simp: ac_multisig_ok_def ac_op_defs Let_def ac_append_eq_Ok with_guard_eq_Ok
      apply_admin_action_frame(3) split: if_splits)

lemma ac_step_proposals_ok: "ac_step s s' \<Longrightarrow> ac_proposals_ok s \<Longrightarrow> ac_proposals_ok s'"
  by (induction rule: ac_step.induct)
    (auto simp: ac_proposals_ok_def ac_op_defs Let_def ac_append_eq_Ok with_guard_eq_Ok
      apply_admin_action_frame(4,5) list_ex_iff less_Suc_eq split: if_splits)

lemma ac_step_params_ok: "ac_step s s' \<Longrightarrow> ac_params_ok s \<Longrightarrow> ac_params_ok s'"
  by (induction rule: ac_step.induct)
    (auto simp: ac_params_ok_def ac_op_defs Let_def ac_append_eq_Ok with_guard_eq_Ok
      apply_admin_action_frame(6,7,8) list_ex_iff less_Suc_eq split: if_splits)

definition ac_inv :: "ac_state \<Rightarrow> bool" where
  "ac_inv s \<longleftrightarrow> ac_idle s \<and> ac_logged s \<and> ac_multisig_ok s \<and> ac_proposals_ok s \<and> ac_params_ok s"

lemma ac_step_inv: "ac_step s s' \<Longrightarrow> ac_inv s \<Longrightarrow> ac_inv s'"
  by (simp add: ac_inv_def ac_step_idle ac_step_logged ac_step_multisig_ok ac_step_proposals_ok
      ac_step_params_ok)

lemma ac_empty_inv: "ac_inv ac_empty"
  using audit_repr_empty by (auto simp: ac_inv_def ac_inv_defs ac_empty_def)

lemma ac_reachable_inv: "ac_reachable s \<Longrightarrow> ac_inv s"
  by (induction rule: ac_reachable.induct) (auto intro: ac_empty_inv ac_step_inv)

section \<open>Proposals over time\<close>

text \<open>A new proposal takes a fresh id, and a proposal that was executed stays executed.\<close>

lemma ac_fresh_proposal:
  "ac_proposals_ok s \<Longrightarrow> ac_proposals s (unwrap_or (ac_next_proposal_id s) (Suc 0)) = None"
  by (rule ccontr) (auto simp: ac_proposals_ok_def)

lemma ac_fresh_param_proposal:
  "ac_params_ok s \<Longrightarrow> ac_param_proposals s (unwrap_or (ac_next_param_proposal_id s) (Suc 0)) = None"
  by (rule ccontr) (auto simp: ac_params_ok_def)

lemma ac_step_executed:
  "ac_step s s' \<Longrightarrow> ac_proposals_ok s \<Longrightarrow> ac_proposals s i = Some p \<Longrightarrow> prop_executed p \<Longrightarrow>
     \<exists>p'. ac_proposals s' i = Some p' \<and> prop_executed p'"
  by (induction rule: ac_step.induct)
    (auto simp: ac_op_defs Let_def ac_append_eq_Ok with_guard_eq_Ok ac_fresh_proposal
      apply_admin_action_frame(5) split: if_splits)

lemma ac_step_param_executed:
  "ac_step s s' \<Longrightarrow> ac_params_ok s \<Longrightarrow> ac_param_proposals s i = Some p \<Longrightarrow> pp_executed p \<Longrightarrow>
     \<exists>p'. ac_param_proposals s' i = Some p' \<and> pp_executed p'"
  by (induction rule: ac_step.induct)
    (auto simp: ac_op_defs Let_def ac_append_eq_Ok with_guard_eq_Ok ac_fresh_param_proposal
      apply_admin_action_frame(6) split: if_splits)

lemma ac_run_executed:
  assumes "ac_step\<^sup>*\<^sup>* s s'" "ac_inv s" "ac_proposals s i = Some p" "prop_executed p"
  shows "\<exists>p'. ac_proposals s' i = Some p' \<and> prop_executed p' \<and> ac_inv s'"
  using assms
proof (induction rule: rtranclp_induct)
  case base
  then show ?case by blast
next
  case (step t t')
  then show ?case
    by (metis ac_inv_def ac_step_executed ac_step_inv)
qed

lemma ac_run_param_executed:
  assumes "ac_step\<^sup>*\<^sup>* s s'" "ac_inv s" "ac_param_proposals s i = Some p" "pp_executed p"
  shows "\<exists>p'. ac_param_proposals s' i = Some p' \<and> pp_executed p' \<and> ac_inv s'"
  using assms
proof (induction rule: rtranclp_induct)
  case base
  then show ?case by blast
next
  case (step t t')
  then show ?case
    by (metis ac_inv_def ac_step_param_executed ac_step_inv)
qed

lemma execute_action_marks:
  "execute_action env e i s = Ok s' \<Longrightarrow>
     \<exists>p. ac_proposals s' i = Some p \<and> prop_executed p"
  by (auto simp: execute_action_def Let_def ac_append_eq_Ok apply_admin_action_frame(5)
      split: if_splits)

lemma execute_parameter_change_marks:
  "execute_parameter_change env e i s = Ok s' \<Longrightarrow>
     \<exists>p. ac_param_proposals s' i = Some p \<and> pp_executed p"
  by (auto simp: execute_parameter_change_def Let_def ac_append_eq_Ok split: if_splits)

lemma execute_action_refused:
  "ac_proposals s i = Some p \<Longrightarrow> prop_executed p \<Longrightarrow> execute_action env e i s \<noteq> Ok s'"
  by (auto simp: execute_action_def)

lemma execute_parameter_change_refused:
  "ac_param_proposals s i = Some p \<Longrightarrow> pp_executed p \<Longrightarrow>
     execute_parameter_change env e i s \<noteq> Ok s'"
  by (auto simp: execute_parameter_change_def)

lemma ac_step_parameters:
  "ac_step s s' \<Longrightarrow> ac_parameters s' = ac_parameters s \<or>
     (\<exists>env x i. execute_parameter_change env x i s = Ok s')"
proof (induction rule: ac_step.induct)
  case (13 env a i s s')
  then show ?case by blast
qed (auto simp: ac_op_defs Let_def ac_append_eq_Ok with_guard_eq_Ok apply_admin_action_frame(8)
    split: if_splits)

section \<open>The pause switch\<close>

lemma pause_effect:
  assumes "pause env a s = Ok s'" "audit_repr h (ac_audit s)"
  shows "is_paused s'" "ac_admin s' = ac_admin s" "ac_role s' = ac_role s" "\<not> ac_lock s'"
    "audit_repr (h @ [audit_entry AccessControl env a AdminActionType.Pause (length h)]) (ac_audit s')"
  using assms audit_append_repr [OF assms(2)]
  by (auto simp: pause_def Let_def with_guard_eq_Ok ac_append_eq_Ok is_paused_def
      dest!: audit_append_repr [rotated])

lemma pause_when_paused:
  "ac_admin s = Some a \<Longrightarrow> authorised env a \<Longrightarrow> is_paused s \<Longrightarrow> pause env a s = Err AlreadyPaused"
  by (simp add: pause_def is_paused_def ac_require_admin_def require_auth_def)

lemma pause_succeeds:
  assumes "ac_admin s = Some a" "authorised env a" "\<not> is_paused s" "\<not> ac_lock s"
    "audit_repr h (ac_audit s)" "length h < U64_MAX"
  shows "\<exists>s'. pause env a s = Ok s'"
proof -
  let ?s = "ac_emit (protocol_paused env a) (ac_put_lock True s\<lparr>ac_paused := Some True\<rparr>)"
  from ac_log.append_succeeds [of h ?s env a AdminActionType.Pause] assms(5,6)
  obtain s' where "ac_append_audit_entry env a AdminActionType.Pause ?s = Ok s'" by auto
  with assms show ?thesis
    by (auto simp: pause_def with_guard_eq_Ok is_paused_def Let_def)
qed

lemma unpause_succeeds:
  assumes "ac_admin s = Some a" "authorised env a" "is_paused s" "\<not> ac_lock s"
    "audit_repr h (ac_audit s)" "length h < U64_MAX"
  shows "\<exists>s'. unpause env a s = Ok s' \<and> \<not> is_paused s'"
proof -
  let ?s = "ac_emit (protocol_unpaused env a) (ac_put_lock True s\<lparr>ac_paused := Some False\<rparr>)"
  from ac_log.append_succeeds [of h ?s env a AdminActionType.Unpause] assms(5,6)
  obtain s' where "ac_append_audit_entry env a AdminActionType.Unpause ?s = Ok s'" by auto
  with assms show ?thesis
    by (auto simp: unpause_def with_guard_eq_Ok is_paused_def Let_def ac_append_eq_Ok)
qed

section \<open>Properties\<close>

text \<open>
  A run of the contract: three signers with a threshold of two, a proposal to pause approved by
  two of them, and a parameter change proposed and voted.
\<close>

definition ac_demo :: "ac_state res" where
  "ac_demo =
     andThen (ac_initialize (open_env 100 10) 1 ac_empty) (\<lambda>s.
     andThen (configure_multisig (open_env 100 20) 1 [1, 2, 3] 2 s) (\<lambda>s.
     andThen (propose_action (open_env 100 30) 1 AdminAction.Pause s) (\<lambda>(_, s).
     andThen (propose_parameter_change (open_env 100 40) 2 FeeBps 75 s) (\<lambda>(_, s).
     andThen (vote_parameter_change (open_env 100 50) 3 1 s) (\<lambda>s.
     approve_action (open_env 100 60) 2 1 s)))))"

lemmas ac_eval =
  ac_demo_def ac_op_defs ac_append_audit_entry_def ac_require_admin_def ac_require_signer_def
  ac_load_multisig_config_def ac_require_valid_parameter_def apply_admin_action_def ac_empty_def
  audit_append_def empty_log_def Let_def add_u64_def checked_add_u64_def U64_MAX_def
  get_parameter_def is_paused_def require_not_self_def PROPOSAL_TTL_LEDGERS_def GOVERNANCE_TIMELOCK_DELAY_def
  UPGRADE_TIMELOCK_DELAY_def MAX_AUDIT_LOG_SIZE_def with_guard_def acquire_guard_def

lemma ac_demo_reachable: "ac_demo = Ok s \<Longrightarrow> ac_reachable s"
  by (clarsimp simp: ac_demo_def) (meson ac_start ac_next ac_step.intros)

lemma ac_demo_executes: "\<exists>s'. andThen ac_demo (execute_action (open_env 100 70) 3 1) = Ok s'"
  by (simp add: ac_eval cong: andThen_weak_cong del: andThen_eq_Ok)

lemma ac_demo_governs:
  "\<exists>s s'. ac_demo = Ok s \<and> execute_parameter_change (open_env 100 86440) 3 1 s = Ok s' \<and>
     get_parameter s' FeeBps = Some 75 \<and> get_parameter s FeeBps = None"
  by (simp add: ac_eval cong: andThen_weak_cong del: andThen_eq_Ok)

lemma ac_demo_state:
  "\<exists>s. ac_demo = Ok s \<and> ac_admin s = Some 1 \<and> \<not> is_paused s \<and>
     unwrap_or (log_total (ac_audit s)) 0 + 1 < U64_MAX"
  by (simp add: ac_eval cong: andThen_weak_cong del: andThen_eq_Ok)

text \<open>
  C6: a multisig action is executed only on the request of a current signer who authorised the
  call, before the proposal expires, when it has not been executed, and when at least the
  configured number of \<^emph>\<open>different\<close> addresses approved it (and at least one did); the proposal is
  then marked as executed.
\<close>

theorem multisig_execution_needs_quorum:
  assumes "ac_reachable s" "execute_action env x i s = Ok s'"
  shows "\<exists>c p. ac_multisig s = Some c \<and> ac_proposals s i = Some p \<and>
    authorised env x \<and> x \<in> set (ms_signers c) \<and>
    1 \<le> ms_threshold c \<and> ms_threshold c \<le> card (set (prop_approvals p)) \<and>
    \<not> prop_executed p \<and> timestamp env \<le> prop_expires_at p \<and>
    ac_proposals s' i = Some (p\<lparr>prop_executed := True\<rparr>)"
proof -
  from ac_reachable_inv [OF assms(1)] have inv: "ac_multisig_ok s" "ac_proposals_ok s"
    by (simp_all add: ac_inv_def)
  from assms(2) inv show ?thesis
    by (auto simp: execute_action_def Let_def ac_append_eq_Ok apply_admin_action_frame(5)
        ac_multisig_ok_def ac_proposals_ok_def distinct_card)
qed

theorem multisig_execution_needs_quorum_witness:
  "\<exists>s s'. ac_reachable s \<and> execute_action (open_env 100 70) 3 1 s = Ok s' \<and>
     (\<exists>c p. ac_multisig s = Some c \<and> ac_proposals s 1 = Some p \<and>
        ms_threshold c \<le> card (set (prop_approvals p)))"
proof -
  obtain s s' where s: "ac_demo = Ok s" "execute_action (open_env 100 70) 3 1 s = Ok s'"
    using ac_demo_executes by auto
  from multisig_execution_needs_quorum [OF ac_demo_reachable [OF s(1)] s(2)]
    ac_demo_reachable [OF s(1)] s(2) show ?thesis by blast
qed

text \<open>
  C21: an action or a parameter change that was executed can never be executed again, whatever
  the contract goes through in between.
\<close>

theorem proposals_execute_once:
  assumes "ac_reachable s" "ac_step\<^sup>*\<^sup>* s' t"
  shows "(execute_action env x i s = Ok s' \<longrightarrow> execute_action env' y i t \<noteq> Ok t') \<and>
    (execute_parameter_change env x i s = Ok s' \<longrightarrow> execute_parameter_change env' y i t \<noteq> Ok t')"
proof (intro conjI impI)
  assume e: "execute_action env x i s = Ok s'"
  then have "ac_inv s'"
    using ac_step.intros(10) ac_step_inv ac_reachable_inv [OF assms(1)] by blast
  with execute_action_marks [OF e] ac_run_executed [OF assms(2)] show "execute_action env' y i t \<noteq> Ok t'"
    using execute_action_refused by blast
next
  assume e: "execute_parameter_change env x i s = Ok s'"
  then have "ac_inv s'"
    using ac_step.intros(13) ac_step_inv ac_reachable_inv [OF assms(1)] by blast
  with execute_parameter_change_marks [OF e] ac_run_param_executed [OF assms(2)]
  show "execute_parameter_change env' y i t \<noteq> Ok t'"
    using execute_parameter_change_refused by blast
qed

theorem proposals_execute_once_witness:
  "\<exists>s s'. execute_action (open_env 100 70) 3 1 s = Ok s' \<and>
     (\<forall>s''. execute_action (open_env 100 80) 2 1 s' \<noteq> Ok s'')"
proof -
  obtain s s' where s: "ac_demo = Ok s" "execute_action (open_env 100 70) 3 1 s = Ok s'"
    using ac_demo_executes by auto
  have "execute_action (open_env 100 80) 2 1 s' \<noteq> Ok s''" for s''
    using proposals_execute_once [OF ac_demo_reachable [OF s(1)], of s' s' "open_env 100 70" 3 1]
      s(2) by blast
  with s(2) show ?thesis by blast
qed

text \<open>
  C22: a protocol parameter changes only by \<open>execute_parameter_change\<close>: on the request of a signer,
  for a proposal that was not executed yet, that at least the threshold of different addresses
  approved, that is at least \<open>GOVERNANCE_TIMELOCK_DELAY\<close> seconds old, and whose value passed the
  range check; the parameter then holds the proposed value.
\<close>

theorem parameters_change_by_governance:
  assumes "ac_reachable s" "ac_step s s'" "get_parameter s' k \<noteq> get_parameter s k"
  shows "\<exists>env x i c p. execute_parameter_change env x i s = Ok s' \<and>
    ac_multisig s = Some c \<and> x \<in> set (ms_signers c) \<and> authorised env x \<and>
    ac_param_proposals s i = Some p \<and> \<not> pp_executed p \<and>
    ms_threshold c \<le> card (set (pp_approvals p)) \<and> 1 \<le> ms_threshold c \<and>
    pp_created_at p + GOVERNANCE_TIMELOCK_DELAY \<le> timestamp env \<and>
    pp_key p = k \<and> get_parameter s' k = Some (pp_new_value p) \<and>
    ac_require_valid_parameter k (pp_new_value p) = Ok ()"
proof -
  obtain env x i where e: "execute_parameter_change env x i s = Ok s'"
    using ac_step_parameters [OF assms(2)] assms(3) by (auto simp: get_parameter_def)
  from ac_reachable_inv [OF assms(1)] have inv: "ac_multisig_ok s" "ac_params_ok s"
    by (simp_all add: ac_inv_def)
  from e obtain c p where p: "ac_multisig s = Some c" "x \<in> set (ms_signers c)" "authorised env x"
      "ac_param_proposals s i = Some p" "\<not> pp_executed p"
      "ms_threshold c \<le> length (pp_approvals p)"
      "pp_created_at p + GOVERNANCE_TIMELOCK_DELAY \<le> timestamp env"
      "ac_parameters s' = (ac_parameters s)(pp_key p \<mapsto> pp_new_value p)"
    by (auto simp: execute_parameter_change_def Let_def ac_append_eq_Ok)
  moreover from p inv have "1 \<le> ms_threshold c" "distinct (pp_approvals p)"
      "ac_require_valid_parameter (pp_key p) (pp_new_value p) = Ok ()"
    by (auto simp: ac_multisig_ok_def ac_params_ok_def)
  moreover from p(8) assms(3) have "k = pp_key p" by (auto simp: get_parameter_def split: if_splits)
  ultimately show ?thesis
    using e by (auto simp: get_parameter_def distinct_card intro!: exI)
qed

theorem parameters_change_by_governance_witness:
  "\<exists>s s'. ac_reachable s \<and> ac_step s s' \<and> get_parameter s' FeeBps \<noteq> get_parameter s FeeBps \<and>
     (\<exists>env x i. execute_parameter_change env x i s = Ok s')"
proof -
  obtain s s' where s: "ac_demo = Ok s"
      "execute_parameter_change (open_env 100 86440) 3 1 s = Ok s'"
      "get_parameter s' FeeBps = Some 75" "get_parameter s FeeBps = None"
    using ac_demo_governs by auto
  then have "get_parameter s' FeeBps \<noteq> get_parameter s FeeBps" by simp
  with parameters_change_by_governance [OF ac_demo_reachable [OF s(1)] ac_step.intros(13) [OF s(2)]]
    ac_demo_reachable [OF s(1)] ac_step.intros(13) [OF s(2)] show ?thesis by blast
qed

text \<open>
  In every reachable state a committed parameter lies in its range: the fee and the late
  penalty are at most 10000 basis points, the risk-score ceiling is at most 100.
\<close>

theorem parameters_in_range:
  assumes "ac_reachable s" "get_parameter s k = Some v"
  shows "v \<le> (if k = MaxRiskScore then 100 else 10000)"
proof -
  have "ac_require_valid_parameter k v = Ok ()"
    using ac_reachable_inv [OF assms(1)] assms(2)
    by (simp add: ac_inv_def ac_params_ok_def get_parameter_def)
  then show ?thesis by (cases k) (simp_all add: ac_require_valid_parameter_def)
qed

theorem parameters_in_range_witness:
  "\<exists>s. ac_reachable s \<and> get_parameter s FeeBps = Some 75 \<and> (75::nat) \<le> 10000"
proof -
  obtain s s' where s: "ac_demo = Ok s"
      "execute_parameter_change (open_env 100 86440) 3 1 s = Ok s'"
      "get_parameter s' FeeBps = Some 75"
    using ac_demo_governs by auto
  then have "ac_reachable s'"
    using ac_demo_reachable ac_next ac_step.intros(13) by blast
  with parameters_in_range [OF this s(3)] s(3) show ?thesis by auto
qed

text \<open>
  The admin who authorises the call can pause a protocol that is not paused (as long as the
  audit counter can count the call); \<open>is_paused\<close> is then true, the call changes neither roles nor
  admin, a second pause is refused with \<open>AlreadyPaused\<close> and an unpause by the admin succeeds and
  makes \<open>is_paused\<close> false again. Anybody else is refused.
\<close>

theorem pause_and_unpause:
  assumes "ac_reachable s" "ac_admin s = Some a" "authorised env a" "authorised env' a"
    "unwrap_or (log_total (ac_audit s)) 0 + 1 < U64_MAX"
  shows "if is_paused s then pause env a s = Err AlreadyPaused
    else \<exists>s' s''. pause env a s = Ok s' \<and> is_paused s' \<and>
       ac_admin s' = Some a \<and> ac_role s' = ac_role s \<and> pause env' a s' = Err AlreadyPaused \<and>
       unpause env' a s' = Ok s'' \<and> \<not> is_paused s''"
proof (cases "is_paused s")
  case True
  with assms show ?thesis by (simp add: pause_when_paused)
next
  case False
  from ac_reachable_inv [OF assms(1)] obtain h where idle: "\<not> ac_lock s"
    and h: "audit_repr h (ac_audit s)"
    by (auto simp: ac_inv_def ac_idle_def ac_logged_def)
  then have len: "length h + 1 < U64_MAX" using assms(5) by (simp add: audit_repr_def)
  then obtain s' where p: "pause env a s = Ok s'"
    using pause_succeeds [OF assms(2,3) False idle h] by auto
  note s' = pause_effect [OF p h]
  obtain s'' where "unpause env' a s' = Ok s''" "\<not> is_paused s''"
    using unpause_succeeds [of s' a env', OF _ assms(4) s'(1,4,5)] s'(2) assms(2) len by auto
  with p s' False assms(2,4) show ?thesis by (auto simp: pause_when_paused)
qed

theorem pause_and_unpause_witness:
  "\<exists>s s'. ac_reachable s \<and> pause (open_env 100 70) 1 s = Ok s' \<and> is_paused s'"
proof -
  obtain s where s: "ac_demo = Ok s" "ac_admin s = Some 1" "\<not> is_paused s"
      "unwrap_or (log_total (ac_audit s)) 0 + 1 < U64_MAX"
    using ac_demo_state by auto
  from pause_and_unpause [OF ac_demo_reachable [OF s(1)] s(2) _ _ s(4),
      of "open_env 100 70" "open_env 100 80"] s(1,3) ac_demo_reachable [OF s(1)]
  show ?thesis by auto
qed

text \<open>
  Only the admin who authorised the call can pause, unpause, grant or revoke a role, hand over
  the admin right directly, configure the multisig, or propose and execute a code upgrade.
\<close>

theorem admin_entry_points_guarded:
  assumes "ac_admin s \<noteq> Some a \<or> \<not> authorised env a"
  shows "pause env a s \<noteq> Ok s' \<and> unpause env a s \<noteq> Ok s' \<and> grant_role env a target r s \<noteq> Ok s' \<and>
    revoke_role env a target s \<noteq> Ok s' \<and> ac_transfer_admin env a target s \<noteq> Ok s' \<and>
    configure_multisig env a signers n s \<noteq> Ok s' \<and> ac_propose_upgrade env a h s \<noteq> Ok s' \<and>
    ac_execute_upgrade env a s \<noteq> Ok s'"
  using assms by (auto simp: ac_op_defs)

theorem admin_entry_points_guarded_witness:
  "ac_admin ac_empty \<noteq> Some 1 \<and> (\<forall>s'. pause (open_env 100 0) 1 ac_empty \<noteq> Ok s')"
  using admin_entry_points_guarded [of ac_empty 1 "open_env 100 0"] by (auto simp: ac_empty_def)

text \<open>
  C38: when the multisig executes \<open>TransferAdmin new_admin\<close>, the stored admin becomes \<open>new_admin\<close>
  but the previous admin keeps the role \<open>RoleAdmin\<close> (whereas \<open>transfer_admin\<close> removes it).
\<close>

theorem multisig_transfer_keeps_old_role:
  assumes "ac_admin s = Some old" "has_role s old RoleAdmin" "old \<noteq> new_admin"
  shows "(\<forall>env x s'. apply_admin_action env x (AdminAction.TransferAdmin new_admin) s = Ok s' \<longrightarrow>
      ac_get_admin s' = Ok new_admin \<and> has_role s' old RoleAdmin) \<and>
    (\<forall>env s'. ac_transfer_admin env old new_admin s = Ok s' \<longrightarrow>
      ac_get_admin s' = Ok new_admin \<and> has_role s' old RoleNone)"
  using assms
  by (auto simp: apply_admin_action_def ac_transfer_admin_def Let_def ac_append_eq_Ok has_role_def
      ac_get_admin_def)

theorem multisig_transfer_keeps_old_role_witness:
  "\<exists>s s'. ac_admin s = Some 1 \<and>
     apply_admin_action (open_env 100 5) 3 (AdminAction.TransferAdmin 7) s = Ok s' \<and>
     has_role s' 1 RoleAdmin"
proof -
  let ?s = "ac_empty\<lparr>ac_admin := Some 1, ac_role := [1 \<mapsto> RoleAdmin]\<rparr>"
  have "ac_admin ?s = Some 1" "has_role ?s 1 RoleAdmin" "(1::nat) \<noteq> 7"
    by (simp_all add: has_role_def)
  from multisig_transfer_keeps_old_role [OF this] this(1) show ?thesis
    by (fastforce simp: apply_admin_action_def)
qed

end
