(* ===== verification/Admin_Powers.thy ===== *)
theory Admin_Powers
  imports Access_Control
begin

text \<open>
  What the multisig of the access control contract (\<^verbatim>\<open>contracts/access_control/src/lib.rs\<close>) does not
  restrict: the admin goes on acting alone once it is configured, and the approvals of a proposal
  are counted without looking at the signers of the day.
\<close>

section \<open>Calls that succeed\<close>

lemma ac_append_room:
  assumes "ac_reachable s" "unwrap_or (log_total (ac_audit s)) 0 < U64_MAX" "ac_audit s' = ac_audit s"
  shows "\<exists>s''. ac_append_audit_entry env a act s' = Ok s''"
proof -
  from ac_reachable_inv [OF assms(1)] obtain h where h: "audit_repr h (ac_audit s)"
    by (auto simp: ac_inv_def ac_logged_def)
  with assms(2,3) ac_log.append_succeeds [of h s' env a act] show ?thesis by (auto simp: audit_repr_def)
qed

lemma apply_admin_action_succeeds:
  assumes "\<forall>t r. act = AdminAction.GrantRole t r \<longrightarrow> r = 1 \<or> r = 2"
  shows "\<exists>s'. apply_admin_action env x act s = Ok s'"
  using assms by (cases act) (auto simp: apply_admin_action_def)

lemma configure_multisig_effect:
  assumes "configure_multisig env a sg th s = Ok s'"
  shows "ac_multisig s' = Some \<lparr>ms_threshold = th, ms_signers = sg\<rparr> \<and> ac_proposals s' = ac_proposals s \<and>
    ac_admin s = Some a \<and> authorised env a \<and>
    unwrap_or (log_total (ac_audit s')) 0 = unwrap_or (log_total (ac_audit s)) 0 + 1"
  using assms by (auto simp: configure_multisig_def Let_def ac_append_eq_Ok audit_append_def)

lemma execute_action_succeeds:
  assumes "ac_reachable s" "ac_multisig s = Some c" "x \<in> set (ms_signers c)" "authorised env x"
    "ac_proposals s i = Some p" "\<not> prop_executed p" "timestamp env \<le> prop_expires_at p"
    "ms_threshold c \<le> length (prop_approvals p)" "unwrap_or (log_total (ac_audit s)) 0 < U64_MAX"
    "\<forall>t r. prop_action p = AdminAction.GrantRole t r \<longrightarrow> r = 1 \<or> r = 2"
  shows "\<exists>s'. execute_action env x i s = Ok s'"
proof -
  let ?s = "s\<lparr>ac_proposals := (ac_proposals s)(i \<mapsto> p\<lparr>prop_executed := True\<rparr>)\<rparr>"
  obtain s1 where s1: "apply_admin_action env x (prop_action p) ?s = Ok s1"
    using apply_admin_action_succeeds [OF assms(10)] by blast
  have "ac_audit (ac_emit (action_executed env i x) s1) = ac_audit s"
    using apply_admin_action_frame(9) [OF s1] by simp
  from ac_append_room [OF assms(1,9) this] s1 assms show ?thesis
    by (auto simp: execute_action_def Let_def)
qed

section \<open>Properties\<close>

text \<open>
  C23: the signers of the day are not asked. When the admin replaces the signers while a proposal is
  open, the approvals it has already count on, whoever gave them: if they reach the new threshold,
  any new signer can execute the proposal at once, even if none of those who approved it is a
  signer any more.
\<close>

theorem removed_signers_still_count:
  assumes "ac_reachable s" "get_proposal s i = Ok p" "\<not> prop_executed p"
    "configure_multisig env a sg th s = Ok s'" "th \<le> length (prop_approvals p)"
    "x \<in> set sg" "authorised env' x" "timestamp env' \<le> prop_expires_at p"
    "\<forall>t r. prop_action p = AdminAction.GrantRole t r \<longrightarrow> r = 1 \<or> r = 2"
    "unwrap_or (log_total (ac_audit s)) 0 + 1 < U64_MAX"
  shows "\<exists>s''. execute_action env' x i s' = Ok s'' \<and> get_proposal s'' i = Ok (p\<lparr>prop_executed := True\<rparr>)"
proof -
  note c = configure_multisig_effect [OF assms(4)]
  have r: "ac_reachable s'" using ac_next [OF assms(1)] ac_step.intros(7) [OF assms(4)] by blast
  have p: "ac_proposals s' i = Some p" using assms(2) c by (simp add: get_proposal_def)
  from execute_action_succeeds [OF r _ _ assms(7) p assms(3,8) _ _ assms(9)] c assms(5,6,10)
  obtain s'' where e: "execute_action env' x i s' = Ok s''" by auto
  moreover have "ac_proposals s'' i = Some (p\<lparr>prop_executed := True\<rparr>)"
    using e p by (auto simp: execute_action_def Let_def ac_append_eq_Ok apply_admin_action_frame(5))
  ultimately show ?thesis by (auto simp: get_proposal_def)
qed

lemma ac_demo_resigned:
  "\<exists>s s' p. ac_demo = Ok s \<and> get_proposal s 1 = Ok p \<and> \<not> prop_executed p \<and> prop_approvals p = [1, 2] \<and>
     configure_multisig (open_env 100 65) 1 [7, 8] 2 s = Ok s' \<and> 70 \<le> prop_expires_at p \<and>
     prop_action p = AdminAction.Pause \<and> unwrap_or (log_total (ac_audit s)) 0 + 1 < U64_MAX"
  by (simp add: ac_eval get_proposal_def cong: andThen_weak_cong del: andThen_eq_Ok)

theorem removed_signers_still_count_witness:
  "\<exists>s s' p. get_proposal s 1 = Ok p \<and> prop_approvals p = [1, 2] \<and>
     (\<exists>c. get_multisig_config s = Ok c \<and> ms_signers c = [7, 8]) \<and> execute_action (open_env 100 70) 7 1 s = Ok s'"
proof -
  obtain s s' p where d: "ac_demo = Ok s" "get_proposal s 1 = Ok p" "\<not> prop_executed p" "prop_approvals p = [1, 2]"
      "configure_multisig (open_env 100 65) 1 [7, 8] 2 s = Ok s'" "70 \<le> prop_expires_at p"
      "prop_action p = AdminAction.Pause" "unwrap_or (log_total (ac_audit s)) 0 + 1 < U64_MAX"
    using ac_demo_resigned by blast
  from removed_signers_still_count [OF ac_demo_reachable [OF d(1)] d(2,3,5), of 7 "open_env 100 70"] d(4,6-8)
  obtain s'' where "execute_action (open_env 100 70) 7 1 s' = Ok s''" by auto
  with configure_multisig_effect [OF d(5)] d(2,4) show ?thesis
    by (intro exI [of _ s'] exI [of _ s''] exI [of _ p]) (simp add: get_proposal_def get_multisig_config_def ac_load_multisig_config_def)
qed

text \<open>
  The admin needs no quorum. In every reachable state, whatever multisig is configured, the admin alone
  pauses a running protocol, and hands the admin role to any other address without another role;
  no proposal is needed and none is used up.
\<close>

theorem admin_acts_without_multisig:
  assumes "ac_reachable s" "get_multisig_config s = Ok c" "ac_get_admin s = Ok a" "authorised env a"
    "unwrap_or (log_total (ac_audit s)) 0 < U64_MAX" "b \<noteq> a" "b \<noteq> self env"
    "get_role s b = RoleNone \<or> get_role s b = RoleAdmin"
  shows "(\<not> is_paused s \<longrightarrow> (\<exists>s'. pause env a s = Ok s' \<and> is_paused s' \<and> ac_proposals s' = ac_proposals s)) \<and>
    (\<exists>s'. ac_transfer_admin env a b s = Ok s' \<and> ac_get_admin s' = Ok b \<and> ac_proposals s' = ac_proposals s)"
proof (intro conjI impI)
  have a: "ac_admin s = Some a" using assms(3) by (simp add: ac_get_admin_def)
  from ac_reachable_inv [OF assms(1)] obtain h where h: "audit_repr h (ac_audit s)" "\<not> ac_lock s"
    by (auto simp: ac_inv_def ac_logged_def ac_idle_def)
  assume "\<not> is_paused s"
  with pause_succeeds [OF a assms(4) _ h(2,1)] assms(5) h(1) obtain s' where s': "pause env a s = Ok s'"
    by (auto simp: audit_repr_def)
  moreover have "ac_proposals s' = ac_proposals s"
    using s' by (auto simp: pause_def Let_def with_guard_eq_Ok ac_append_eq_Ok)
  ultimately show "\<exists>s'. pause env a s = Ok s' \<and> is_paused s' \<and> ac_proposals s' = ac_proposals s"
    using pause_effect(1) [OF s' h(1)] by blast
next
  let ?s = "ac_emit (admin_transferred env a b) (s\<lparr>ac_admin := Some b, ac_role := ((ac_role s)(b \<mapsto> RoleAdmin))(a := None)\<rparr>)"
  obtain s' where s': "ac_append_audit_entry env a AdminActionType.TransferAdmin ?s = Ok s'"
    using ac_append_room [OF assms(1,5), of ?s env a AdminActionType.TransferAdmin] by auto
  then have "ac_transfer_admin env a b s = Ok s'"
    using assms(3,4,6-8) by (auto simp: ac_transfer_admin_def ac_get_admin_def get_role_def Let_def)
  moreover have "ac_admin s' = Some b" "ac_proposals s' = ac_proposals s"
    using s' by (auto simp: ac_append_eq_Ok)
  ultimately show "\<exists>s'. ac_transfer_admin env a b s = Ok s' \<and> ac_get_admin s' = Ok b \<and> ac_proposals s' = ac_proposals s"
    by (simp add: ac_get_admin_def)
qed

lemma ac_demo_multisig:
  "\<exists>s c. ac_demo = Ok s \<and> get_multisig_config s = Ok c \<and> ms_threshold c = 2 \<and> ac_get_admin s = Ok 1 \<and>
     unwrap_or (log_total (ac_audit s)) 0 < U64_MAX \<and> get_role s 9 = RoleNone \<and> \<not> is_paused s"
  by (simp add: ac_eval get_multisig_config_def ac_get_admin_def get_role_def cong: andThen_weak_cong del: andThen_eq_Ok)

theorem admin_acts_without_multisig_witness:
  "\<exists>s c s'. ac_reachable s \<and> get_multisig_config s = Ok c \<and> ms_threshold c = 2 \<and>
     ac_transfer_admin (open_env 100 70) 1 9 s = Ok s' \<and> ac_get_admin s' = Ok 9"
proof -
  obtain s c where d: "ac_demo = Ok s" "get_multisig_config s = Ok c" "ms_threshold c = 2" "ac_get_admin s = Ok 1"
      "unwrap_or (log_total (ac_audit s)) 0 < U64_MAX" "get_role s 9 = RoleNone"
    using ac_demo_multisig by blast
  from admin_acts_without_multisig [OF ac_demo_reachable [OF d(1)] d(2,4), of "open_env 100 70" 9] d(5,6)
    ac_demo_reachable [OF d(1)] d(2,3) show ?thesis by auto
qed

end
