(* ===== verification/Token_Interface.thy ===== *)
theory Token_Interface
  imports Kora_Prelude
begin

text \<open>
  Token contracts are not part of the repository: the contracts reach them through the SDK's
  \<open>token::Client\<close> (the SEP-41 interface). A token host is a parameter of every operation that
  moves money: its state \<open>'tk\<close> holds the balances of all tokens, and \<open>token_api\<close> holds the three
  functions the contracts call. A token contract changes token balances only, which is the one
  thing the shape of this parameter fixes.

  \<open>sep41\<close> is the documented behaviour of a successful \<open>transfer\<close>: the amount is not negative, the
  sender authorised the call, the amount moves from the sender to the receiver, and nothing
  else changes. Properties that rest on it name it as a hypothesis; \<open>plain_token\<close> is a token
  host that satisfies it.
\<close>

section \<open>The interface\<close>

text \<open>\<open>tk_transfer env from to amount\<close> runs in the environment of the token contract, whose
  address is \<open>self env\<close>; \<open>tk_balance\<close> and \<open>tk_decimals\<close> take the token's address first.\<close>

record 'tk token_api =
  tk_transfer :: "env \<Rightarrow> Address \<Rightarrow> Address \<Rightarrow> i128 \<Rightarrow> 'tk \<Rightarrow> 'tk res"
  tk_balance :: "Address \<Rightarrow> Address \<Rightarrow> 'tk \<Rightarrow> i128"
  tk_decimals :: "Address \<Rightarrow> 'tk \<Rightarrow> u32"

definition token_transfer ::
    "'tk token_api \<Rightarrow> env \<Rightarrow> Address \<Rightarrow> Address \<Rightarrow> Address \<Rightarrow> i128 \<Rightarrow> 'tk \<Rightarrow> 'tk res" where
  "token_transfer T env token from to amount tk =
     call (tk_transfer T (subcall env token) from to amount tk)"

section \<open>The documented behaviour\<close>

definition sep41 :: "'tk token_api \<Rightarrow> bool" where
  "sep41 T \<longleftrightarrow>
     (\<forall>env from to amount tk tk'. tk_transfer T env from to amount tk = Ok tk' \<longrightarrow>
        0 \<le> amount \<and> authorised env from \<and>
        (\<forall>token a. tk_balance T token a tk' = tk_balance T token a tk
           - (if token = self env \<and> a = from then amount else 0)
           + (if token = self env \<and> a = to then amount else 0)) \<and>
        (\<forall>token. tk_decimals T token tk' = tk_decimals T token tk))"

lemma sep41_transfer:
  assumes "sep41 T" "token_transfer T env token from to amount tk = Ok tk'"
  shows "0 \<le> amount" "authorised (subcall env token) from"
    "tk_balance T token' a tk' = tk_balance T token' a tk
       - (if token' = token \<and> a = from then amount else 0)
       + (if token' = token \<and> a = to then amount else 0)"
    "tk_decimals T token' tk' = tk_decimals T token' tk"
  using assms by (auto simp: sep41_def token_transfer_def)

text \<open>A token host that keeps every balance in one table and gives every token seven decimals.\<close>

definition plain_token :: "(Address \<Rightarrow> Address \<Rightarrow> i128) token_api" where
  "plain_token =
     \<lparr>tk_transfer = (\<lambda>env from to amount tk.
        if \<not> authorised env from then Trap AuthRequired
        else if amount < 0 \<or> tk (self env) from < amount then Trap Overflow
        else let bal = tk (self env); bal = bal(from := bal from - amount)
             in Ok (tk(self env := bal(to := bal to + amount)))),
      tk_balance = (\<lambda>token a tk. tk token a),
      tk_decimals = (\<lambda>token tk. 7)\<rparr>"

lemma sep41_plain_token: "sep41 plain_token"
  by (auto simp: sep41_def plain_token_def Let_def)

end
