(* ===== verification/Kora_Treasury.thy ===== *)
theory Kora_Treasury
  imports Audit_Log Shared_Reentrancy Upgrade_Timelock Token_Interface
begin

text \<open>
  The treasury (\<^verbatim>\<open>contracts/treasury/src/lib.rs\<close>): the protocol fee, the token whitelist, the ledger
  of collected fees, withdrawals under a cap per epoch of 24 hours, the emergency withdrawal, the
  timelocked change of the cap, the audit log and the upgrade.

  \<open>tr_state\<close> has one field per storage key; operations that move tokens act on the pair of that
  state and the state of the token host. The main theorem is on the rate limit: it bounds what
  \<open>withdraw\<close> pays out in any window of 24 hours, next to an emergency withdrawal without a limit.
\<close>

section \<open>State\<close>

definition EPOCH_DURATION :: u64 where "EPOCH_DURATION = 86400"

record tr_state =
  tr_admin :: "Address option"
  tr_fee_bps :: "u32 option"
  tr_collected :: "Address \<rightharpoonup> i128"
  tr_whitelisted :: "Address \<rightharpoonup> bool"
  tr_upgrade_proposal :: "(BytesN32 \<times> u64) option"
  tr_withdrawal_cap :: "i128 option"
  tr_cap_proposal :: "(i128 \<times> u64) option"
  tr_epoch_start :: "u64 option"
  tr_epoch_withdrawn :: "i128 option"
  tr_audit :: audit_log
  tr_lock :: bool
  tr_code :: "BytesN32 option"
  tr_events :: "event list"

definition tr_empty :: tr_state where
  "tr_empty = \<lparr>tr_admin = None, tr_fee_bps = None, tr_collected = Map.empty,
     tr_whitelisted = Map.empty, tr_upgrade_proposal = None, tr_withdrawal_cap = None,
     tr_cap_proposal = None, tr_epoch_start = None, tr_epoch_withdrawn = None,
     tr_audit = empty_log, tr_lock = False, tr_code = None, tr_events = []\<rparr>"

abbreviation tr_emit :: "event \<Rightarrow> tr_state \<Rightarrow> tr_state" where
  "tr_emit e s \<equiv> s\<lparr>tr_events := tr_events s @ [e]\<rparr>"

abbreviation tr_get_lock :: "tr_state \<times> 'tk \<Rightarrow> bool" where
  "tr_get_lock x \<equiv> tr_lock (fst x)"

abbreviation tr_put_lock :: "bool \<Rightarrow> tr_state \<times> 'tk \<Rightarrow> tr_state \<times> 'tk" where
  "tr_put_lock b x \<equiv> (fst x\<lparr>tr_lock := b\<rparr>, snd x)"

section \<open>Helpers\<close>

definition tr_require_admin :: "tr_state \<Rightarrow> Address \<Rightarrow> unit res" where
  "tr_require_admin s caller =
     andThen (ok_or (tr_admin s) NotInitialized) (\<lambda>admin.
     if admin \<noteq> caller then Err NotAdmin else Ok ())"

definition tr_require_whitelisted_token :: "tr_state \<Rightarrow> Address \<Rightarrow> unit res" where
  "tr_require_whitelisted_token s token =
     (let whitelisted = unwrap_or (tr_whitelisted s token) False in
      if \<not> whitelisted then Err TokenNotWhitelisted else Ok ())"

definition enforce_rate_limit :: "env \<Rightarrow> i128 \<Rightarrow> tr_state \<Rightarrow> tr_state res" where
  "enforce_rate_limit env amount s =
     (let cap = unwrap_or (tr_withdrawal_cap s) 0 in
      if cap = 0 then Ok s else
      let now = timestamp env;
          epoch_start = unwrap_or (tr_epoch_start s) now;
          (epoch_withdrawn, s) =
            (if now - epoch_start \<ge> EPOCH_DURATION
             then (0, s\<lparr>tr_epoch_start := Some now, tr_epoch_withdrawn := Some 0\<rparr>)
             else (unwrap_or (tr_epoch_withdrawn s) 0, s))
      in andThen (ok_or (checked_add epoch_withdrawn amount) ArithmeticOverflow) (\<lambda>new_total.
         if new_total > cap then Err WithdrawalRateLimitExceeded else Ok s))"

definition record_withdrawal :: "i128 \<Rightarrow> tr_state \<Rightarrow> tr_state" where
  "record_withdrawal amount s =
     (let cap = unwrap_or (tr_withdrawal_cap s) 0 in
      if cap = 0 then s else
      let current = unwrap_or (tr_epoch_withdrawn s) 0
      in s\<lparr>tr_epoch_withdrawn := Some (saturating_add current amount)\<rparr>)"

definition tr_append_audit_entry :: "env \<Rightarrow> Address \<Rightarrow> AdminActionType \<Rightarrow> tr_state \<Rightarrow> tr_state res" where
  "tr_append_audit_entry env actor action s =
     andThen (audit_append Treasury env actor action (tr_audit s)) (\<lambda>(entry, l).
     Ok (tr_emit (admin_action_audited env entry) (s\<lparr>tr_audit := l\<rparr>)))"

definition tr_get_audit_log :: "tr_state \<Rightarrow> u32 \<Rightarrow> u32 \<Rightarrow> AdminAuditEntry list res" where
  "tr_get_audit_log s page page_size = audit_page (tr_audit s) page page_size"

section \<open>Set-up and fees\<close>

definition tr_initialize :: "env \<Rightarrow> Address \<Rightarrow> u32 \<Rightarrow> tr_state \<Rightarrow> tr_state res" where
  "tr_initialize env admin fee_bps s =
     (if tr_admin s \<noteq> None then Err AlreadyInitialized else
      andThen (require_valid_fee_bps fee_bps) (\<lambda>_.
      andThen (require_not_self env admin) (\<lambda>_.
      let s = s\<lparr>tr_admin := Some admin, tr_fee_bps := Some fee_bps, tr_withdrawal_cap := Some 0,
                tr_epoch_start := Some (timestamp env), tr_epoch_withdrawn := Some 0\<rparr>
      in Ok (tr_emit (treasury_initialized env admin fee_bps) s))))"

definition set_fee_bps :: "env \<Rightarrow> Address \<Rightarrow> u32 \<Rightarrow> tr_state \<Rightarrow> tr_state res" where
  "set_fee_bps env admin fee_bps s =
     andThen (require_auth env admin) (\<lambda>_.
     andThen (tr_require_admin s admin) (\<lambda>_.
     andThen (require_valid_fee_bps fee_bps) (\<lambda>_.
     let old_bps = unwrap_or (tr_fee_bps s) 50;
         s = s\<lparr>tr_fee_bps := Some fee_bps\<rparr>;
         s = tr_emit (fee_rate_updated env admin old_bps fee_bps) s
     in tr_append_audit_entry env admin SetFeeBps s)))"

definition whitelist_token :: "env \<Rightarrow> Address \<Rightarrow> Address \<Rightarrow> tr_state \<Rightarrow> tr_state res" where
  "whitelist_token env admin token s =
     andThen (require_auth env admin) (\<lambda>_.
     andThen (tr_require_admin s admin) (\<lambda>_.
     let s = s\<lparr>tr_whitelisted := (tr_whitelisted s)(token \<mapsto> True)\<rparr>;
         s = tr_emit (token_whitelisted env admin token) s
     in tr_append_audit_entry env admin WhitelistToken s))"

definition collect_fee :: "env \<Rightarrow> Address \<Rightarrow> i128 \<Rightarrow> tr_state \<Rightarrow> tr_state res" where
  "collect_fee env token amount s =
     (if amount \<le> 0 then Err InvalidAmount else
      andThen (tr_require_whitelisted_token s token) (\<lambda>_.
      let current = unwrap_or (tr_collected s token) 0 in
      andThen (ok_or (checked_add current amount) ArithmeticOverflow) (\<lambda>new_total.
      let s = s\<lparr>tr_collected := (tr_collected s)(token \<mapsto> new_total)\<rparr>
      in Ok (tr_emit (fee_collected env (self env) 0 amount token) s))))"

section \<open>Withdrawals\<close>

definition tr_withdraw ::
    "'tk token_api \<Rightarrow> env \<Rightarrow> Address \<Rightarrow> Address \<Rightarrow> Address \<Rightarrow> i128 \<Rightarrow> tr_state \<times> 'tk \<Rightarrow> (tr_state \<times> 'tk) res" where
  "tr_withdraw T env admin token recipient amount = (\<lambda>(s, tk).
     andThen (require_auth env admin) (\<lambda>_.
     andThen (tr_require_admin s admin) (\<lambda>_.
     if amount \<le> 0 then Err InvalidAmount else
     andThen (require_within_max_amount amount) (\<lambda>_.
     andThen (tr_require_whitelisted_token s token) (\<lambda>_.
     andThen (enforce_rate_limit env amount s) (\<lambda>s.
     with_guard tr_get_lock tr_put_lock (\<lambda>(s, tk).
       let balance = tk_balance T token (self env) tk in
       if balance < amount then Err InsufficientPoolBalance else
       let s = (case tr_collected s token of
                  None \<Rightarrow> s
                | Some collected \<Rightarrow>
                    s\<lparr>tr_collected := (tr_collected s)(token \<mapsto> saturating_sub collected amount)\<rparr>);
           s = record_withdrawal amount s
       in andThen (token_transfer T env token (self env) recipient amount tk) (\<lambda>tk.
       let s = tr_emit (fee_withdrawn env admin token amount) s
       in andThen (tr_append_audit_entry env admin Withdraw s) (\<lambda>s.
       Ok (s, tk)))) (s, tk)))))))"

definition emergency_withdraw ::
    "'tk token_api \<Rightarrow> env \<Rightarrow> Address \<Rightarrow> Address \<Rightarrow> Address \<Rightarrow> tr_state \<times> 'tk \<Rightarrow> (tr_state \<times> 'tk) res" where
  "emergency_withdraw T env admin token recipient = (\<lambda>(s, tk).
     andThen (require_auth env admin) (\<lambda>_.
     andThen (tr_require_admin s admin) (\<lambda>_.
     andThen (tr_require_whitelisted_token s token) (\<lambda>_.
     with_guard tr_get_lock tr_put_lock (\<lambda>(s, tk).
       let balance = tk_balance T token (self env) tk in
       andThen (if balance > 0 then
                  andThen (token_transfer T env token (self env) recipient balance tk) (\<lambda>tk.
                  Ok (tr_emit (emergency_withdrawn env admin token balance) s, tk))
                else Ok (s, tk)) (\<lambda>(s, tk).
       andThen (tr_append_audit_entry env admin EmergencyWithdraw s) (\<lambda>s.
       Ok (s, tk)))) (s, tk)))))"

section \<open>The withdrawal cap\<close>

definition propose_withdrawal_cap :: "env \<Rightarrow> Address \<Rightarrow> i128 \<Rightarrow> tr_state \<Rightarrow> tr_state res" where
  "propose_withdrawal_cap env admin new_cap s =
     andThen (require_auth env admin) (\<lambda>_.
     andThen (tr_require_admin s admin) (\<lambda>_.
     if new_cap < 0 then Err InvalidAmount else
     let s = s\<lparr>tr_cap_proposal := Some (new_cap, timestamp env)\<rparr>;
         s = tr_emit (withdrawal_cap_proposed env admin new_cap) s
     in tr_append_audit_entry env admin ProposeWithdrawalCap s))"

definition execute_withdrawal_cap :: "env \<Rightarrow> Address \<Rightarrow> tr_state \<Rightarrow> tr_state res" where
  "execute_withdrawal_cap env admin s =
     andThen (require_auth env admin) (\<lambda>_.
     andThen (tr_require_admin s admin) (\<lambda>_.
     andThen (ok_or (tr_cap_proposal s) NoCapChangeProposed) (\<lambda>(new_cap, proposed_at).
     andThen (timelock_elapsed env proposed_at WithdrawalCapTimelockNotElapsed) (\<lambda>_.
     let old_cap = unwrap_or (tr_withdrawal_cap s) 0;
         s = s\<lparr>tr_withdrawal_cap := Some new_cap\<rparr>;
         s = s\<lparr>tr_cap_proposal := None\<rparr>;
         s = tr_emit (withdrawal_cap_updated env admin old_cap new_cap) s
     in tr_append_audit_entry env admin ExecuteWithdrawalCap s))))"

section \<open>Views\<close>

definition get_withdrawal_cap :: "tr_state \<Rightarrow> i128" where
  "get_withdrawal_cap s = unwrap_or (tr_withdrawal_cap s) 0"

definition get_fee_bps :: "tr_state \<Rightarrow> u32" where
  "get_fee_bps s = unwrap_or (tr_fee_bps s) 50"

definition get_balance :: "'tk token_api \<Rightarrow> env \<Rightarrow> Address \<Rightarrow> 'tk \<Rightarrow> i128" where
  "get_balance T env token tk = tk_balance T token (self env) tk"

definition get_collected :: "tr_state \<Rightarrow> Address \<Rightarrow> i128" where
  "get_collected s token = unwrap_or (tr_collected s token) 0"

definition tr_get_admin :: "tr_state \<Rightarrow> Address res" where
  "tr_get_admin s = ok_or (tr_admin s) NotInitialized"

section \<open>Upgrade\<close>

definition tr_propose_upgrade :: "env \<Rightarrow> Address \<Rightarrow> BytesN32 \<Rightarrow> tr_state \<Rightarrow> tr_state res" where
  "tr_propose_upgrade env admin new_wasm_hash s =
     andThen (require_auth env admin) (\<lambda>_.
     andThen (tr_require_admin s admin) (\<lambda>_.
     let s = s\<lparr>tr_upgrade_proposal := Some (new_wasm_hash, timestamp env)\<rparr>;
         s = tr_emit (upgrade_proposed env admin new_wasm_hash) s
     in tr_append_audit_entry env admin TreasuryProposeUpgrade s))"

definition tr_execute_upgrade :: "env \<Rightarrow> Address \<Rightarrow> tr_state \<Rightarrow> tr_state res" where
  "tr_execute_upgrade env admin s =
     andThen (require_auth env admin) (\<lambda>_.
     andThen (tr_require_admin s admin) (\<lambda>_.
     andThen (ok_or (tr_upgrade_proposal s) NoUpgradeProposed) (\<lambda>(wasm_hash, proposed_at).
     andThen (timelock_elapsed env proposed_at UpgradeTimelockNotElapsed) (\<lambda>_.
     let s = s\<lparr>tr_upgrade_proposal := None\<rparr>;
         s = tr_emit (upgrade_executed env admin wasm_hash) s
     in andThen (tr_append_audit_entry env admin TreasuryExecuteUpgrade s) (\<lambda>s.
     Ok (s\<lparr>tr_code := Some wasm_hash\<rparr>))))))"

section \<open>Facts on the helpers\<close>

lemma tr_require_eq_Ok [simp, res_simps]:
  "tr_require_admin s a = Ok u \<longleftrightarrow> tr_admin s = Some a"
  "tr_require_whitelisted_token s t = Ok u \<longleftrightarrow> tr_whitelisted s t = Some True"
  by (cases "tr_whitelisted s t"; auto simp: tr_require_admin_def tr_require_whitelisted_token_def)+

lemma tr_append_eq_Ok:
  "tr_append_audit_entry env a act s = Ok s' \<longleftrightarrow>
     (\<exists>e l. audit_append Treasury env a act (tr_audit s) = Ok (e, l) \<and>
            s' = tr_emit (admin_action_audited env e) (s\<lparr>tr_audit := l\<rparr>))"
  by (auto simp: tr_append_audit_entry_def)

section \<open>Interfaces\<close>

interpretation tr_guard: lock_cell tr_get_lock tr_put_lock
  by unfold_locales (simp_all add: prod_eq_iff)

interpretation tr_log: audited tr_audit tr_append_audit_entry tr_get_audit_log Treasury
  by unfold_locales (auto simp: tr_append_eq_Ok tr_get_audit_log_def)

interpretation tr_upgrade: timelocked_upgrade tr_admin tr_upgrade_proposal tr_code
    tr_propose_upgrade tr_execute_upgrade
  by unfold_locales
    (auto simp: tr_propose_upgrade_def tr_execute_upgrade_def tr_append_eq_Ok Let_def)

section \<open>The rate limit, step by step\<close>

text \<open>The counters after the check, when the epoch is known.\<close>

definition epoch_over :: "u64 \<Rightarrow> u64 \<Rightarrow> bool" where
  "epoch_over e now \<longleftrightarrow> e + EPOCH_DURATION \<le> now"

lemma epoch_over_conv: "now - e \<ge> EPOCH_DURATION \<longleftrightarrow> epoch_over e now"
  by (auto simp: epoch_over_def EPOCH_DURATION_def)

lemma enforce_rate_limit_capped:
  assumes "enforce_rate_limit env x s = Ok s'" "get_withdrawal_cap s \<noteq> 0"
    "tr_epoch_start s = Some e" "tr_epoch_withdrawn s = Some w"
  shows "let e' = (if epoch_over e (timestamp env) then timestamp env else e);
             w' = (if epoch_over e (timestamp env) then 0 else w)
         in s' = s\<lparr>tr_epoch_start := Some e', tr_epoch_withdrawn := Some w'\<rparr> \<and>
            in_i128 (w' + x) \<and> w' + x \<le> get_withdrawal_cap s"
  using assms
  by (auto simp: enforce_rate_limit_def get_withdrawal_cap_def Let_def epoch_over_conv split: if_splits)

lemma withdraw_capped:
  assumes "tr_withdraw T env a token r x (s, tk) = Ok (s', tk')" "get_withdrawal_cap s \<noteq> 0"
    "tr_epoch_start s = Some e" "tr_epoch_withdrawn s = Some w"
  shows "let e' = (if epoch_over e (timestamp env) then timestamp env else e);
             w' = (if epoch_over e (timestamp env) then 0 else w)
         in tr_epoch_start s' = Some e' \<and> tr_epoch_withdrawn s' = Some (w' + x) \<and>
            0 < x \<and> w' + x \<le> get_withdrawal_cap s \<and> get_withdrawal_cap s' = get_withdrawal_cap s"
proof -
  from assms(1) obtain s1 where s1: "enforce_rate_limit env x s = Ok s1" "0 < x"
      "tr_epoch_start s' = tr_epoch_start (record_withdrawal x s1)"
      "tr_epoch_withdrawn s' = tr_epoch_withdrawn (record_withdrawal x s1)"
      "tr_withdrawal_cap s' = tr_withdrawal_cap s1"
    by (auto simp: tr_withdraw_def with_guard_eq_Ok Let_def tr_append_eq_Ok record_withdrawal_def
        split: option.splits)
  from enforce_rate_limit_capped [OF s1(1) assms(2-4)] s1(2-5) assms(2) show ?thesis
    by (auto simp: record_withdrawal_def Let_def get_withdrawal_cap_def saturating_add_def split: if_splits)
qed

section \<open>Runs under a cap\<close>

text \<open>
  A step of the treasury, with the tokens it pays out: by \<open>withdraw\<close>, which the rate limit covers, or
  by \<open>emergency_withdraw\<close>, which takes the whole balance; with the time and the amount. The last rule
  lets the tokens move by any other contract.
\<close>

datatype outflow = Regular | Emergency

inductive tr_step ::
    "'tk token_api \<Rightarrow> env \<Rightarrow> (outflow \<times> u64 \<times> i128) list \<Rightarrow> tr_state \<times> 'tk \<Rightarrow> tr_state \<times> 'tk \<Rightarrow> bool"
  for T :: "'tk token_api" and env :: env where
  "tr_initialize env a n s = Ok s' \<Longrightarrow> tr_step T env [] (s, tk) (s', tk)"
| "set_fee_bps env a n s = Ok s' \<Longrightarrow> tr_step T env [] (s, tk) (s', tk)"
| "whitelist_token env a token s = Ok s' \<Longrightarrow> tr_step T env [] (s, tk) (s', tk)"
| "collect_fee env token x s = Ok s' \<Longrightarrow> tr_step T env [] (s, tk) (s', tk)"
| "tr_withdraw T env a token r x (s, tk) = Ok (s', tk') \<Longrightarrow>
     tr_step T env [(Regular, timestamp env, x)] (s, tk) (s', tk')"
| "emergency_withdraw T env a token r (s, tk) = Ok (s', tk') \<Longrightarrow>
     tr_step T env [(Emergency, timestamp env, max 0 (get_balance T env token tk))] (s, tk) (s', tk')"
| "propose_withdrawal_cap env a x s = Ok s' \<Longrightarrow> tr_step T env [] (s, tk) (s', tk)"
| "execute_withdrawal_cap env a s = Ok s' \<Longrightarrow> tr_step T env [] (s, tk) (s', tk)"
| "tr_propose_upgrade env a w s = Ok s' \<Longrightarrow> tr_step T env [] (s, tk) (s', tk)"
| "tr_execute_upgrade env a s = Ok s' \<Longrightarrow> tr_step T env [] (s, tk) (s', tk)"
| "tr_step T env [] (s, tk) (s, tk')"

text \<open>A run from time to time with a cap set throughout, of at most \<open>cap\<close> (a cap of 0 is no limit).\<close>

inductive tr_run ::
    "'tk token_api \<Rightarrow> i128 \<Rightarrow> u64 \<Rightarrow> tr_state \<times> 'tk \<Rightarrow> (outflow \<times> u64 \<times> i128) list \<Rightarrow> u64 \<Rightarrow> tr_state \<times> 'tk \<Rightarrow> bool"
  for T :: "'tk token_api" and cap :: i128 where
  tr_here: "0 < get_withdrawal_cap (fst x) \<Longrightarrow> get_withdrawal_cap (fst x) \<le> cap \<Longrightarrow> tr_run T cap t x [] t x"
| tr_more: "tr_run T cap t x ws u y \<Longrightarrow> u \<le> timestamp env \<Longrightarrow> tr_step T env ws' y z \<Longrightarrow>
     0 < get_withdrawal_cap (fst z) \<Longrightarrow> get_withdrawal_cap (fst z) \<le> cap \<Longrightarrow>
     tr_run T cap t x (ws @ ws') (timestamp env) z"

text \<open>The payments of one kind.\<close>

definition payments :: "outflow \<Rightarrow> (outflow \<times> u64 \<times> i128) list \<Rightarrow> (u64 \<times> i128) list" where
  "payments k ws = map snd (filter (\<lambda>e. fst e = k) ws)"

lemma payments_simps [simp]:
  "payments k [] = []" "payments k (ws @ ws') = payments k ws @ payments k ws'"
  "payments k [(k', p)] = (if k' = k then [p] else [])"
  by (simp_all add: payments_def)

text \<open>What the withdrawals of a list take at the times that satisfy \<open>P\<close>.\<close>

definition taken :: "(u64 \<Rightarrow> bool) \<Rightarrow> (u64 \<times> i128) list \<Rightarrow> i128" where
  "taken P ws = (\<Sum>(t, x)\<leftarrow>ws. if P t then x else 0)"

lemma taken_simps [simp]:
  "taken P [] = 0" "taken P (ws @ ws') = taken P ws + taken P ws'"
  "taken P [(t, x)] = (if P t then x else 0)"
  by (simp_all add: taken_def)

lemma taken_False [simp]: "taken (\<lambda>_. False) ws = 0"
  by (induction ws) (auto simp: taken_def)

lemma taken_mono:
  assumes "\<And>t x. (t, x) \<in> set ws \<Longrightarrow> 0 < x \<and> (P t \<longrightarrow> Q t)"
  shows "taken P ws \<le> taken Q ws"
  unfolding taken_def using assms by (intro sum_list_mono) (force split: prod.splits)

lemma taken_split:
  assumes "\<And>t x. (t, x) \<in> set ws \<Longrightarrow> 0 < x \<and> (P t \<longrightarrow> Q t \<or> R t)"
  shows "taken P ws \<le> taken Q ws + taken R ws"
  unfolding taken_def sum_list_addf [symmetric] case_prod_beta'
  using assms by (intro sum_list_mono) force

text \<open>
  The invariant of such a run, with \<open>e\<close> the start of the current epoch and \<open>w\<close> its counter: the
  withdrawals since \<open>e\<close> are counted in \<open>w\<close> and stay below the cap, so do those of the day before \<open>e\<close>,
  and no day has more than twice the cap.
\<close>

definition tr_limited :: "i128 \<Rightarrow> (u64 \<times> i128) list \<Rightarrow> u64 \<Rightarrow> u64 \<Rightarrow> i128 \<Rightarrow> bool" where
  "tr_limited cap ws now e w \<longleftrightarrow> e \<le> now \<and>
     (\<forall>(t, x)\<in>set ws. 0 < x \<and> t \<le> now \<and> t < e + EPOCH_DURATION) \<and>
     taken (\<lambda>t. e \<le> t) ws \<le> w \<and> taken (\<lambda>t. e \<le> t) ws \<le> cap \<and>
     taken (\<lambda>t. t < e \<and> e \<le> t + EPOCH_DURATION) ws \<le> cap \<and>
     (\<forall>t0. taken (\<lambda>t. t0 \<le> t \<and> t < t0 + EPOCH_DURATION) ws \<le> 2 * cap)"

lemma tr_limited_later: "tr_limited cap ws now e w \<Longrightarrow> now \<le> now' \<Longrightarrow> tr_limited cap ws now' e w"
  by (auto simp: tr_limited_def)

lemma tr_limited_window:
  assumes "\<And>t x. (t, x) \<in> set ws \<Longrightarrow> 0 < x"
    "taken (\<lambda>t. e \<le> t) ws \<le> cap" "taken (\<lambda>t. t < e \<and> e \<le> t + EPOCH_DURATION) ws \<le> cap"
    "e \<le> t0 + EPOCH_DURATION"
  shows "taken (\<lambda>t. t0 \<le> t \<and> t < t0 + EPOCH_DURATION) ws \<le> 2 * cap"
proof -
  have "taken (\<lambda>t. t0 \<le> t \<and> t < t0 + EPOCH_DURATION) ws
      \<le> taken (\<lambda>t. e \<le> t) ws + taken (\<lambda>t. t < e \<and> e \<le> t + EPOCH_DURATION) ws"
    using assms(1,4) by (intro taken_split) auto
  with assms(2,3) show ?thesis by linarith
qed

lemma tr_limited_same_epoch:
  assumes "tr_limited cap ws now e w" "now \<le> t" "\<not> epoch_over e t" "0 < x" "w + x \<le> cap"
  shows "tr_limited cap (ws @ [(t, x)]) t e (w + x)"
proof -
  have pos: "\<And>u y. (u, y) \<in> set (ws @ [(t, x)]) \<Longrightarrow> 0 < y"
    using assms(1,4) by (auto simp: tr_limited_def)
  have "e \<le> t" using assms(1,2) by (simp add: tr_limited_def)
  with assms have 1: "taken (\<lambda>t. e \<le> t) (ws @ [(t, x)]) \<le> w + x"
    "taken (\<lambda>t. t < e \<and> e \<le> t + EPOCH_DURATION) (ws @ [(t, x)]) \<le> cap"
    by (simp_all add: tr_limited_def)
  have "taken (\<lambda>t. t0 \<le> t \<and> t < t0 + EPOCH_DURATION) (ws @ [(t, x)]) \<le> 2 * cap" for t0
  proof (cases "e \<le> t0 + EPOCH_DURATION")
    case True
    then show ?thesis using 1 assms(5) pos by (intro tr_limited_window) auto
  next
    case False
    with \<open>e \<le> t\<close> assms(1) show ?thesis by (simp add: tr_limited_def)
  qed
  with 1 \<open>e \<le> t\<close> assms pos show ?thesis by (force simp: tr_limited_def epoch_over_def)
qed

lemma tr_limited_new_epoch:
  assumes "tr_limited cap ws now e w" "now \<le> t" "epoch_over e t" "0 < x" "x \<le> cap"
  shows "tr_limited cap (ws @ [(t, x)]) t t x"
proof -
  have ws: "0 < y" "u < t" if "(u, y) \<in> set ws" for u y
    using assms(1,3) that by (fastforce simp: tr_limited_def epoch_over_def)+
  have "taken (\<lambda>u. t \<le> u) ws \<le> taken (\<lambda>u. False) ws"
    using ws by (intro taken_mono) fastforce
  then have zero: "taken (\<lambda>u. t \<le> u) ws \<le> 0" by simp
  have "taken (\<lambda>u. u < t \<and> t \<le> u + EPOCH_DURATION) ws \<le> taken (\<lambda>u. e \<le> u) ws"
    using ws assms(3) by (intro taken_mono) (auto simp: epoch_over_def)
  then have day: "taken (\<lambda>u. u < t \<and> t \<le> u + EPOCH_DURATION) (ws @ [(t, x)]) \<le> cap"
    using assms(1) by (simp add: tr_limited_def)
  have pos: "\<And>u y. (u, y) \<in> set (ws @ [(t, x)]) \<Longrightarrow> 0 < y" using ws assms(4) by auto
  have "taken (\<lambda>u. t0 \<le> u \<and> u < t0 + EPOCH_DURATION) (ws @ [(t, x)]) \<le> 2 * cap" for t0
  proof (cases "t \<le> t0 + EPOCH_DURATION")
    case True
    then show ?thesis using zero day assms(5) pos by (intro tr_limited_window) auto
  next
    case False
    with assms(1) show ?thesis by (simp add: tr_limited_def)
  qed
  with zero day assms pos ws show ?thesis
    by (force simp: tr_limited_def EPOCH_DURATION_def)
qed

lemma tr_step_counters:
  assumes "tr_step T env ws' (s, tk) (s', tk')" "tr_epoch_start s = Some e"
    "tr_epoch_withdrawn s = Some w" "tr_admin s \<noteq> None" "get_withdrawal_cap s = cap" "cap \<noteq> 0"
  shows "tr_admin s' \<noteq> None \<and>
    (payments Regular ws' = [] \<and> tr_epoch_start s' = Some e \<and> tr_epoch_withdrawn s' = Some w \<or>
     (\<exists>x. payments Regular ws' = [(timestamp env, x)] \<and> 0 < x \<and>
        (if epoch_over e (timestamp env)
         then tr_epoch_start s' = Some (timestamp env) \<and> tr_epoch_withdrawn s' = Some x \<and> x \<le> cap
         else tr_epoch_start s' = Some e \<and> tr_epoch_withdrawn s' = Some (w + x) \<and> w + x \<le> cap)))"
  using assms
proof (cases rule: tr_step.cases)
  case (5 a token r x)
  have "tr_admin s' = tr_admin s"
    using 5(2) by (auto simp: tr_withdraw_def with_guard_eq_Ok Let_def tr_append_eq_Ok
        record_withdrawal_def enforce_rate_limit_def split: option.splits if_splits prod.splits)
  moreover have "get_withdrawal_cap s \<noteq> 0" using assms(5,6) by simp
  ultimately show ?thesis
    using withdraw_capped [OF 5(2) _ assms(2,3)] 5(1) assms(4,5)
    by (cases "epoch_over e (timestamp env)") (auto simp: Let_def)
qed (auto simp: tr_initialize_def set_fee_bps_def whitelist_token_def collect_fee_def
    emergency_withdraw_def propose_withdrawal_cap_def execute_withdrawal_cap_def
    tr_propose_upgrade_def tr_execute_upgrade_def Let_def tr_append_eq_Ok with_guard_eq_Ok
    split: if_splits)

lemma tr_run_limited:
  assumes "tr_run T cap t0 x ws now y" "tr_admin (fst x) \<noteq> None"
    "tr_epoch_start (fst x) = Some e0" "e0 \<le> t0" "tr_epoch_withdrawn (fst x) = Some w0" "0 \<le> w0"
  shows "\<exists>e w. tr_admin (fst y) \<noteq> None \<and> tr_epoch_start (fst y) = Some e \<and>
    tr_epoch_withdrawn (fst y) = Some w \<and> 0 < get_withdrawal_cap (fst y) \<and>
    get_withdrawal_cap (fst y) \<le> cap \<and> tr_limited cap (payments Regular ws) now e w"
  using assms
proof (induction rule: tr_run.induct)
  case (tr_here x t)
  then show ?case by (auto simp: tr_limited_def)
next
  case (tr_more t x ws u y env ws' z)
  then obtain e w where y: "tr_admin (fst y) \<noteq> None" "tr_epoch_start (fst y) = Some e"
      "tr_epoch_withdrawn (fst y) = Some w" "0 < get_withdrawal_cap (fst y)" "get_withdrawal_cap (fst y) \<le> cap"
      "tr_limited cap (payments Regular ws) u e w" by blast
  have step: "tr_step T env ws' (fst y, snd y) (fst z, snd z)" using tr_more.hyps(3) by simp
  have s: "tr_admin (fst z) \<noteq> None \<and>
    (payments Regular ws' = [] \<and> tr_epoch_start (fst z) = Some e \<and> tr_epoch_withdrawn (fst z) = Some w \<or>
     (\<exists>x. payments Regular ws' = [(timestamp env, x)] \<and> 0 < x \<and>
        (if epoch_over e (timestamp env)
         then tr_epoch_start (fst z) = Some (timestamp env) \<and> tr_epoch_withdrawn (fst z) = Some x \<and> x \<le> cap
         else tr_epoch_start (fst z) = Some e \<and> tr_epoch_withdrawn (fst z) = Some (w + x) \<and> w + x \<le> cap)))"
    using tr_step_counters [OF step y(2,3,1) refl] y(4,5) by fastforce
  show ?case
  proof (cases "payments Regular ws' = []")
    case True
    with s y(6) tr_more.hyps(2,4,5) show ?thesis by (auto intro: tr_limited_later)
  next
    case False
    with s obtain a where "payments Regular ws' = [(timestamp env, a)]" "0 < a" by blast
    with s y(6) tr_more.hyps(2,4,5) show ?thesis
      by (auto split: if_splits intro: tr_limited_same_epoch tr_limited_new_epoch)
  qed
qed

section \<open>What the calls change\<close>

lemma withdraw_effect:
  assumes "tr_withdraw T env a token r x (s, tk) = Ok (s', tk')"
  shows "authorised env a \<and> tr_admin s = Some a \<and> 0 < x \<and> x \<le> MAX_AMOUNT \<and>
    tr_whitelisted s token = Some True \<and> x \<le> tk_balance T token (self env) tk \<and>
    token_transfer T env token (self env) r x tk = Ok tk' \<and>
    tr_admin s' = tr_admin s \<and> tr_fee_bps s' = tr_fee_bps s \<and> tr_whitelisted s' = tr_whitelisted s \<and>
    tr_collected s' = (case tr_collected s token of None \<Rightarrow> tr_collected s
      | Some c \<Rightarrow> (tr_collected s)(token \<mapsto> saturating_sub c x))"
  using assms
  by (auto simp: tr_withdraw_def with_guard_eq_Ok Let_def tr_append_eq_Ok record_withdrawal_def
      enforce_rate_limit_def split: option.splits if_splits prod.splits)

lemma tr_step_cap:
  assumes "tr_step T env ws (s, tk) (s', tk')" "tr_withdrawal_cap s' \<noteq> tr_withdrawal_cap s" "tr_admin s \<noteq> None"
  shows "\<exists>a. execute_withdrawal_cap env a s = Ok s'"
  using assms
proof (cases rule: tr_step.cases)
  case (5 a token r x)
  with assms(2) show ?thesis
    by (auto simp: tr_withdraw_def with_guard_eq_Ok Let_def tr_append_eq_Ok record_withdrawal_def
        enforce_rate_limit_def split: option.splits if_splits prod.splits)
qed (auto simp: tr_initialize_def set_fee_bps_def whitelist_token_def collect_fee_def
    emergency_withdraw_def propose_withdrawal_cap_def
    tr_propose_upgrade_def tr_execute_upgrade_def Let_def tr_append_eq_Ok with_guard_eq_Ok
    split: if_splits)

section \<open>Properties\<close>

text \<open>A treasury for the witnesses, with a cap of 100 and a balance of 1000 of token 50.\<close>

definition tr_demo :: tr_state where
  "tr_demo = tr_empty\<lparr>tr_admin := Some 1, tr_fee_bps := Some 50, tr_whitelisted := [50 \<mapsto> True],
     tr_withdrawal_cap := Some 100, tr_epoch_start := Some 0, tr_epoch_withdrawn := Some 0\<rparr>"

definition tr_demo_tokens :: "Address \<Rightarrow> Address \<Rightarrow> i128" where
  "tr_demo_tokens = (\<lambda>_ a. if a = 600 then 1000 else 0)"

lemmas tr_eval =
  tr_demo_def tr_demo_tokens_def tr_empty_def tr_withdraw_def emergency_withdraw_def
  tr_append_audit_entry_def execute_withdrawal_cap_def
  enforce_rate_limit_def record_withdrawal_def tr_require_admin_def tr_require_whitelisted_token_def
  with_guard_def acquire_guard_def release_guard_def audit_append_def empty_log_def Let_def add_u64_def
  U64_MAX_def MAX_AUDIT_LOG_SIZE_def require_within_max_amount_def MAX_AMOUNT_def EPOCH_DURATION_def
  checked_add_def saturating_add_def clamp_i128_def token_transfer_def plain_token_def
  authorised_def open_env_def subcall_def require_auth_def in_i128_def I128_MAX_def I128_MIN_def
  get_withdrawal_cap_def timelock_elapsed_def UPGRADE_TIMELOCK_DELAY_def

lemma tr_demo_withdraws:
  "\<exists>x1 x2. tr_withdraw plain_token (open_env 600 86399) 1 50 9 100 (tr_demo, tr_demo_tokens) = Ok x1 \<and>
     tr_withdraw plain_token (open_env 600 86400) 1 50 9 100 x1 = Ok x2 \<and>
     get_withdrawal_cap (fst x1) = 100 \<and> get_withdrawal_cap (fst x2) = 100"
  by (simp add: tr_eval cong: andThen_weak_cong del: andThen_eq_Ok)

lemma tr_demo_run:
  "\<exists>y. tr_run plain_token 100 0 (tr_demo, tr_demo_tokens) [(Regular, 86399, 100), (Regular, 86400, 100)] 86400 y"
proof -
  obtain x1 x2 where x:
      "tr_withdraw plain_token (open_env 600 86399) 1 50 9 100 (tr_demo, tr_demo_tokens) = Ok x1"
      "tr_withdraw plain_token (open_env 600 86400) 1 50 9 100 x1 = Ok x2"
      "get_withdrawal_cap (fst x1) = 100" "get_withdrawal_cap (fst x2) = 100"
    using tr_demo_withdraws by blast
  have "tr_step plain_token (open_env 600 86399) [(Regular, timestamp (open_env 600 86399), 100)]
      (tr_demo, tr_demo_tokens) (fst x1, snd x1)"
    "tr_step plain_token (open_env 600 86400) [(Regular, timestamp (open_env 600 86400), 100)]
      (fst x1, snd x1) (fst x2, snd x2)"
    by (rule tr_step.intros(5) [of _ _ 1 50 9], simp only: prod.collapse x(1,2))+
  from tr_more [OF tr_more [OF tr_here _ this(1)] _ this(2), of 100 0] x(3,4)
  have "tr_run plain_token 100 0 (tr_demo, tr_demo_tokens) [(Regular, 86399, 100), (Regular, 86400, 100)] 86400 x2"
    by (simp add: tr_demo_def get_withdrawal_cap_def)
  then show ?thesis ..
qed

text \<open>
  C9: the rate limit of \<open>withdraw\<close>. Along every run of an initialised treasury during which a positive cap of
  at most \<open>cap\<close> is set (it may change by the timelocked calls), what \<open>withdraw\<close> pays out in the current
  epoch adds up to at most \<open>cap\<close>, and what it pays out in any window of \<open>EPOCH_DURATION\<close> seconds to at
  most \<open>2 * cap\<close>. The bound is about \<open>withdraw\<close> alone: an \<open>emergency_withdraw\<close> in the same run pays out
  the whole balance and is neither limited nor counted.
\<close>

theorem withdrawals_rate_limited:
  assumes "tr_run T cap t0 (s0, tk0) ws now (s, tk)" "tr_admin s0 \<noteq> None"
    "tr_epoch_start s0 = Some e0" "e0 \<le> t0" "tr_epoch_withdrawn s0 = Some w0" "0 \<le> w0"
  shows "(\<exists>e. tr_epoch_start s = Some e \<and> taken (\<lambda>t. e \<le> t) (payments Regular ws) \<le> cap) \<and>
    taken (\<lambda>t. from \<le> t \<and> t < from + EPOCH_DURATION) (payments Regular ws) \<le> 2 * cap"
proof -
  obtain e w where "tr_epoch_start s = Some e" "tr_limited cap (payments Regular ws) now e w"
    using tr_run_limited [OF assms(1), of e0 w0] assms(2-6) by auto
  then show ?thesis by (auto simp: tr_limited_def)
qed

theorem withdrawals_rate_limited_witness:
  "\<exists>y ws. tr_run plain_token 100 0 (tr_demo, tr_demo_tokens) ws 86400 y \<and>
     taken (\<lambda>t. 86399 \<le> t \<and> t < 86399 + EPOCH_DURATION) (payments Regular ws) = 200 \<and>
     taken (\<lambda>t. 86399 \<le> t \<and> t < 86399 + EPOCH_DURATION) (payments Regular ws) \<le> 2 * 100"
proof -
  let ?ws = "[(Regular, 86399::nat, 100::int), (Regular, 86400, 100)]"
  obtain s tk where y: "tr_run plain_token 100 0 (tr_demo, tr_demo_tokens) ?ws 86400 (s, tk)"
    using tr_demo_run by auto
  have "taken (\<lambda>t. 86399 \<le> t \<and> t < 86399 + EPOCH_DURATION) (payments Regular ?ws) \<le> 2 * 100"
    using withdrawals_rate_limited [OF y, of 0 0 86399] by (simp add: tr_demo_def)
  moreover have "taken (\<lambda>t. 86399 \<le> t \<and> t < 86399 + EPOCH_DURATION) (payments Regular ?ws) = 200"
    by (simp add: taken_def payments_def EPOCH_DURATION_def)
  ultimately show ?thesis using y by blast
qed

text \<open>
  A withdrawal moves exactly the amount asked for. With a SEP-41 token, only the admin can make
  it, for a whitelisted token and a positive amount that the treasury holds; the treasury's balance
  falls by the amount, the recipient's rises by it, no other balance changes, and the fee rate, the
  admin and the whitelist stay.
\<close>

theorem withdraw_moves_amount:
  assumes "sep41 T" "tr_withdraw T env a token r x (s, tk) = Ok (s', tk')" "r \<noteq> self env"
  shows "authorised env a \<and> tr_get_admin s = Ok a \<and> tr_whitelisted s token = Some True \<and>
    0 < x \<and> x \<le> get_balance T env token tk \<and>
    get_balance T env token tk' = get_balance T env token tk - x \<and>
    tk_balance T token r tk' = tk_balance T token r tk + x \<and>
    (\<forall>token' b. (token', b) \<notin> {(token, r), (token, self env)} \<longrightarrow>
       tk_balance T token' b tk' = tk_balance T token' b tk) \<and>
    get_fee_bps s' = get_fee_bps s \<and> tr_admin s' = tr_admin s \<and> tr_whitelisted s' = tr_whitelisted s"
proof -
  note w = withdraw_effect [OF assms(2)]
  then have tt: "token_transfer T env token (self env) r x tk = Ok tk'" by simp
  from w sep41_transfer(3) [OF assms(1) tt] assms(3) show ?thesis
    by (auto simp: tr_get_admin_def get_balance_def get_fee_bps_def)
qed

theorem withdraw_moves_amount_witness:
  "\<exists>s' tk'. tr_withdraw plain_token (open_env 600 86399) 1 50 9 100 (tr_demo, tr_demo_tokens) = Ok (s', tk') \<and>
     tk' 50 600 = 900 \<and> tk' 50 9 = 100"
proof -
  obtain s' tk' where x:
      "tr_withdraw plain_token (open_env 600 86399) 1 50 9 100 (tr_demo, tr_demo_tokens) = Ok (s', tk')"
    using tr_demo_withdraws by auto
  from withdraw_moves_amount [OF sep41_plain_token x] x show ?thesis
    by (simp add: get_balance_def plain_token_def tr_demo_tokens_def)
qed

text \<open>
  The cap changes only by \<open>execute_withdrawal_cap\<close>, by the admin, to the value of a proposal that
  is at least \<open>UPGRADE_TIMELOCK_DELAY\<close> seconds old, which is consumed.
\<close>

theorem cap_change_timelocked:
  assumes "tr_step T env ws (s, tk) (s', tk')" "tr_withdrawal_cap s' \<noteq> tr_withdrawal_cap s"
    "tr_admin s \<noteq> None"
  shows "\<exists>a c t. tr_admin s = Some a \<and> authorised env a \<and> tr_cap_proposal s = Some (c, t) \<and>
    t + UPGRADE_TIMELOCK_DELAY \<le> timestamp env \<and> get_withdrawal_cap s' = c \<and> tr_cap_proposal s' = None"
  using tr_step_cap [OF assms]
  by (auto simp: execute_withdrawal_cap_def Let_def tr_append_eq_Ok get_withdrawal_cap_def)

theorem cap_change_timelocked_witness:
  "\<exists>s'. tr_step plain_token (open_env 600 86410) [] (tr_demo\<lparr>tr_cap_proposal := Some (70, 10)\<rparr>, tr_demo_tokens)
      (s', tr_demo_tokens) \<and> get_withdrawal_cap s' = 70"
proof -
  let ?s = "tr_demo\<lparr>tr_cap_proposal := Some (70, 10)\<rparr>"
  have "\<exists>s'. execute_withdrawal_cap (open_env 600 86410) 1 ?s = Ok s' \<and> tr_withdrawal_cap s' \<noteq> tr_withdrawal_cap ?s"
    by (simp add: tr_eval cong: andThen_weak_cong del: andThen_eq_Ok)
  then obtain s' where s': "execute_withdrawal_cap (open_env 600 86410) 1 ?s = Ok s'"
    "tr_withdrawal_cap s' \<noteq> tr_withdrawal_cap ?s" by blast
  from cap_change_timelocked [OF tr_step.intros(8) [where T = plain_token, OF s'(1)] s'(2)]
    tr_step.intros(8) [where T = plain_token and tk = tr_demo_tokens, OF s'(1)]
  show ?thesis by (auto simp: tr_demo_def)
qed

text \<open>
  The emergency withdrawal is not subject to the cap. For any cap, the admin's call on a
  whitelisted token with a positive balance, if it succeeds, moves the whole balance, and it
  changes neither the epoch nor its counter.
\<close>

theorem emergency_withdraw_ignores_cap:
  assumes "sep41 T" "emergency_withdraw T env a token r (s, tk) = Ok (s', tk')"
    "0 < get_balance T env token tk" "r \<noteq> self env"
  shows "get_balance T env token tk' = 0 \<and>
    tk_balance T token r tk' = tk_balance T token r tk + get_balance T env token tk \<and>
    tr_epoch_start s' = tr_epoch_start s \<and> tr_epoch_withdrawn s' = tr_epoch_withdrawn s"
proof -
  from assms(2,3) have tt: "token_transfer T env token (self env) r (get_balance T env token tk) tk = Ok tk'"
      "tr_epoch_start s' = tr_epoch_start s" "tr_epoch_withdrawn s' = tr_epoch_withdrawn s"
    by (auto simp: emergency_withdraw_def get_balance_def with_guard_eq_Ok Let_def tr_append_eq_Ok)
  with sep41_transfer(3) [OF assms(1) tt(1)] assms(4) show ?thesis by (simp add: get_balance_def)
qed

theorem emergency_withdraw_ignores_cap_witness:
  "\<exists>s' tk'. emergency_withdraw plain_token (open_env 600 5) 1 50 9 (tr_demo, tr_demo_tokens) = Ok (s', tk') \<and>
     get_withdrawal_cap tr_demo = 100 \<and> tk' 50 9 = 1000"
proof -
  have "\<exists>x. emergency_withdraw plain_token (open_env 600 5) 1 50 9 (tr_demo, tr_demo_tokens) = Ok x"
    by (simp add: tr_eval cong: andThen_weak_cong del: andThen_eq_Ok)
  then obtain s' tk' where x:
      "emergency_withdraw plain_token (open_env 600 5) 1 50 9 (tr_demo, tr_demo_tokens) = Ok (s', tk')"
    by auto
  from emergency_withdraw_ignores_cap [OF sep41_plain_token x] x show ?thesis
    by (simp add: get_balance_def plain_token_def tr_demo_tokens_def tr_demo_def get_withdrawal_cap_def)
qed

end
