(* ===== verification/Risk_Registry.thy ===== *)
theory Risk_Registry
  imports Audit_Log Shared_Reentrancy Upgrade_Timelock Token_Interface
begin

text \<open>
  The risk registry (\<^verbatim>\<open>contracts/risk_registry/src/lib.rs\<close>): verifiers with a stake and a
  reputation, SME profiles, debtor scores with a cooldown, defaults that slash the verifier's
  stake, the audit log and the upgrade.

  \<open>rr_state\<close> has one field per storage key. The two operations that move stakes take the token
  host (\<^verbatim>\<open>Token_Interface\<close>) and the state of the tokens. The second half of the theory proves
  the invariants of the scores, that recorded stakes are backed by the contract's balance, that
  the history of an SME is never erased, and that the cooldown of debtor scores holds along every
  run.
\<close>

section \<open>State\<close>

definition MIN_SCORE_UPDATE_INTERVAL :: u64 where "MIN_SCORE_UPDATE_INTERVAL = 3600"

record rr_state =
  rr_admin :: "Address option"
  rr_invoice_nft :: "Address option"
  rr_staking_token :: "Address option"
  rr_minimum_stake :: "i128 option"
  rr_slash_percentage :: "u32 option"
  rr_verifier :: "Address \<rightharpoonup> bool"
  rr_stake :: "Address \<rightharpoonup> i128"
  rr_reputation :: "Address \<rightharpoonup> u32"
  rr_sme :: "Address \<rightharpoonup> SmeProfile"
  rr_debtor_score :: "Bytes \<rightharpoonup> u32"
  rr_score_last_update :: "Address \<times> Bytes \<rightharpoonup> u64"
  rr_upgrade_proposal :: "(BytesN32 \<times> u64) option"
  rr_audit :: audit_log
  rr_lock :: bool
  rr_code :: "BytesN32 option"
  rr_events :: "event list"

definition rr_empty :: rr_state where
  "rr_empty = \<lparr>rr_admin = None, rr_invoice_nft = None, rr_staking_token = None,
     rr_minimum_stake = None, rr_slash_percentage = None, rr_verifier = Map.empty,
     rr_stake = Map.empty, rr_reputation = Map.empty, rr_sme = Map.empty,
     rr_debtor_score = Map.empty, rr_score_last_update = Map.empty, rr_upgrade_proposal = None,
     rr_audit = empty_log, rr_lock = False, rr_code = None, rr_events = []\<rparr>"

abbreviation rr_emit :: "event \<Rightarrow> rr_state \<Rightarrow> rr_state" where
  "rr_emit e s \<equiv> s\<lparr>rr_events := rr_events s @ [e]\<rparr>"

abbreviation rr_put_lock :: "bool \<Rightarrow> rr_state \<Rightarrow> rr_state" where
  "rr_put_lock b s \<equiv> s\<lparr>rr_lock := b\<rparr>"

section \<open>Helpers\<close>

definition rr_require_admin :: "rr_state \<Rightarrow> Address \<Rightarrow> unit res" where
  "rr_require_admin s caller =
     andThen (ok_or (rr_admin s) NotInitialized) (\<lambda>admin.
     if admin \<noteq> caller then Err NotAdmin else Ok ())"

definition rr_require_verifier :: "rr_state \<Rightarrow> Address \<Rightarrow> unit res" where
  "rr_require_verifier s caller =
     (if \<not> unwrap_or (rr_verifier s caller) False then Err NotVerifier else Ok ())"

definition rr_require_invoice_nft :: "rr_state \<Rightarrow> Address \<Rightarrow> unit res" where
  "rr_require_invoice_nft s caller =
     andThen (ok_or (rr_invoice_nft s) NotInitialized) (\<lambda>invoice_nft.
     if invoice_nft \<noteq> caller then Err Unauthorized else Ok ())"

definition rr_append_audit_entry :: "env \<Rightarrow> Address \<Rightarrow> AdminActionType \<Rightarrow> rr_state \<Rightarrow> rr_state res" where
  "rr_append_audit_entry env actor action s =
     andThen (audit_append RiskRegistry env actor action (rr_audit s)) (\<lambda>(entry, l).
     Ok (rr_emit (admin_action_audited env entry) (s\<lparr>rr_audit := l\<rparr>)))"

definition rr_get_audit_log :: "rr_state \<Rightarrow> u32 \<Rightarrow> u32 \<Rightarrow> AdminAuditEntry list res" where
  "rr_get_audit_log s page page_size = audit_page (rr_audit s) page page_size"

section \<open>Initialisation and verifiers\<close>

definition rr_initialize ::
    "env \<Rightarrow> Address \<Rightarrow> Address \<Rightarrow> Address \<Rightarrow> i128 \<Rightarrow> u32 \<Rightarrow> rr_state \<Rightarrow> rr_state res" where
  "rr_initialize env admin invoice_nft staking_token minimum_stake slash_percentage_bps s =
     (if rr_admin s \<noteq> None then Err AlreadyInitialized else
      andThen (require_not_self env admin) (\<lambda>_.
      let s = s\<lparr>rr_admin := Some admin, rr_invoice_nft := Some invoice_nft,
                rr_staking_token := Some staking_token, rr_minimum_stake := Some minimum_stake,
                rr_slash_percentage := Some slash_percentage_bps\<rparr>
      in Ok (rr_emit (registry_initialized env admin invoice_nft) s)))"

definition rr_transfer_admin :: "env \<Rightarrow> Address \<Rightarrow> Address \<Rightarrow> rr_state \<Rightarrow> rr_state res" where
  "rr_transfer_admin env admin new_admin s =
     andThen (require_auth env admin) (\<lambda>_.
     andThen (rr_require_admin s admin) (\<lambda>_.
     let s = s\<lparr>rr_admin := Some new_admin\<rparr>;
         s = rr_emit (admin_transferred env admin new_admin) s
     in rr_append_audit_entry env admin RegistryTransferAdmin s))"

definition add_verifier ::
    "'tk token_api \<Rightarrow> env \<Rightarrow> Address \<Rightarrow> Address \<Rightarrow> i128 \<Rightarrow> rr_state \<times> 'tk \<Rightarrow> (rr_state \<times> 'tk) res" where
  "add_verifier T env admin verifier stake_amount = (\<lambda>(s, tk).
     andThen (require_auth env admin) (\<lambda>_.
     andThen (rr_require_admin s admin) (\<lambda>_.
     andThen (require_not_self env verifier) (\<lambda>_.
     andThen (ok_or (rr_minimum_stake s) NotInitialized) (\<lambda>minimum_stake.
     if stake_amount < minimum_stake then Err InsufficientFunds else
     andThen (ok_or (rr_staking_token s) NotInitialized) (\<lambda>token_addr.
     andThen (token_transfer T env token_addr verifier (self env) stake_amount tk) (\<lambda>tk.
     let s = s\<lparr>rr_verifier := (rr_verifier s)(verifier \<mapsto> True),
               rr_stake := (rr_stake s)(verifier \<mapsto> stake_amount),
               rr_reputation := (rr_reputation s)(verifier \<mapsto> 100)\<rparr>;
         s = rr_emit (verifier_added env admin verifier) s
     in andThen (rr_append_audit_entry env admin AddVerifier s) (\<lambda>s.
     Ok (s, tk)))))))))"

definition remove_verifier ::
    "'tk token_api \<Rightarrow> env \<Rightarrow> Address \<Rightarrow> Address \<Rightarrow> rr_state \<times> 'tk \<Rightarrow> (rr_state \<times> 'tk) res" where
  "remove_verifier T env admin verifier = (\<lambda>(s, tk).
     andThen (require_auth env admin) (\<lambda>_.
     andThen (rr_require_admin s admin) (\<lambda>_.
     if \<not> unwrap_or (rr_verifier s verifier) False then Err NotVerifier else
     let stake = unwrap_or (rr_stake s verifier) 0 in
     andThen (if stake > 0 then
                andThen (ok_or (rr_staking_token s) NotInitialized) (\<lambda>token_addr.
                token_transfer T env token_addr (self env) verifier stake tk)
              else Ok tk) (\<lambda>tk.
     let s = s\<lparr>rr_verifier := (rr_verifier s)(verifier := None),
               rr_stake := (rr_stake s)(verifier := None),
               rr_reputation := (rr_reputation s)(verifier := None)\<rparr>;
         s = rr_emit (verifier_removed env admin verifier) s
     in andThen (rr_append_audit_entry env admin RemoveVerifier s) (\<lambda>s.
     Ok (s, tk))))))"

section \<open>SME profiles\<close>

definition register_sme ::
    "env \<Rightarrow> Address \<Rightarrow> Address \<Rightarrow> u32 \<Rightarrow> bool \<Rightarrow> rr_state \<Rightarrow> rr_state res" where
  "register_sme env verifier sme risk_score compliance_attested s =
     andThen (require_auth env verifier) (\<lambda>_.
     andThen (rr_require_verifier s verifier) (\<lambda>_.
     andThen (require_valid_risk_score risk_score) (\<lambda>_.
     if rr_sme s sme \<noteq> None then Err AlreadyInitialized else
     let profile = \<lparr>sme_address = sme, sme_verified = True, sme_verifier = verifier,
           sme_risk_score = risk_score, sme_total_invoices = 0, sme_defaults = 0,
           sme_registered_at = timestamp env, sme_compliance_attested = compliance_attested,
           sme_credit_limit = 0\<rparr>;
         s = s\<lparr>rr_sme := (rr_sme s)(sme \<mapsto> profile)\<rparr>
     in Ok (rr_emit (sme_registered env verifier sme risk_score) s))))"

definition update_sme_score :: "env \<Rightarrow> Address \<Rightarrow> Address \<Rightarrow> u32 \<Rightarrow> rr_state \<Rightarrow> rr_state res" where
  "update_sme_score env verifier sme new_score s =
     andThen (require_auth env verifier) (\<lambda>_.
     andThen (rr_require_verifier s verifier) (\<lambda>_.
     andThen (require_valid_risk_score new_score) (\<lambda>_.
     with_guard rr_lock rr_put_lock (\<lambda>s.
       andThen (ok_or (rr_sme s sme) SMENotRegistered) (\<lambda>profile.
       let profile = profile\<lparr>sme_risk_score := new_score\<rparr>;
           s = s\<lparr>rr_sme := (rr_sme s)(sme \<mapsto> profile)\<rparr>
       in Ok (rr_emit (sme_score_updated env verifier sme new_score) s))) s)))"

definition set_credit_limit :: "env \<Rightarrow> Address \<Rightarrow> Address \<Rightarrow> i128 \<Rightarrow> rr_state \<Rightarrow> rr_state res" where
  "set_credit_limit env verifier sme credit_limit s =
     andThen (require_auth env verifier) (\<lambda>_.
     andThen (rr_require_verifier s verifier) (\<lambda>_.
     if credit_limit < 0 then Err InvalidAmount else
     andThen (ok_or (rr_sme s sme) SMENotRegistered) (\<lambda>profile.
     let profile = profile\<lparr>sme_credit_limit := credit_limit\<rparr>;
         s = s\<lparr>rr_sme := (rr_sme s)(sme \<mapsto> profile)\<rparr>
     in Ok (rr_emit (sme_credit_limit_set env verifier sme credit_limit) s))))"

definition increment_invoice_count :: "env \<Rightarrow> Address \<Rightarrow> Address \<Rightarrow> rr_state \<Rightarrow> rr_state res" where
  "increment_invoice_count env caller sme s =
     andThen (require_auth env caller) (\<lambda>_.
     andThen (rr_require_invoice_nft s caller) (\<lambda>_.
     andThen (ok_or (rr_sme s sme) SMENotRegistered) (\<lambda>profile.
     andThen (ok_or (checked_add_u32 (sme_total_invoices profile) 1) ArithmeticOverflow) (\<lambda>n.
     let profile = profile\<lparr>sme_total_invoices := n\<rparr>;
         s = s\<lparr>rr_sme := (rr_sme s)(sme \<mapsto> profile)\<rparr>
     in Ok (rr_emit (sme_invoice_count_incremented env sme (sme_total_invoices profile)) s)))))"

text \<open>The block of \<open>record_default\<close> that reduces the stake of the verifier. The amount slashed is
  computed in \<open>u128\<close>, whose multiplication traps on overflow.\<close>

definition rr_slash_stake :: "Address \<Rightarrow> u32 \<Rightarrow> rr_state \<Rightarrow> rr_state res" where
  "rr_slash_stake verifier slash_percentage s =
     (let current_stake = unwrap_or (rr_stake s verifier) 0 in
      if current_stake > 0 then
        andThen (mul_u128 (as_u128 current_stake) slash_percentage) (\<lambda>product.
        let slash_amount = as_i128 (product div 10000) in
        andThen (ok_or (checked_sub current_stake slash_amount) ArithmeticUnderflow) (\<lambda>remaining_stake.
        Ok (s\<lparr>rr_stake := (rr_stake s)(verifier \<mapsto> remaining_stake)\<rparr>)))
      else Ok s)"

text \<open>\<open>saturating_sub(10)\<close> on the reputation is subtraction on natural numbers.\<close>

definition record_default :: "env \<Rightarrow> Address \<Rightarrow> Address \<Rightarrow> rr_state \<Rightarrow> rr_state res" where
  "record_default env admin sme s =
     andThen (require_auth env admin) (\<lambda>_.
     andThen (rr_require_admin s admin) (\<lambda>_.
     with_guard rr_lock rr_put_lock (\<lambda>s.
       andThen (ok_or (rr_sme s sme) SMENotRegistered) (\<lambda>profile.
       andThen (ok_or (checked_add_u32 (sme_defaults profile) 1) ArithmeticOverflow) (\<lambda>defaults.
       let profile = profile\<lparr>sme_defaults := defaults\<rparr>;
           verifier = sme_verifier profile in
       andThen (ok_or (rr_slash_percentage s) NotInitialized) (\<lambda>slash_percentage.
       andThen (rr_slash_stake verifier slash_percentage s) (\<lambda>s.
       let current_reputation = unwrap_or (rr_reputation s verifier) 100;
           new_reputation = current_reputation - 10;
           s = s\<lparr>rr_reputation := (rr_reputation s)(verifier \<mapsto> new_reputation)\<rparr>;
           s = s\<lparr>rr_sme := (rr_sme s)(sme \<mapsto> profile)\<rparr>;
           s = rr_emit (sme_default_recorded env admin sme (sme_defaults profile)) s
       in rr_append_audit_entry env admin RecordDefault s))))) s))"

section \<open>Debtor scores\<close>

definition set_debtor_score :: "env \<Rightarrow> Address \<Rightarrow> Bytes \<Rightarrow> u32 \<Rightarrow> rr_state \<Rightarrow> rr_state res" where
  "set_debtor_score env verifier debtor_hash score s =
     andThen (require_auth env verifier) (\<lambda>_.
     andThen (rr_require_verifier s verifier) (\<lambda>_.
     andThen (require_exact_length debtor_hash 32) (\<lambda>_.
     andThen (require_valid_risk_score score) (\<lambda>_.
     andThen (case rr_score_last_update s (verifier, debtor_hash) of
                None \<Rightarrow> Ok ()
              | Some last_update \<Rightarrow>
                  andThen (ok_or (checked_add_u64 last_update MIN_SCORE_UPDATE_INTERVAL)
                             ArithmeticOverflow) (\<lambda>next_allowed.
                  if timestamp env < next_allowed then Err ScoreUpdateCooldownNotElapsed
                  else Ok ())) (\<lambda>_.
     let s = s\<lparr>rr_debtor_score := (rr_debtor_score s)(debtor_hash \<mapsto> score)\<rparr>;
         s = s\<lparr>rr_score_last_update :=
                 (rr_score_last_update s)((verifier, debtor_hash) \<mapsto> timestamp env)\<rparr>
     in Ok (rr_emit (debtor_score_set env verifier debtor_hash score) s))))))"

section \<open>Views\<close>

definition get_sme_profile :: "rr_state \<Rightarrow> Address \<Rightarrow> SmeProfile res" where
  "get_sme_profile s sme = ok_or (rr_sme s sme) SMENotRegistered"

definition is_verified_sme :: "rr_state \<Rightarrow> Address \<Rightarrow> bool" where
  "is_verified_sme s sme = unwrap_or (map_option sme_verified (rr_sme s sme)) False"

definition is_compliance_attested :: "rr_state \<Rightarrow> Address \<Rightarrow> bool" where
  "is_compliance_attested s sme = unwrap_or (map_option sme_compliance_attested (rr_sme s sme)) False"

definition get_verifier_stake :: "rr_state \<Rightarrow> Address \<Rightarrow> i128" where
  "get_verifier_stake s verifier = unwrap_or (rr_stake s verifier) 0"

definition get_verifier_reputation :: "rr_state \<Rightarrow> Address \<Rightarrow> u32" where
  "get_verifier_reputation s verifier = unwrap_or (rr_reputation s verifier) 0"

definition is_verifier :: "rr_state \<Rightarrow> Address \<Rightarrow> bool" where
  "is_verifier s verifier = unwrap_or (rr_verifier s verifier) False"

definition get_debtor_score :: "rr_state \<Rightarrow> Bytes \<Rightarrow> u32 res" where
  "get_debtor_score s debtor_hash = ok_or (rr_debtor_score s debtor_hash) DebtorNotRegistered"

definition rr_get_admin :: "rr_state \<Rightarrow> Address res" where
  "rr_get_admin s = ok_or (rr_admin s) NotInitialized"

section \<open>Upgrade\<close>

definition rr_propose_upgrade :: "env \<Rightarrow> Address \<Rightarrow> BytesN32 \<Rightarrow> rr_state \<Rightarrow> rr_state res" where
  "rr_propose_upgrade env admin new_wasm_hash s =
     andThen (require_auth env admin) (\<lambda>_.
     andThen (rr_require_admin s admin) (\<lambda>_.
     let s = s\<lparr>rr_upgrade_proposal := Some (new_wasm_hash, timestamp env)\<rparr>;
         s = rr_emit (upgrade_proposed env admin new_wasm_hash) s
     in rr_append_audit_entry env admin RegistryProposeUpgrade s))"

definition rr_execute_upgrade :: "env \<Rightarrow> Address \<Rightarrow> rr_state \<Rightarrow> rr_state res" where
  "rr_execute_upgrade env admin s =
     andThen (require_auth env admin) (\<lambda>_.
     andThen (rr_require_admin s admin) (\<lambda>_.
     andThen (ok_or (rr_upgrade_proposal s) NoUpgradeProposed) (\<lambda>(wasm_hash, proposed_at).
     andThen (timelock_elapsed env proposed_at UpgradeTimelockNotElapsed) (\<lambda>_.
     let s = s\<lparr>rr_upgrade_proposal := None\<rparr>;
         s = rr_emit (upgrade_executed env admin wasm_hash) s
     in andThen (rr_append_audit_entry env admin RegistryExecuteUpgrade s) (\<lambda>s.
     Ok (s\<lparr>rr_code := Some wasm_hash\<rparr>))))))"

section \<open>Entry points as steps\<close>

lemmas rr_op_defs =
  rr_initialize_def rr_transfer_admin_def add_verifier_def remove_verifier_def register_sme_def
  update_sme_score_def set_credit_limit_def increment_invoice_count_def record_default_def
  set_debtor_score_def rr_propose_upgrade_def rr_execute_upgrade_def

text \<open>
  A step is a successful call, made in environment \<open>env\<close>, with arguments of their Rust types. The
  last rule lets any other contract move tokens, as long as it takes none of the registry's own:
  only the registry can authorise that.
\<close>

inductive rr_step :: "'tk token_api \<Rightarrow> env \<Rightarrow> rr_state \<times> 'tk \<Rightarrow> rr_state \<times> 'tk \<Rightarrow> bool"
  for T :: "'tk token_api" and env :: env where
  "rr_initialize env a nft token m n s = Ok s' \<Longrightarrow> rr_step T env (s, tk) (s', tk)"
| "rr_transfer_admin env a b s = Ok s' \<Longrightarrow> rr_step T env (s, tk) (s', tk)"
| "add_verifier T env a v x st = Ok st' \<Longrightarrow> in_i128 x \<Longrightarrow> rr_step T env st st'"
| "remove_verifier T env a v st = Ok st' \<Longrightarrow> rr_step T env st st'"
| "register_sme env v sme n b s = Ok s' \<Longrightarrow> rr_step T env (s, tk) (s', tk)"
| "update_sme_score env v sme n s = Ok s' \<Longrightarrow> rr_step T env (s, tk) (s', tk)"
| "set_credit_limit env v sme x s = Ok s' \<Longrightarrow> rr_step T env (s, tk) (s', tk)"
| "increment_invoice_count env a sme s = Ok s' \<Longrightarrow> rr_step T env (s, tk) (s', tk)"
| "record_default env a sme s = Ok s' \<Longrightarrow> rr_step T env (s, tk) (s', tk)"
| "set_debtor_score env v h n s = Ok s' \<Longrightarrow> rr_step T env (s, tk) (s', tk)"
| "rr_propose_upgrade env a w s = Ok s' \<Longrightarrow> rr_step T env (s, tk) (s', tk)"
| "rr_execute_upgrade env a s = Ok s' \<Longrightarrow> rr_step T env (s, tk) (s', tk)"
| "(\<And>token. tk_balance T token (self env) tk \<le> tk_balance T token (self env) tk') \<Longrightarrow>
     rr_step T env (s, tk) (s, tk')"

text \<open>A run of the contract at address \<open>c\<close>, with the ledger time it starts and ends at.\<close>

inductive rr_run ::
    "'tk token_api \<Rightarrow> Address \<Rightarrow> u64 \<Rightarrow> rr_state \<times> 'tk \<Rightarrow> u64 \<Rightarrow> rr_state \<times> 'tk \<Rightarrow> bool"
  for T :: "'tk token_api" and c :: Address where
  rr_here: "rr_run T c t x t x"
| rr_more: "rr_run T c t x u y \<Longrightarrow> u \<le> timestamp env \<Longrightarrow> self env = c \<Longrightarrow> rr_step T env y z \<Longrightarrow>
     rr_run T c t x (timestamp env) z"

lemma rr_require_eq_Ok [simp, res_simps]:
  "rr_require_admin s a = Ok u \<longleftrightarrow> rr_admin s = Some a"
  "rr_require_verifier s a = Ok u \<longleftrightarrow> is_verifier s a"
  "rr_require_invoice_nft s a = Ok u \<longleftrightarrow> rr_invoice_nft s = Some a"
  by (auto simp: rr_require_admin_def rr_require_verifier_def rr_require_invoice_nft_def is_verifier_def)

lemma rr_append_eq_Ok:
  "rr_append_audit_entry env a act s = Ok s' \<longleftrightarrow>
     (\<exists>e l. audit_append RiskRegistry env a act (rr_audit s) = Ok (e, l) \<and>
            s' = rr_emit (admin_action_audited env e) (s\<lparr>rr_audit := l\<rparr>))"
  by (auto simp: rr_append_audit_entry_def)

lemmas rr_unfold = rr_op_defs Let_def rr_append_eq_Ok with_guard_eq_Ok

section \<open>Interfaces\<close>

interpretation rr_guard: lock_cell rr_lock rr_put_lock
  by unfold_locales simp_all

interpretation rr_log: audited rr_audit rr_append_audit_entry rr_get_audit_log RiskRegistry
  by unfold_locales (auto simp: rr_append_eq_Ok rr_get_audit_log_def)

interpretation rr_upgrade: timelocked_upgrade rr_admin rr_upgrade_proposal rr_code
    rr_propose_upgrade rr_execute_upgrade
  by unfold_locales
    (auto simp: rr_propose_upgrade_def rr_execute_upgrade_def rr_append_eq_Ok Let_def)

section \<open>What the calls that touch stakes change\<close>

lemma slash_amount_value:
  assumes "0 < x" "in_i128 x" "mul_u128 (as_u128 x) n = Ok p"
  shows "as_i128 (p div 10000) = x * int n div 10000" "0 \<le> x * int n div 10000"
proof -
  have x: "x < 2 ^ 127" using assms(2) by (simp add: in_i128_def I128_MAX_def)
  then have "as_u128 x = nat x" using assms(1) by (simp add: as_u128_def)
  with assms(3) have p: "p = nat x * n" "p < 2 ^ 128"
    by (simp_all add: mul_u128_def split: if_splits)
  then have "p div 10000 < 2 ^ 127" by (simp add: div_less_iff_less_mult)
  moreover have "int p = x * int n" using assms(1) p(1) by simp
  ultimately show "as_i128 (p div 10000) = x * int n div 10000"
    by (simp add: as_i128_def zdiv_int)
  show "0 \<le> x * int n div 10000" using assms(1) by (simp add: pos_imp_zdiv_nonneg_iff)
qed

lemma rr_slash_stake_eq_Ok:
  "rr_slash_stake v n s = Ok s' \<longleftrightarrow>
     (if 0 < get_verifier_stake s v
      then \<exists>r. mul_u128 (as_u128 (get_verifier_stake s v)) n = Ok r \<and>
        in_i128 (get_verifier_stake s v - as_i128 (r div 10000)) \<and>
        s' = s\<lparr>rr_stake := (rr_stake s)(v \<mapsto> get_verifier_stake s v - as_i128 (r div 10000))\<rparr>
      else s' = s)"
  by (auto simp: rr_slash_stake_def Let_def get_verifier_stake_def)

text \<open>The stake that \<open>record_default\<close> leaves.\<close>

definition slashed :: "u32 \<Rightarrow> i128 \<Rightarrow> i128" where
  "slashed n x = (if 0 < x then x - x * int n div 10000 else x)"

lemma slashed_le: "slashed n x \<le> x"
  by (simp add: slashed_def pos_imp_zdiv_nonneg_iff)

lemma slashed_nonneg: "n \<le> 10000 \<Longrightarrow> 0 \<le> x \<Longrightarrow> 0 \<le> slashed n x"
  using mul_div_le [of x "int n" 10000] by (simp add: slashed_def)

lemma rr_slash_stake_effect:
  assumes "rr_slash_stake v n s = Ok s'" "\<forall>v x. rr_stake s v = Some x \<longrightarrow> in_i128 x"
  shows "s' = s\<lparr>rr_stake := (case rr_stake s v of None \<Rightarrow> rr_stake s
      | Some x \<Rightarrow> (rr_stake s)(v \<mapsto> slashed n x))\<rparr>"
proof (cases "rr_stake s v")
  case None
  with assms(1) show ?thesis by (simp add: rr_slash_stake_eq_Ok get_verifier_stake_def)
next
  case (Some x)
  with assms(2) have "in_i128 x" by blast
  with assms(1) Some slash_amount_value [of x n] show ?thesis
    by (auto simp: rr_slash_stake_eq_Ok get_verifier_stake_def slashed_def fun_upd_idem split: if_splits)
qed

lemma record_default_effect:
  assumes "record_default env a sme s = Ok s'"
  shows "\<exists>p n t. rr_admin s = Some a \<and> authorised env a \<and> rr_sme s sme = Some p \<and>
    rr_slash_percentage s = Some n \<and>
    rr_sme s' = (rr_sme s)(sme \<mapsto> p\<lparr>sme_defaults := sme_defaults p + 1\<rparr>) \<and>
    rr_reputation s' = (rr_reputation s)(sme_verifier p \<mapsto>
      unwrap_or (rr_reputation s (sme_verifier p)) 100 - 10) \<and>
    rr_debtor_score s' = rr_debtor_score s \<and> rr_admin s' = rr_admin s \<and>
    rr_staking_token s' = rr_staking_token s \<and> rr_slash_percentage s' = rr_slash_percentage s \<and>
    rr_score_last_update s' = rr_score_last_update s \<and>
    rr_slash_stake (sme_verifier p) n (rr_put_lock True s) = Ok t \<and> rr_stake s' = rr_stake t"
  using assms
  by (clarsimp simp: record_default_def Let_def rr_append_eq_Ok with_guard_eq_Ok)
    (auto simp: rr_slash_stake_eq_Ok split: if_splits)

lemma add_verifier_effect:
  assumes "add_verifier T env a v x (s, tk) = Ok (s', tk')"
  shows "\<exists>token m. rr_admin s = Some a \<and> authorised env a \<and> v \<noteq> self env \<and>
    rr_staking_token s = Some token \<and> rr_minimum_stake s = Some m \<and> m \<le> x \<and>
    token_transfer T env token v (self env) x tk = Ok tk' \<and>
    rr_verifier s' = (rr_verifier s)(v \<mapsto> True) \<and>
    rr_stake s' = (rr_stake s)(v \<mapsto> x) \<and> rr_reputation s' = (rr_reputation s)(v \<mapsto> 100) \<and>
    rr_admin s' = rr_admin s \<and> rr_staking_token s' = rr_staking_token s \<and>
    rr_slash_percentage s' = rr_slash_percentage s"
  using assms by (auto simp: add_verifier_def Let_def rr_append_eq_Ok)

lemma remove_verifier_effect:
  assumes "remove_verifier T env a v (s, tk) = Ok (s', tk')"
  shows "rr_admin s = Some a \<and> authorised env a \<and> is_verifier s v \<and>
    rr_verifier s' = (rr_verifier s)(v := None) \<and>
    rr_stake s' = (rr_stake s)(v := None) \<and> rr_reputation s' = (rr_reputation s)(v := None) \<and>
    rr_admin s' = rr_admin s \<and> rr_staking_token s' = rr_staking_token s \<and>
    rr_slash_percentage s' = rr_slash_percentage s \<and>
    (if 0 < get_verifier_stake s v then \<exists>token. rr_staking_token s = Some token \<and>
        token_transfer T env token (self env) v (get_verifier_stake s v) tk = Ok tk'
     else tk' = tk)"
  using assms
  by (auto simp: remove_verifier_def Let_def rr_append_eq_Ok get_verifier_stake_def is_verifier_def
      split: if_splits)

section \<open>Scores stay in range\<close>

definition rr_scores_ok :: "rr_state \<Rightarrow> bool" where
  "rr_scores_ok s \<longleftrightarrow>
     (\<forall>a p. rr_sme s a = Some p \<longrightarrow> sme_address p = a \<and> sme_verified p \<and>
        sme_risk_score p \<le> 100 \<and> 0 \<le> sme_credit_limit p) \<and>
     (\<forall>h n. rr_debtor_score s h = Some n \<longrightarrow> length h = 32 \<and> n \<le> 100) \<and>
     (\<forall>v n. rr_reputation s v = Some n \<longrightarrow> n \<le> 100)"

lemma rr_step_scores_ok: "rr_step T env x y \<Longrightarrow> rr_scores_ok (fst x) \<Longrightarrow> rr_scores_ok (fst y)"
proof (induction rule: rr_step.induct)
  case (9 a sme s s' tk)
  from record_default_effect [OF 9(1)] 9(2) show ?case
    by (cases "rr_reputation s (sme_verifier (the (rr_sme s sme)))")
      (force simp: rr_scores_ok_def split: if_splits)+
next
  case (10 v h n s s' tk)
  then show ?case by (auto simp: rr_scores_ok_def set_debtor_score_def Let_def split: if_splits)
qed (auto simp: rr_scores_ok_def rr_unfold split: if_splits)

lemma rr_run_scores_ok: "rr_run T c t x u y \<Longrightarrow> rr_scores_ok (fst x) \<Longrightarrow> rr_scores_ok (fst y)"
  by (induction rule: rr_run.induct) (auto dest: rr_step_scores_ok)

section \<open>The history of an SME\<close>

definition sme_extends :: "SmeProfile \<Rightarrow> SmeProfile \<Rightarrow> bool" where
  "sme_extends p q \<longleftrightarrow> sme_address q = sme_address p \<and> sme_verifier q = sme_verifier p \<and>
     sme_registered_at q = sme_registered_at p \<and> sme_verified q = sme_verified p \<and>
     sme_compliance_attested q = sme_compliance_attested p \<and>
     sme_total_invoices p \<le> sme_total_invoices q \<and> sme_defaults p \<le> sme_defaults q"

lemma rr_step_sme_extends:
  "rr_step T env x y \<Longrightarrow> rr_sme (fst x) a = Some p \<Longrightarrow> \<exists>q. rr_sme (fst y) a = Some q \<and> sme_extends p q"
proof (induction rule: rr_step.induct)
  case (9 b sme s s' tk)
  from record_default_effect [OF 9(1)] 9(2) show ?case by (auto simp: sme_extends_def)
qed (auto simp: sme_extends_def rr_unfold split: if_splits)

lemma rr_run_sme_extends:
  assumes "rr_run T c t x u y" "rr_sme (fst x) a = Some p"
  shows "\<exists>q. rr_sme (fst y) a = Some q \<and> sme_extends p q"
  using assms
proof (induction rule: rr_run.induct)
  case (rr_more t x u y env z)
  then obtain q where "rr_sme (fst y) a = Some q" "sme_extends p q" by blast
  moreover obtain r where "rr_sme (fst z) a = Some r" "sme_extends q r"
    using rr_step_sme_extends rr_more.hyps(4) calculation(1) by blast
  ultimately show ?case by (auto simp: sme_extends_def)
qed (simp add: sme_extends_def)

section \<open>The cooldown of debtor scores\<close>

lemma rr_step_last_update:
  "rr_step T env x y \<Longrightarrow> rr_score_last_update (fst x) k = Some t \<Longrightarrow> t \<le> timestamp env \<Longrightarrow>
     \<exists>u. rr_score_last_update (fst y) k = Some u \<and> t \<le> u \<and> u \<le> timestamp env"
proof (induction rule: rr_step.induct)
  case (9 b sme s s' tk)
  from record_default_effect [OF 9(1)] 9(2,3) show ?case by auto
qed (auto simp: rr_unfold split: if_splits)

lemma rr_run_last_update:
  "rr_run T c now x later y \<Longrightarrow> rr_score_last_update (fst x) k = Some t \<Longrightarrow> t \<le> now \<Longrightarrow>
     \<exists>u. rr_score_last_update (fst y) k = Some u \<and> t \<le> u \<and> u \<le> later"
proof (induction rule: rr_run.induct)
  case (rr_more t0 x u y env z)
  then obtain w where "rr_score_last_update (fst y) k = Some w" "t \<le> w" "w \<le> u" by blast
  with rr_step_last_update [OF rr_more.hyps(4)] rr_more.hyps(2) show ?case by fastforce
qed blast

lemma set_debtor_score_stamps:
  "set_debtor_score env v h n s = Ok s' \<Longrightarrow> rr_score_last_update s' (v, h) = Some (timestamp env)"
  by (auto simp: set_debtor_score_def Let_def)

lemma set_debtor_score_waits:
  "set_debtor_score env v h n s = Ok s' \<Longrightarrow> rr_score_last_update s (v, h) = Some t \<Longrightarrow>
     t + MIN_SCORE_UPDATE_INTERVAL \<le> timestamp env"
  by (auto simp: set_debtor_score_def Let_def)

section \<open>Stakes are backed by tokens\<close>

text \<open>
  Before initialisation there are no stakes, and the registry at address \<open>c\<close> owes nothing in any
  token. Afterwards the stakes on record are values of \<open>i128\<close>, and if the slash rate is at most
  100 \%, none of them is negative and their sum is at most what the registry holds of the
  staking token.
\<close>

definition rr_backed :: "'tk token_api \<Rightarrow> Address \<Rightarrow> rr_state \<times> 'tk \<Rightarrow> bool" where
  "rr_backed T c = (\<lambda>(s, tk).
     finite (dom (rr_stake s)) \<and> (\<forall>v x. rr_stake s v = Some x \<longrightarrow> in_i128 x) \<and>
     (case rr_staking_token s of
        None \<Rightarrow> rr_stake s = Map.empty \<and> (\<forall>token. 0 \<le> tk_balance T token c tk)
      | Some token \<Rightarrow> rr_admin s \<noteq> None \<and>
          (unwrap_or (rr_slash_percentage s) 0 \<le> 10000 \<longrightarrow>
             (\<forall>v x. rr_stake s v = Some x \<longrightarrow> 0 \<le> x) \<and>
             map_total (rr_stake s) \<le> tk_balance T token c tk)))"

lemma unwrap_or_nonneg: "\<forall>x. m = Some x \<longrightarrow> 0 \<le> x \<Longrightarrow> 0 \<le> unwrap_or m (0::int)"
  by (cases m) auto

lemma rr_backed_frame:
  assumes "rr_backed T c (s, tk)" "rr_stake s' = rr_stake s" "rr_staking_token s' = rr_staking_token s"
    "rr_slash_percentage s' = rr_slash_percentage s" "rr_admin s \<noteq> None \<longrightarrow> rr_admin s' \<noteq> None"
  shows "rr_backed T c (s', tk)"
  using assms by (auto simp: rr_backed_def split: option.splits)

lemma rr_backed_initialize:
  "rr_initialize env a nft token m n s = Ok s' \<Longrightarrow> rr_backed T c (s, tk) \<Longrightarrow> rr_backed T c (s', tk)"
  by (auto simp: rr_backed_def rr_initialize_def Let_def split: if_splits option.splits)

lemma rr_backed_add_verifier:
  assumes "sep41 T" "add_verifier T env a v x (s, tk) = Ok (s', tk')" "in_i128 x"
    "rr_backed T (self env) (s, tk)"
  shows "rr_backed T (self env) (s', tk')"
proof -
  from add_verifier_effect [OF assms(2)] obtain token where e: "rr_admin s = Some a" "v \<noteq> self env"
      "rr_staking_token s = Some token" "token_transfer T env token v (self env) x tk = Ok tk'"
      "rr_stake s' = (rr_stake s)(v \<mapsto> x)" "rr_admin s' = rr_admin s"
      "rr_staking_token s' = rr_staking_token s" "rr_slash_percentage s' = rr_slash_percentage s"
    by auto
  note tk = sep41_transfer [OF assms(1) e(4)]
  show ?thesis
    using assms(3,4) e tk(1) tk(3) [of token "self env"] unwrap_or_nonneg [of "rr_stake s v"]
    by (auto simp: rr_backed_def map_total_upd split: if_splits)
qed

lemma rr_backed_remove_verifier:
  assumes "sep41 T" "remove_verifier T env a v (s, tk) = Ok (s', tk')"
    "rr_backed T (self env) (s, tk)"
  shows "rr_backed T (self env) (s', tk')"
proof -
  from remove_verifier_effect [OF assms(2)] have e: "rr_stake s' = (rr_stake s)(v := None)"
      "rr_admin s' = rr_admin s" "rr_staking_token s' = rr_staking_token s"
      "rr_slash_percentage s' = rr_slash_percentage s"
    and paid: "if 0 < get_verifier_stake s v then \<exists>token. rr_staking_token s = Some token \<and>
        token_transfer T env token (self env) v (get_verifier_stake s v) tk = Ok tk' else tk' = tk"
    by auto
  have bal: "tk_balance T token (self env) tk - get_verifier_stake s v \<le> tk_balance T token (self env) tk'"
    if "rr_staking_token s = Some token" "0 \<le> get_verifier_stake s v" for token
  proof (cases "0 < get_verifier_stake s v")
    case True
    with paid that obtain tok where
      "token_transfer T env token (self env) v (get_verifier_stake s v) tk = Ok tk'" by auto
    from sep41_transfer(3) [OF assms(1) this, of token "self env"] True show ?thesis by auto
  qed (use paid that in auto)
  from assms(3) e bal unwrap_or_nonneg [of "rr_stake s v"] paid show ?thesis
    by (auto simp: rr_backed_def get_verifier_stake_def map_total_del
        split: if_splits option.splits)
qed

lemma rr_backed_record_default:
  assumes "record_default env a sme s = Ok s'" "rr_backed T c (s, tk)"
  shows "rr_backed T c (s', tk)"
proof -
  from record_default_effect [OF assms(1)] obtain p :: SmeProfile and n t where e: "rr_slash_percentage s = Some n"
      "rr_admin s' = rr_admin s" "rr_staking_token s' = rr_staking_token s"
      "rr_slash_percentage s' = rr_slash_percentage s" "rr_stake s' = rr_stake t"
      "rr_slash_stake (sme_verifier p) n (rr_put_lock True s) = Ok t"
    by blast
  from assms(2) have i: "\<forall>v x. rr_stake s v = Some x \<longrightarrow> in_i128 x" by (simp add: rr_backed_def)
  show ?thesis
  proof (cases "rr_stake s (sme_verifier p)")
    case None
    with rr_slash_stake_effect [OF e(6)] i e(5) have "rr_stake s' = rr_stake s" by simp
    with e assms(2) show ?thesis by (auto intro: rr_backed_frame)
  next
    case (Some x)
    with rr_slash_stake_effect [OF e(6)] i e(5)
    have st: "rr_stake s' = (rr_stake s)(sme_verifier p \<mapsto> slashed n x)" by simp
    have "in_i128 (slashed n x)"
      using e(6) Some i by (auto simp: slashed_def rr_slash_stake_eq_Ok get_verifier_stake_def
          dest: slash_amount_value [rotated 2] split: if_splits)
    with assms(2) Some st e(1-4) slashed_le [of n x] slashed_nonneg [of n x] show ?thesis
      by (auto simp: rr_backed_def map_total_upd split: option.splits)
  qed
qed

lemma rr_step_backed:
  assumes "rr_step T env x y" "sep41 T" "rr_backed T (self env) x"
  shows "rr_backed T (self env) y"
  using assms
proof (induction rule: rr_step.induct)
  case (1 a nft token m n s s' tk)
  then show ?case by (auto intro: rr_backed_initialize)
next
  case (3 a v x st st')
  then show ?case by (cases st; cases st') (auto intro: rr_backed_add_verifier)
next
  case (4 a v st st')
  then show ?case by (cases st; cases st') (auto intro: rr_backed_remove_verifier)
next
  case (9 a sme s s' tk)
  then show ?case by (auto intro: rr_backed_record_default)
next
  case (13 tk tk' s)
  then show ?case
    by (force simp: rr_backed_def split: option.splits elim!: order_trans)
qed (erule rr_backed_frame; auto simp: rr_unfold split: if_splits)+

lemma rr_run_backed:
  "rr_run T c t x u y \<Longrightarrow> sep41 T \<Longrightarrow> rr_backed T c x \<Longrightarrow> rr_backed T c y"
  by (induction rule: rr_run.induct) (auto dest: rr_step_backed)

section \<open>Properties\<close>

text \<open>A run for the witnesses: a verifier stakes 500 tokens, registers and scores an SME, and a
  default is recorded at a slash rate of 20 \%.\<close>

definition rr_demo_tokens :: "Address \<Rightarrow> Address \<Rightarrow> i128" where
  "rr_demo_tokens = (\<lambda>_ a. if a = 7 then 1000 else 0)"

definition rr_demo_registered :: "(rr_state \<times> (Address \<Rightarrow> Address \<Rightarrow> i128)) res" where
  "rr_demo_registered =
     andThen (rr_initialize (open_env 200 10) 1 300 50 400 2000 rr_empty) (\<lambda>s.
     andThen (add_verifier plain_token (open_env 200 20) 1 7 500 (s, rr_demo_tokens)) (\<lambda>(s, tk).
     andThen (register_sme (open_env 200 30) 7 8 35 True s) (\<lambda>s.
     andThen (set_debtor_score (open_env 200 40) 7 (replicate 32 0) 60 s) (\<lambda>s.
     Ok (s, tk)))))"

lemmas rr_eval =
  rr_demo_registered_def rr_demo_tokens_def rr_op_defs rr_append_audit_entry_def
  rr_require_admin_def rr_require_verifier_def rr_empty_def rr_slash_stake_def mul_u128_def
  as_u128_def as_i128_def checked_sub_def checked_add_u32_def checked_add_u64_def U32_MAX_def
  audit_append_def empty_log_def Let_def add_u64_def U64_MAX_def require_not_self_def
  require_valid_risk_score_def require_exact_length_def MAX_AUDIT_LOG_SIZE_def with_guard_def
  acquire_guard_def release_guard_def token_transfer_def plain_token_def authorised_def open_env_def
  subcall_def require_auth_def in_i128_def I128_MAX_def I128_MIN_def MIN_SCORE_UPDATE_INTERVAL_def
  get_verifier_stake_def

lemma rr_demo_runs:
  "\<exists>x. rr_demo_registered = Ok x \<and> get_verifier_stake (fst x) 7 = 500 \<and> snd x 50 200 = 500 \<and>
     rr_staking_token (fst x) = Some 50 \<and> rr_slash_percentage (fst x) = Some 2000 \<and>
     map_option sme_verifier (rr_sme (fst x) 8) = Some 7"
  by (simp add: rr_eval cong: andThen_weak_cong del: andThen_eq_Ok)

lemma rr_demo_defaults:
  "\<exists>s tk s'. rr_demo_registered = Ok (s, tk) \<and> record_default (open_env 200 50) 1 8 s = Ok s' \<and>
     get_verifier_stake s 7 = 500 \<and> rr_slash_percentage s = Some 2000 \<and>
     map_option sme_verifier (rr_sme s 8) = Some 7"
proof -
  obtain s tk where s: "rr_demo_registered = Ok (s, tk)" "get_verifier_stake s 7 = 500"
      "rr_slash_percentage s = Some 2000" "map_option sme_verifier (rr_sme s 8) = Some 7"
    using rr_demo_runs by auto
  have "\<exists>s'. andThen rr_demo_registered (\<lambda>(s, tk). record_default (open_env 200 50) 1 8 s) = Ok s'"
    by (simp add: rr_eval cong: andThen_weak_cong del: andThen_eq_Ok)
  then obtain s' where "record_default (open_env 200 50) 1 8 s = Ok s'"
    by (auto simp only: s(1) andThen_Ok prod.case)
  with s show ?thesis by blast
qed

lemma rr_demo_rescore:
  "\<exists>s s1 s3. set_debtor_score (open_env 200 41) 7 (replicate 32 1) 60 s = Ok s1 \<and>
     set_debtor_score (open_env 200 4000) 7 (replicate 32 1) 70 s1 = Ok s3"
proof -
  have "\<exists>s3. andThen (set_debtor_score (open_env 200 41) 7 (replicate 32 1) 60
        (rr_empty\<lparr>rr_verifier := [7 \<mapsto> True]\<rparr>))
      (set_debtor_score (open_env 200 4000) 7 (replicate 32 1) 70) = Ok s3"
    by (simp add: rr_eval cong: andThen_weak_cong del: andThen_eq_Ok)
  then show ?thesis by auto
qed

lemma rr_demo_run:
  assumes "rr_demo_registered = Ok x"
  shows "rr_run plain_token 200 0 (rr_empty, rr_demo_tokens) 40 x"
proof -
  note step = rr_more [where T = plain_token and c = 200, simplified]
  from assms obtain s1 s2 tk s3 s4 where
      s: "rr_initialize (open_env 200 10) 1 300 50 400 2000 rr_empty = Ok s1"
      "add_verifier plain_token (open_env 200 20) 1 7 500 (s1, rr_demo_tokens) = Ok (s2, tk)"
      "register_sme (open_env 200 30) 7 8 35 True s2 = Ok s3"
      "set_debtor_score (open_env 200 40) 7 (replicate 32 0) 60 s3 = Ok s4" "x = (s4, tk)"
    by (auto simp: rr_demo_registered_def)
  have "in_i128 500" by (simp add: in_i128_def width_defs)
  with s have steps: "rr_step plain_token (open_env 200 10) (rr_empty, rr_demo_tokens) (s1, rr_demo_tokens)"
      "rr_step plain_token (open_env 200 20) (s1, rr_demo_tokens) (s2, tk)"
      "rr_step plain_token (open_env 200 30) (s2, tk) (s3, tk)"
      "rr_step plain_token (open_env 200 40) (s3, tk) (s4, tk)"
    by (blast intro: rr_step.intros)+
  have "rr_run plain_token 200 0 (rr_empty, rr_demo_tokens) (timestamp (open_env 200 40)) (s4, tk)"
    by (rule rr_more [OF rr_more [OF rr_more [OF rr_more [OF rr_here _ _ steps(1)] _ _ steps(2)]
            _ _ steps(3)] _ _ steps(4)]) simp_all
  with s(5) show ?thesis by simp
qed

lemma rr_demo_start_backed: "rr_backed plain_token c (rr_empty, rr_demo_tokens)"
  by (simp add: rr_backed_def rr_empty_def plain_token_def rr_demo_tokens_def)

text \<open>
  C11: the stakes are backed. Start from an empty registry at address \<open>c\<close> that owes nothing, let it
  run with any SEP-41 token, at a slash rate of at most 10000 basis points: no recorded stake is
  negative, and the sum of all recorded stakes is at most the registry's balance of the staking
  token, so that every verifier can be paid back.
\<close>

theorem stakes_are_backed:
  assumes "sep41 T" "\<And>token. 0 \<le> tk_balance T token c tk0" "rr_run T c t (rr_empty, tk0) u (s, tk)"
    "rr_staking_token s = Some token" "rr_slash_percentage s = Some n" "n \<le> 10000"
  shows "map_total (rr_stake s) \<le> tk_balance T token c tk \<and> 0 \<le> get_verifier_stake s v"
proof -
  have "rr_backed T c (rr_empty, tk0)" using assms(2) by (simp add: rr_backed_def rr_empty_def)
  from rr_run_backed [OF assms(3,1) this] assms(4-6) show ?thesis
    using unwrap_or_nonneg [of "rr_stake s v"] by (auto simp: rr_backed_def get_verifier_stake_def)
qed

theorem stakes_are_backed_witness:
  "\<exists>s tk. rr_run plain_token 200 0 (rr_empty, rr_demo_tokens) 40 (s, tk) \<and>
     get_verifier_stake s 7 = 500 \<and> map_total (rr_stake s) \<le> tk 50 200"
proof -
  obtain s tk where x: "rr_demo_registered = Ok (s, tk)" "get_verifier_stake s 7 = 500"
      "rr_staking_token s = Some 50" "rr_slash_percentage s = Some 2000"
    using rr_demo_runs by auto
  have nonneg: "0 \<le> tk_balance plain_token token 200 rr_demo_tokens" for token
    by (simp add: plain_token_def rr_demo_tokens_def)
  from stakes_are_backed [OF sep41_plain_token nonneg rr_demo_run [OF x(1)] x(3,4), of 7]
    rr_demo_run [OF x(1)] x(2) show ?thesis
    by (auto simp: plain_token_def)
qed

text \<open>
  A recorded default raises the SME's default count by one, lowers the reputation of the
  verifier who registered the SME by ten (not below zero), and takes from that verifier's stake
  exactly the slash rate, rounded down; no other stake, reputation or profile changes.
\<close>

theorem record_default_slashes:
  assumes "rr_run T c t (rr_empty, tk0) u (s, tk)" "sep41 T" "\<And>token. 0 \<le> tk_balance T token c tk0"
    "record_default env a sme s = Ok s'" "rr_slash_percentage s = Some n"
  shows "\<exists>p. rr_sme s sme = Some p \<and>
    rr_sme s' = (rr_sme s)(sme \<mapsto> p\<lparr>sme_defaults := sme_defaults p + 1\<rparr>) \<and>
    get_verifier_stake s' = (get_verifier_stake s)(sme_verifier p :=
      slashed n (get_verifier_stake s (sme_verifier p))) \<and>
    rr_reputation s' = (rr_reputation s)(sme_verifier p \<mapsto>
      unwrap_or (rr_reputation s (sme_verifier p)) 100 - 10)"
proof -
  have "rr_backed T c (rr_empty, tk0)" using assms(3) by (simp add: rr_backed_def rr_empty_def)
  from rr_run_backed [OF assms(1,2) this] have i: "\<forall>v x. rr_stake s v = Some x \<longrightarrow> in_i128 x"
    by (simp add: rr_backed_def)
  from record_default_effect [OF assms(4)] assms(5) obtain p t' where p: "rr_sme s sme = Some p"
      "rr_sme s' = (rr_sme s)(sme \<mapsto> p\<lparr>sme_defaults := sme_defaults p + 1\<rparr>)"
      "rr_reputation s' = (rr_reputation s)(sme_verifier p \<mapsto>
         unwrap_or (rr_reputation s (sme_verifier p)) 100 - 10)"
      "rr_slash_stake (sme_verifier p) n (rr_put_lock True s) = Ok t'" "rr_stake s' = rr_stake t'"
    by auto
  have "rr_stake s' = (case rr_stake s (sme_verifier p) of None \<Rightarrow> rr_stake s
      | Some x \<Rightarrow> (rr_stake s)(sme_verifier p \<mapsto> slashed n x))"
    using rr_slash_stake_effect [OF p(4)] i p(5) by (simp split: option.splits)
  then have "get_verifier_stake s' = (get_verifier_stake s)(sme_verifier p :=
      slashed n (get_verifier_stake s (sme_verifier p)))"
    by (auto simp: get_verifier_stake_def fun_eq_iff slashed_def split: option.splits)
  with p show ?thesis by blast
qed

theorem record_default_slashes_witness:
  "\<exists>s s'. record_default (open_env 200 50) 1 8 s = Ok s' \<and> get_verifier_stake s 7 = 500 \<and>
     get_verifier_stake s' 7 = 400"
proof -
  obtain s tk s' where x: "rr_demo_registered = Ok (s, tk)" "get_verifier_stake s 7 = 500"
      "rr_slash_percentage s = Some 2000" "record_default (open_env 200 50) 1 8 s = Ok s'"
      "map_option sme_verifier (rr_sme s 8) = Some 7"
    using rr_demo_defaults by auto
  have nonneg: "0 \<le> tk_balance plain_token token 200 rr_demo_tokens" for token
    by (simp add: plain_token_def rr_demo_tokens_def)
  have "get_verifier_stake s' 7 = 400"
    using record_default_slashes [OF rr_demo_run [OF x(1)] sep41_plain_token nonneg x(4,3)] x(2,5)
    by (auto simp: slashed_def)
  with x(2,4) show ?thesis by blast
qed

text \<open>
  The history of an SME is never erased. Along every run of the registry the profile of a
  registered SME stays registered, with the verifier, the time and the attestation it was
  registered with, and its invoice and default counts never decrease.
\<close>

theorem sme_history_kept:
  assumes "rr_run T c t (s, tk) u (s', tk')" "get_sme_profile s a = Ok p"
  shows "\<exists>q. get_sme_profile s' a = Ok q \<and> sme_verifier q = sme_verifier p \<and>
    sme_registered_at q = sme_registered_at p \<and>
    sme_compliance_attested q = sme_compliance_attested p \<and>
    sme_total_invoices p \<le> sme_total_invoices q \<and> sme_defaults p \<le> sme_defaults q"
  using rr_run_sme_extends [OF assms(1), of a p] assms(2)
  by (auto simp: get_sme_profile_def sme_extends_def)

theorem sme_history_kept_witness:
  "\<exists>s s' p q. record_default (open_env 200 50) 1 8 s = Ok s' \<and> get_sme_profile s 8 = Ok p \<and>
     get_sme_profile s' 8 = Ok q \<and> sme_defaults p \<le> sme_defaults q"
proof -
  obtain s tk s' where x: "rr_demo_registered = Ok (s, tk)"
      "record_default (open_env 200 50) 1 8 s = Ok s'"
      "map_option sme_verifier (rr_sme s 8) = Some 7"
    using rr_demo_defaults by auto
  then obtain p where p: "get_sme_profile s 8 = Ok p" by (auto simp: get_sme_profile_def)
  have "rr_run plain_token 200 50 (s, tk) (timestamp (open_env 200 50)) (s', tk)"
    by (rule rr_more [OF rr_here]) (use x(2) in \<open>auto intro: rr_step.intros\<close>)
  from sme_history_kept [OF this p] x(2) p show ?thesis by blast
qed

text \<open>
  The cooldown. If a verifier sets the score of a debtor, and after any run of the registry sets
  it again, at least \<open>MIN_SCORE_UPDATE_INTERVAL\<close> seconds lie between the two calls.
\<close>

theorem debtor_score_cooldown:
  assumes "set_debtor_score env v h n s = Ok s1"
    "rr_run T c (timestamp env) (s1, tk) later (s2, tk')" "later \<le> timestamp env'"
    "set_debtor_score env' v h m s2 = Ok s3"
  shows "timestamp env + MIN_SCORE_UPDATE_INTERVAL \<le> timestamp env'"
proof -
  obtain u where "rr_score_last_update s2 (v, h) = Some u" "timestamp env \<le> u"
    using rr_run_last_update [OF assms(2), of "(v, h)"] set_debtor_score_stamps [OF assms(1)] by auto
  with set_debtor_score_waits [OF assms(4)] show ?thesis by fastforce
qed

theorem debtor_score_cooldown_witness:
  "\<exists>s s1 s3. set_debtor_score (open_env 200 41) 7 (replicate 32 1) 60 s = Ok s1 \<and>
     set_debtor_score (open_env 200 4000) 7 (replicate 32 1) 70 s1 = Ok s3 \<and>
     41 + MIN_SCORE_UPDATE_INTERVAL \<le> 4000"
proof -
  obtain s s1 s3 where x: "set_debtor_score (open_env 200 41) 7 (replicate 32 1) 60 s = Ok s1"
      "set_debtor_score (open_env 200 4000) 7 (replicate 32 1) 70 s1 = Ok s3"
    using rr_demo_rescore by blast
  have "rr_run plain_token 200 (timestamp (open_env 200 41)) (s1, rr_demo_tokens)
      (timestamp (open_env 200 41)) (s1, rr_demo_tokens)"
    by (rule rr_here)
  from debtor_score_cooldown [OF x(1) this _ x(2)] x show ?thesis by auto
qed

text \<open>
  C35: in every reachable state of the registry, SME and debtor scores and reputations are at most
  100, credit limits are not negative, debtor keys have 32 bytes, and a profile is stored under
  its own address.
\<close>

theorem registry_scores_in_range:
  assumes "rr_run T c t (rr_empty, tk0) u (s, tk)"
  shows "(\<forall>a p. get_sme_profile s a = Ok p \<longrightarrow>
      sme_address p = a \<and> sme_risk_score p \<le> 100 \<and> 0 \<le> sme_credit_limit p) \<and>
    (\<forall>h n. get_debtor_score s h = Ok n \<longrightarrow> length h = 32 \<and> n \<le> 100) \<and>
    (\<forall>v. get_verifier_reputation s v \<le> 100)"
proof -
  have "rr_scores_ok rr_empty" by (simp add: rr_scores_ok_def rr_empty_def)
  then have ok: "rr_scores_ok s" using rr_run_scores_ok [OF assms] by simp
  then have "get_verifier_reputation s v \<le> 100" for v
    by (cases "rr_reputation s v") (auto simp: get_verifier_reputation_def rr_scores_ok_def)
  with ok show ?thesis
    by (auto simp: get_sme_profile_def get_debtor_score_def rr_scores_ok_def)
qed

theorem registry_scores_in_range_witness:
  "\<exists>s tk. rr_run plain_token 200 0 (rr_empty, rr_demo_tokens) 40 (s, tk) \<and>
     get_verifier_reputation s 7 \<le> 100"
proof -
  obtain s tk where x: "rr_demo_registered = Ok (s, tk)"
    using rr_demo_runs by auto
  from registry_scores_in_range [OF rr_demo_run [OF x]] rr_demo_run [OF x] show ?thesis by blast
qed

end
