(* ===== verification/Invoice_NFT.thy ===== *)
theory Invoice_NFT
  imports Access_Control Risk_Registry
begin

text \<open>
  The invoice NFT contract (\<^verbatim>\<open>contracts/invoice_nft/src/lib.rs\<close>): minting, amending and withdrawing
  invoices, the status transitions \<open>Created\<close>, \<open>Listed\<close>, \<open>Funded\<close>, \<open>Repaid\<close> or \<open>Defaulted\<close>, the
  metadata commitment, the per-invoice freeze, the schema migration and the upgrade.

  The contracts it calls are arguments: \<open>acs\<close> and \<open>rrs\<close> give the access-control and risk-registry
  instance deployed at an address. A slot of the invoice table holds a record in the current
  encoding or in the previous one (\<open>InvoiceV1\<close>), which \<open>migrate\<close> rewrites. How the SDK reads a
  record of the current encoding at type \<open>InvoiceV1\<close> is not code of the repository: it is the
  parameter \<open>D\<close> of \<open>migrate\<close>.
\<close>

section \<open>State\<close>

record InvoiceV1 =
  v1_id :: u64
  v1_sme :: Address
  v1_debtor_hash :: Bytes
  v1_amount :: i128
  v1_currency :: Symbol
  v1_due_date :: u64
  v1_ipfs_cid :: string
  v1_risk_score :: u32
  v1_risk_tier :: RiskTier
  v1_status :: InvoiceStatus
  v1_created_at :: u64
  v1_funded_at :: "u64 option"
  v1_repaid_at :: "u64 option"

datatype StoredInvoice = StoredV1 InvoiceV1 | StoredV2 Invoice

record nft_state =
  nft_invoice :: "u64 \<rightharpoonup> StoredInvoice"
  nft_next_id :: "u64 option"
  nft_admin :: "Address option"
  nft_access_control :: "Address option"
  nft_migration_version :: "u32 option"
  nft_upgrade_proposal :: "(BytesN32 \<times> u64) option"
  nft_marketplace :: "Address option"
  nft_financing_pool :: "Address option"
  nft_risk_registry :: "Address option"
  nft_exposure :: "Address \<rightharpoonup> i128"
  nft_currency_allowlist :: "Symbol \<rightharpoonup> bool"
  nft_frozen :: "u64 \<rightharpoonup> bool"
  nft_lock :: bool
  nft_code :: "BytesN32 option"
  nft_events :: "event list"

definition nft_empty :: nft_state where
  "nft_empty = \<lparr>nft_invoice = Map.empty, nft_next_id = None, nft_admin = None,
     nft_access_control = None, nft_migration_version = None, nft_upgrade_proposal = None,
     nft_marketplace = None, nft_financing_pool = None, nft_risk_registry = None,
     nft_exposure = Map.empty, nft_currency_allowlist = Map.empty, nft_frozen = Map.empty,
     nft_lock = False, nft_code = None, nft_events = []\<rparr>"

abbreviation nft_emit :: "event \<Rightarrow> nft_state \<Rightarrow> nft_state" where
  "nft_emit e s \<equiv> s\<lparr>nft_events := nft_events s @ [e]\<rparr>"

abbreviation nft_put_lock :: "bool \<Rightarrow> nft_state \<Rightarrow> nft_state" where
  "nft_put_lock b s \<equiv> s\<lparr>nft_lock := b\<rparr>"

abbreviation put_invoice :: "u64 \<Rightarrow> Invoice \<Rightarrow> nft_state \<Rightarrow> nft_state" where
  "put_invoice k i s \<equiv> s\<lparr>nft_invoice := (nft_invoice s)(k \<mapsto> StoredV2 i)\<rparr>"

section \<open>Helpers\<close>

definition nft_load_invoice :: "nft_state \<Rightarrow> u64 \<Rightarrow> Invoice res" where
  "nft_load_invoice s invoice_id =
     (case nft_invoice s invoice_id of
        None \<Rightarrow> Err InvoiceNotFound
      | Some (StoredV1 _) \<Rightarrow> Trap BadEncoding
      | Some (StoredV2 i) \<Rightarrow> Ok i)"

definition nft_require_admin :: "nft_state \<Rightarrow> Address \<Rightarrow> unit res" where
  "nft_require_admin s caller =
     andThen (ok_or (nft_admin s) NotInitialized) (\<lambda>admin.
     if admin \<noteq> caller then Err NotAdmin else Ok ())"

fun nft_require_authorized_caller :: "Address \<Rightarrow> Address option list \<Rightarrow> unit res" where
  "nft_require_authorized_caller caller [] = Err Unauthorized"
| "nft_require_authorized_caller caller (key # allowed) =
     (case key of
        Some addr \<Rightarrow> if addr = caller then Ok () else nft_require_authorized_caller caller allowed
      | None \<Rightarrow> nft_require_authorized_caller caller allowed)"

definition nft_require_allowed_currency :: "nft_state \<Rightarrow> Symbol \<Rightarrow> unit res" where
  "nft_require_allowed_currency s currency =
     (let allowed = unwrap_or (nft_currency_allowlist s currency) False in
      if \<not> allowed then Err CurrencyNotAllowed else Ok ())"

definition nft_require_not_paused :: "(Address \<rightharpoonup> ac_state) \<Rightarrow> nft_state \<Rightarrow> unit res" where
  "nft_require_not_paused acs s =
     andThen (ok_or (nft_access_control s) NotInitialized) (\<lambda>ac.
     andThen (deployed (acs ac)) (\<lambda>client.
     if is_paused client then Err ProtocolPaused else Ok ()))"

text \<open>The statements that release the exposure of an invoice, in three entry points.\<close>

definition nft_release_exposure :: "Invoice \<Rightarrow> nft_state \<Rightarrow> nft_state" where
  "nft_release_exposure invoice s =
     (let prev = unwrap_or (nft_exposure s (inv_sme invoice)) 0
      in s\<lparr>nft_exposure := (nft_exposure s)(inv_sme invoice \<mapsto> saturating_sub prev (inv_amount invoice))\<rparr>)"

section \<open>Set-up\<close>

definition nft_initialize :: "env \<Rightarrow> Address \<Rightarrow> Address \<Rightarrow> nft_state \<Rightarrow> nft_state res" where
  "nft_initialize env admin access_control s =
     (if nft_admin s \<noteq> None then Err AlreadyInitialized else
      andThen (require_not_self env admin) (\<lambda>_.
      andThen (require_not_self env access_control) (\<lambda>_.
      andThen (require_distinct admin access_control) (\<lambda>_.
      Ok (s\<lparr>nft_admin := Some admin, nft_access_control := Some access_control,
            nft_next_id := Some 1, nft_migration_version := Some 1\<rparr>)))))"

definition set_risk_registry :: "env \<Rightarrow> Address \<Rightarrow> Address \<Rightarrow> nft_state \<Rightarrow> nft_state res" where
  "set_risk_registry env admin risk_registry s =
     andThen (require_auth env admin) (\<lambda>_.
     andThen (nft_require_admin s admin) (\<lambda>_.
     andThen (require_not_self env risk_registry) (\<lambda>_.
     Ok (s\<lparr>nft_risk_registry := Some risk_registry\<rparr>))))"

definition set_authorized_callers ::
    "env \<Rightarrow> Address \<Rightarrow> Address \<Rightarrow> Address \<Rightarrow> nft_state \<Rightarrow> nft_state res" where
  "set_authorized_callers env admin marketplace financing_pool s =
     andThen (require_auth env admin) (\<lambda>_.
     andThen (nft_require_admin s admin) (\<lambda>_.
     Ok (s\<lparr>nft_marketplace := Some marketplace, nft_financing_pool := Some financing_pool\<rparr>)))"

section \<open>Migration\<close>

definition upgrade_v1 :: "InvoiceV1 \<Rightarrow> Invoice" where
  "upgrade_v1 old =
     \<lparr>inv_id = v1_id old, inv_sme = v1_sme old, inv_debtor_hash = v1_debtor_hash old,
      inv_amount = v1_amount old, inv_currency = v1_currency old, inv_due_date = v1_due_date old,
      inv_ipfs_cid = v1_ipfs_cid old, inv_metadata_hash = [], inv_risk_score = v1_risk_score old,
      inv_risk_tier = v1_risk_tier old, inv_status = v1_status old,
      inv_created_at = v1_created_at old, inv_funded_at = v1_funded_at old,
      inv_repaid_at = v1_repaid_at old, inv_notes = None\<rparr>"

text \<open>\<open>read_v1 D\<close>: the slot read at type \<open>InvoiceV1\<close>. \<open>D i\<close> says what the SDK returns for the record
  \<open>i\<close> of the current encoding: it may skip it, trap, or misread it.\<close>

definition read_v1 :: "(Invoice \<Rightarrow> InvoiceV1 option res) \<Rightarrow> nft_state \<Rightarrow> u64 \<Rightarrow> InvoiceV1 option res" where
  "read_v1 D s key =
     (case nft_invoice s key of
        None \<Rightarrow> Ok None
      | Some (StoredV1 old) \<Rightarrow> Ok (Some old)
      | Some (StoredV2 i) \<Rightarrow> D i)"

function migrate_loop ::
    "(Invoice \<Rightarrow> InvoiceV1 option res) \<Rightarrow> u64 \<Rightarrow> u64 \<Rightarrow> nft_state \<Rightarrow> nft_state res" where
  "migrate_loop D key next_key s =
     (if key < next_key then
        andThen (read_v1 D s key) (\<lambda>found.
        let s = (case found of None \<Rightarrow> s | Some old \<Rightarrow> put_invoice key (upgrade_v1 old) s)
        in migrate_loop D (key + 1) next_key s)
      else Ok s)"
  by pat_completeness auto
termination
  by (relation "measure (\<lambda>(D, key, next_key, s). next_key - key)") auto

declare migrate_loop.simps [simp del]

definition migrate ::
    "(Invoice \<Rightarrow> InvoiceV1 option res) \<Rightarrow> env \<Rightarrow> Address \<Rightarrow> nft_state \<Rightarrow> nft_state res" where
  "migrate D env admin s =
     andThen (require_auth env admin) (\<lambda>_.
     andThen (nft_require_admin s admin) (\<lambda>_.
     let current_version = unwrap_or (nft_migration_version s) 0;
         s = (if current_version < 1 then s\<lparr>nft_migration_version := Some 1\<rparr> else s)
     in if current_version < 2 then
          andThen (migrate_loop D 1 (unwrap_or (nft_next_id s) 1) s) (\<lambda>s.
          Ok (s\<lparr>nft_migration_version := Some 2\<rparr>))
        else Ok s))"

section \<open>Minting, amending, withdrawing\<close>

text \<open>The credit check of \<open>mint_invoice\<close>. The registry is called through its \<open>try_\<close> client: when the
  call fails, for whatever reason, the check is skipped.\<close>

definition nft_check_credit :: "(Address \<rightharpoonup> rr_state) \<Rightarrow> Address \<Rightarrow> i128 \<Rightarrow> nft_state \<Rightarrow> unit res" where
  "nft_check_credit rrs sme amount s =
     (case nft_risk_registry s of
        None \<Rightarrow> Ok ()
      | Some rr_addr \<Rightarrow>
          (case andThen (deployed (rrs rr_addr)) (\<lambda>rr. get_sme_profile rr sme) of
             Inl _ \<Rightarrow> Ok ()
           | Inr profile \<Rightarrow>
               if sme_credit_limit profile > 0 then
                 let outstanding = unwrap_or (nft_exposure s sme) 0 in
                 andThen (ok_or (checked_add outstanding amount) ArithmeticOverflow) (\<lambda>new_exposure.
                 if new_exposure > sme_credit_limit profile then Err CreditLimitExceeded else Ok ())
               else Ok ()))"

definition mint_invoice ::
    "(Address \<rightharpoonup> ac_state) \<Rightarrow> (Address \<rightharpoonup> rr_state) \<Rightarrow> env \<Rightarrow> Address \<Rightarrow> Bytes \<Rightarrow> i128 \<Rightarrow> Symbol \<Rightarrow> u64 \<Rightarrow>
     string \<Rightarrow> u32 \<Rightarrow> string option \<Rightarrow> nft_state \<Rightarrow> (u64 \<times> nft_state) res" where
  "mint_invoice acs rrs env sme debtor_hash amount currency due_date ipfs_cid risk_score notes s =
     andThen (require_auth env sme) (\<lambda>_.
     andThen (nft_require_not_paused acs s) (\<lambda>_.
     andThen (acquire_guard nft_lock nft_put_lock s) (\<lambda>s.
     andThen (require_non_zero_amount amount) (\<lambda>_.
     andThen (require_future_timestamp env due_date) (\<lambda>_.
     andThen (require_valid_risk_score risk_score) (\<lambda>_.
     andThen (require_non_empty_bytes debtor_hash) (\<lambda>_.
     andThen (require_max_length_bytes debtor_hash MAX_DEBTOR_HASH_LEN) (\<lambda>_.
     andThen (require_non_empty_string ipfs_cid) (\<lambda>_.
     andThen (require_max_length_string ipfs_cid MAX_IPFS_CID_LEN) (\<lambda>_.
     andThen (nft_check_credit rrs sme amount s) (\<lambda>_.
     let id = unwrap_or (nft_next_id s) 1;
         invoice = \<lparr>inv_id = id, inv_sme = sme, inv_debtor_hash = debtor_hash, inv_amount = amount,
           inv_currency = currency, inv_due_date = due_date, inv_ipfs_cid = ipfs_cid,
           inv_metadata_hash = [], inv_risk_score = risk_score,
           inv_risk_tier = from_score risk_score, inv_status = Created,
           inv_created_at = timestamp env, inv_funded_at = None, inv_repaid_at = None,
           inv_notes = notes\<rparr>;
         s = put_invoice id invoice s
     in andThen (ok_or (checked_add_u64 id 1) ArithmeticOverflow) (\<lambda>next.
     let s = s\<lparr>nft_next_id := Some next\<rparr>;
         s = nft_emit (invoice_created env id sme (inv_amount invoice)) s
     in Ok (id, release_guard nft_put_lock s)))))))))))))"

definition amend_invoice ::
    "(Address \<rightharpoonup> ac_state) \<Rightarrow> env \<Rightarrow> Address \<Rightarrow> u64 \<Rightarrow> Bytes \<Rightarrow> i128 \<Rightarrow> u64 \<Rightarrow> string \<Rightarrow> u32 \<Rightarrow>
     nft_state \<Rightarrow> nft_state res" where
  "amend_invoice acs env sme invoice_id debtor_hash amount due_date ipfs_cid risk_score s =
     andThen (require_auth env sme) (\<lambda>_.
     andThen (nft_require_not_paused acs s) (\<lambda>_.
     andThen (require_non_zero_amount amount) (\<lambda>_.
     andThen (require_future_timestamp env due_date) (\<lambda>_.
     andThen (require_valid_risk_score risk_score) (\<lambda>_.
     andThen (require_non_empty_bytes debtor_hash) (\<lambda>_.
     andThen (require_non_empty_string ipfs_cid) (\<lambda>_.
     andThen (nft_load_invoice s invoice_id) (\<lambda>invoice.
     if inv_status invoice \<noteq> Created then Err InvalidInvoiceStatus else
     if inv_sme invoice \<noteq> sme then Err NotInvoiceOwner else
     let invoice = invoice\<lparr>inv_debtor_hash := debtor_hash, inv_amount := amount,
           inv_due_date := due_date, inv_ipfs_cid := ipfs_cid, inv_risk_score := risk_score,
           inv_risk_tier := from_score risk_score\<rparr>;
         s = put_invoice invoice_id invoice s
     in Ok (nft_emit (invoice_amended env invoice_id sme) s)))))))))"

definition withdraw_invoice ::
    "(Address \<rightharpoonup> ac_state) \<Rightarrow> env \<Rightarrow> Address \<Rightarrow> u64 \<Rightarrow> nft_state \<Rightarrow> nft_state res" where
  "withdraw_invoice acs env sme invoice_id s =
     andThen (require_auth env sme) (\<lambda>_.
     andThen (nft_require_not_paused acs s) (\<lambda>_.
     andThen (nft_load_invoice s invoice_id) (\<lambda>invoice.
     if inv_status invoice \<noteq> Created then Err InvalidInvoiceStatus else
     if inv_sme invoice \<noteq> sme then Err NotInvoiceOwner else
     let s = s\<lparr>nft_invoice := (nft_invoice s)(invoice_id := None)\<rparr>;
         s = nft_release_exposure invoice s
     in Ok (nft_emit (invoice_withdrawn env invoice_id sme) s))))"

section \<open>Status transitions\<close>

definition set_listed :: "(Address \<rightharpoonup> ac_state) \<Rightarrow> env \<Rightarrow> Address \<Rightarrow> u64 \<Rightarrow> nft_state \<Rightarrow> nft_state res" where
  "set_listed acs env caller invoice_id s =
     andThen (require_auth env caller) (\<lambda>_.
     andThen (nft_require_authorized_caller caller [nft_marketplace s]) (\<lambda>_.
     andThen (nft_require_not_paused acs s) (\<lambda>_.
     with_guard nft_lock nft_put_lock (\<lambda>s.
       andThen (nft_load_invoice s invoice_id) (\<lambda>invoice.
       if inv_status invoice \<noteq> Created then Err InvalidInvoiceStatus else
       let invoice = invoice\<lparr>inv_status := Listed\<rparr>;
           s = put_invoice invoice_id invoice s
       in Ok (nft_emit (invoice_listed env invoice_id (inv_sme invoice) (inv_amount invoice)) s))) s)))"

definition set_funded :: "(Address \<rightharpoonup> ac_state) \<Rightarrow> env \<Rightarrow> Address \<Rightarrow> u64 \<Rightarrow> nft_state \<Rightarrow> nft_state res" where
  "set_funded acs env caller invoice_id s =
     andThen (require_auth env caller) (\<lambda>_.
     andThen (nft_require_authorized_caller caller [nft_financing_pool s]) (\<lambda>_.
     andThen (nft_require_not_paused acs s) (\<lambda>_.
     with_guard nft_lock nft_put_lock (\<lambda>s.
       andThen (nft_load_invoice s invoice_id) (\<lambda>invoice.
       if inv_status invoice \<noteq> Listed then Err InvalidInvoiceStatus else
       let invoice = invoice\<lparr>inv_status := Funded, inv_funded_at := Some (timestamp env)\<rparr>;
           s = put_invoice invoice_id invoice s
       in Ok (nft_emit (invoice_funded env invoice_id caller (inv_amount invoice)) s))) s)))"

definition set_repaid :: "(Address \<rightharpoonup> ac_state) \<Rightarrow> env \<Rightarrow> Address \<Rightarrow> u64 \<Rightarrow> nft_state \<Rightarrow> nft_state res" where
  "set_repaid acs env caller invoice_id s =
     andThen (require_auth env caller) (\<lambda>_.
     andThen (nft_require_authorized_caller caller [nft_financing_pool s]) (\<lambda>_.
     andThen (nft_require_not_paused acs s) (\<lambda>_.
     andThen (nft_load_invoice s invoice_id) (\<lambda>invoice.
     if inv_status invoice \<noteq> Funded then Err InvalidInvoiceStatus else
     let invoice = invoice\<lparr>inv_status := Repaid, inv_repaid_at := Some (timestamp env)\<rparr>;
         s = put_invoice invoice_id invoice s;
         s = nft_release_exposure invoice s
     in Ok (nft_emit (invoice_repaid env invoice_id (inv_sme invoice) (inv_amount invoice)) s)))))"

definition set_defaulted :: "env \<Rightarrow> Address \<Rightarrow> u64 \<Rightarrow> nft_state \<Rightarrow> nft_state res" where
  "set_defaulted env caller invoice_id s =
     andThen (require_auth env caller) (\<lambda>_.
     andThen (nft_require_admin s caller) (\<lambda>_.
     with_guard nft_lock nft_put_lock (\<lambda>s.
       andThen (nft_load_invoice s invoice_id) (\<lambda>invoice.
       if inv_status invoice \<noteq> Funded then Err InvalidInvoiceStatus else
       let current_time = timestamp env in
       if current_time \<le> inv_due_date invoice then Err InvalidInvoiceStatus else
       let invoice = invoice\<lparr>inv_status := Defaulted\<rparr>;
           s = put_invoice invoice_id invoice s;
           s = nft_release_exposure invoice s
       in Ok (nft_emit (invoice_defaulted env invoice_id (inv_sme invoice)) s))) s))"

section \<open>Metadata, freeze, currencies\<close>

definition commit_metadata_hash ::
    "(Address \<rightharpoonup> ac_state) \<Rightarrow> env \<Rightarrow> Address \<Rightarrow> u64 \<Rightarrow> Bytes \<Rightarrow> nft_state \<Rightarrow> nft_state res" where
  "commit_metadata_hash acs env sme invoice_id metadata_hash s =
     andThen (require_auth env sme) (\<lambda>_.
     andThen (nft_require_not_paused acs s) (\<lambda>_.
     with_guard nft_lock nft_put_lock (\<lambda>s.
       andThen (require_non_empty_bytes metadata_hash) (\<lambda>_.
       andThen (nft_load_invoice s invoice_id) (\<lambda>invoice.
       if inv_sme invoice \<noteq> sme then Err Unauthorized else
       if inv_status invoice \<noteq> Created then Err InvalidInvoiceStatus else
       if length (inv_metadata_hash invoice) \<noteq> 0 then Err AlreadyInitialized else
       let invoice = invoice\<lparr>inv_metadata_hash := metadata_hash\<rparr>
       in Ok (put_invoice invoice_id invoice s)))) s))"

definition freeze_invoice :: "env \<Rightarrow> Address \<Rightarrow> u64 \<Rightarrow> nft_state \<Rightarrow> nft_state res" where
  "freeze_invoice env admin invoice_id s =
     andThen (require_auth env admin) (\<lambda>_.
     andThen (nft_require_admin s admin) (\<lambda>_.
     andThen (nft_load_invoice s invoice_id) (\<lambda>_.
     let s = s\<lparr>nft_frozen := (nft_frozen s)(invoice_id \<mapsto> True)\<rparr>
     in Ok (nft_emit (invoice_frozen env invoice_id admin) s))))"

definition unfreeze_invoice :: "env \<Rightarrow> Address \<Rightarrow> u64 \<Rightarrow> nft_state \<Rightarrow> nft_state res" where
  "unfreeze_invoice env admin invoice_id s =
     andThen (require_auth env admin) (\<lambda>_.
     andThen (nft_require_admin s admin) (\<lambda>_.
     andThen (nft_load_invoice s invoice_id) (\<lambda>_.
     let s = s\<lparr>nft_frozen := (nft_frozen s)(invoice_id := None)\<rparr>
     in Ok (nft_emit (invoice_unfrozen env invoice_id admin) s))))"

definition add_allowed_currency :: "env \<Rightarrow> Address \<Rightarrow> Symbol \<Rightarrow> nft_state \<Rightarrow> nft_state res" where
  "add_allowed_currency env admin currency s =
     andThen (require_auth env admin) (\<lambda>_.
     andThen (nft_require_admin s admin) (\<lambda>_.
     Ok (s\<lparr>nft_currency_allowlist := (nft_currency_allowlist s)(currency \<mapsto> True)\<rparr>)))"

definition remove_allowed_currency :: "env \<Rightarrow> Address \<Rightarrow> Symbol \<Rightarrow> nft_state \<Rightarrow> nft_state res" where
  "remove_allowed_currency env admin currency s =
     andThen (require_auth env admin) (\<lambda>_.
     andThen (nft_require_admin s admin) (\<lambda>_.
     Ok (s\<lparr>nft_currency_allowlist := (nft_currency_allowlist s)(currency := None)\<rparr>)))"

section \<open>Views\<close>

definition get_invoice :: "nft_state \<Rightarrow> u64 \<Rightarrow> Invoice res" where
  "get_invoice s invoice_id = nft_load_invoice s invoice_id"

definition next_id :: "nft_state \<Rightarrow> u64" where
  "next_id s = unwrap_or (nft_next_id s) 1"

definition invoice_count :: "nft_state \<Rightarrow> u64" where
  "invoice_count s = unwrap_or (nft_next_id s) 1 - 1"

definition get_outstanding_exposure :: "nft_state \<Rightarrow> Address \<Rightarrow> i128" where
  "get_outstanding_exposure s sme = unwrap_or (nft_exposure s sme) 0"

definition is_invoice_frozen :: "nft_state \<Rightarrow> u64 \<Rightarrow> bool" where
  "is_invoice_frozen s invoice_id = unwrap_or (nft_frozen s invoice_id) False"

definition is_currency_allowed :: "nft_state \<Rightarrow> Symbol \<Rightarrow> bool" where
  "is_currency_allowed s currency = unwrap_or (nft_currency_allowlist s currency) False"

section \<open>Upgrade\<close>

definition nft_propose_upgrade :: "env \<Rightarrow> Address \<Rightarrow> BytesN32 \<Rightarrow> nft_state \<Rightarrow> nft_state res" where
  "nft_propose_upgrade env admin new_wasm_hash s =
     andThen (require_auth env admin) (\<lambda>_.
     andThen (nft_require_admin s admin) (\<lambda>_.
     let s = s\<lparr>nft_upgrade_proposal := Some (new_wasm_hash, timestamp env)\<rparr>
     in Ok (nft_emit (upgrade_proposed env admin new_wasm_hash) s)))"

definition nft_execute_upgrade :: "env \<Rightarrow> Address \<Rightarrow> nft_state \<Rightarrow> nft_state res" where
  "nft_execute_upgrade env admin s =
     andThen (require_auth env admin) (\<lambda>_.
     andThen (nft_require_admin s admin) (\<lambda>_.
     andThen (ok_or (nft_upgrade_proposal s) NoUpgradeProposed) (\<lambda>(wasm_hash, proposed_at).
     andThen (timelock_elapsed env proposed_at UpgradeTimelockNotElapsed) (\<lambda>_.
     let s = s\<lparr>nft_upgrade_proposal := None\<rparr>;
         s = nft_emit (upgrade_executed env admin wasm_hash) s
     in Ok (s\<lparr>nft_code := Some wasm_hash\<rparr>)))))"

section \<open>Entry points as steps\<close>

lemmas nft_op_defs =
  nft_initialize_def set_risk_registry_def set_authorized_callers_def mint_invoice_def
  amend_invoice_def withdraw_invoice_def set_listed_def set_funded_def set_repaid_def
  set_defaulted_def commit_metadata_hash_def freeze_invoice_def unfreeze_invoice_def
  add_allowed_currency_def remove_allowed_currency_def nft_propose_upgrade_def
  nft_execute_upgrade_def

text \<open>The documented behaviour of the decoder that \<open>migrate\<close> relies on: a record of the current
  encoding never comes out as an \<open>InvoiceV1\<close> (it is skipped, or the call traps).\<close>

definition v1_decoder :: "(Invoice \<Rightarrow> InvoiceV1 option res) \<Rightarrow> bool" where
  "v1_decoder D \<longleftrightarrow> (\<forall>i old. D i \<noteq> Ok (Some old))"

text \<open>A call of an entry point in the environment \<open>env\<close>, with the instances \<open>acs\<close> and \<open>rrs\<close> of the other
  contracts. A step at ledger time \<open>t\<close> leaves environment and instances open.\<close>

inductive nft_entry ::
    "(Address \<rightharpoonup> ac_state) \<Rightarrow> (Address \<rightharpoonup> rr_state) \<Rightarrow> env \<Rightarrow> nft_state \<Rightarrow> nft_state \<Rightarrow> bool"
  for acs :: "Address \<rightharpoonup> ac_state" and rrs :: "Address \<rightharpoonup> rr_state" and env :: env where
  "nft_initialize env a b s = Ok s' \<Longrightarrow> nft_entry acs rrs env s s'"
| "set_risk_registry env a b s = Ok s' \<Longrightarrow> nft_entry acs rrs env s s'"
| "set_authorized_callers env a b c s = Ok s' \<Longrightarrow> nft_entry acs rrs env s s'"
| "mint_invoice acs rrs env a h x cur due cid r notes s = Ok (k, s') \<Longrightarrow> nft_entry acs rrs env s s'"
| "amend_invoice acs env a k h x due cid r s = Ok s' \<Longrightarrow> nft_entry acs rrs env s s'"
| "withdraw_invoice acs env a k s = Ok s' \<Longrightarrow> nft_entry acs rrs env s s'"
| "set_listed acs env a k s = Ok s' \<Longrightarrow> nft_entry acs rrs env s s'"
| "set_funded acs env a k s = Ok s' \<Longrightarrow> nft_entry acs rrs env s s'"
| "set_repaid acs env a k s = Ok s' \<Longrightarrow> nft_entry acs rrs env s s'"
| "set_defaulted env a k s = Ok s' \<Longrightarrow> nft_entry acs rrs env s s'"
| "commit_metadata_hash acs env a k h s = Ok s' \<Longrightarrow> nft_entry acs rrs env s s'"
| "freeze_invoice env a k s = Ok s' \<Longrightarrow> nft_entry acs rrs env s s'"
| "unfreeze_invoice env a k s = Ok s' \<Longrightarrow> nft_entry acs rrs env s s'"
| "add_allowed_currency env a cur s = Ok s' \<Longrightarrow> nft_entry acs rrs env s s'"
| "remove_allowed_currency env a cur s = Ok s' \<Longrightarrow> nft_entry acs rrs env s s'"
| "nft_propose_upgrade env a w s = Ok s' \<Longrightarrow> nft_entry acs rrs env s s'"
| "nft_execute_upgrade env a s = Ok s' \<Longrightarrow> nft_entry acs rrs env s s'"
| "migrate D env a s = Ok s' \<Longrightarrow> v1_decoder D \<Longrightarrow> nft_entry acs rrs env s s'"

inductive nft_step :: "u64 \<Rightarrow> nft_state \<Rightarrow> nft_state \<Rightarrow> bool" where
  nft_call: "nft_entry acs rrs env s s' \<Longrightarrow> nft_step (timestamp env) s s'"

inductive nft_run :: "u64 \<Rightarrow> nft_state \<Rightarrow> u64 \<Rightarrow> nft_state \<Rightarrow> bool" where
  nft_here: "nft_run t s t s"
| nft_more: "nft_run t s u s' \<Longrightarrow> u \<le> v \<Longrightarrow> nft_step v s' s'' \<Longrightarrow> nft_run t s v s''"

lemma nft_require_eq_Ok [simp, res_simps]:
  "nft_require_admin s a = Ok u \<longleftrightarrow> nft_admin s = Some a"
  "nft_require_authorized_caller a [key] = Ok u \<longleftrightarrow> key = Some a"
  "nft_require_not_paused acs s = Ok u \<longleftrightarrow>
     (\<exists>c ac. nft_access_control s = Some c \<and> acs c = Some ac \<and> \<not> is_paused ac)"
  by (auto simp: nft_require_admin_def nft_require_not_paused_def split: option.splits)

declare nft_require_authorized_caller.simps [simp del]

lemma nft_load_eq_Ok [simp, res_simps]:
  "nft_load_invoice s k = Ok i \<longleftrightarrow> nft_invoice s k = Some (StoredV2 i)"
  by (simp add: nft_load_invoice_def split: option.splits StoredInvoice.splits)

lemmas nft_unfold = nft_op_defs Let_def with_guard_eq_Ok nft_release_exposure_def release_guard_def

section \<open>Interfaces\<close>

interpretation nft_guard: lock_cell nft_lock nft_put_lock
  by unfold_locales simp_all

interpretation nft_upgrade: timelocked_upgrade nft_admin nft_upgrade_proposal nft_code
    nft_propose_upgrade nft_execute_upgrade
  by unfold_locales (auto simp: nft_propose_upgrade_def nft_execute_upgrade_def Let_def)

section \<open>The migration loop\<close>

text \<open>What the loop makes of a slot, when current records are skipped.\<close>

fun migrated :: "StoredInvoice \<Rightarrow> StoredInvoice" where
  "migrated (StoredV1 old) = StoredV2 (upgrade_v1 old)"
| "migrated (StoredV2 i) = StoredV2 i"

lemma read_v1_migrates:
  assumes "v1_decoder D" "read_v1 D s k = Ok found"
  shows "(case found of None \<Rightarrow> s | Some old \<Rightarrow> put_invoice k (upgrade_v1 old) s)
    = s\<lparr>nft_invoice := (nft_invoice s)(k := map_option migrated (nft_invoice s k))\<rparr>"
  using assms
  by (auto simp: read_v1_def v1_decoder_def fun_upd_idem split: option.splits StoredInvoice.splits)

lemma migrate_loop_result:
  "migrate_loop D k n s = Ok s' \<Longrightarrow> v1_decoder D \<Longrightarrow>
     s' = s\<lparr>nft_invoice := (\<lambda>j. if k \<le> j \<and> j < n then map_option migrated (nft_invoice s j)
                            else nft_invoice s j)\<rparr>"
proof (induction D k n s rule: migrate_loop.induct)
  case (1 D k n s)
  show ?case
  proof (cases "k < n")
    case True
    with "1.prems" obtain found where f: "read_v1 D s k = Ok found"
      and rest: "migrate_loop D (k + 1) n
        (case found of None \<Rightarrow> s | Some old \<Rightarrow> put_invoice k (upgrade_v1 old) s) = Ok s'"
      by (subst (asm) migrate_loop.simps) (auto simp: Let_def)
    from "1.IH" [OF True f refl rest "1.prems"(2)] True show ?thesis
      unfolding read_v1_migrates [OF "1.prems"(2) f]
      by (auto intro!: arg_cong [where f = "\<lambda>m. nft_invoice_update m s"] ext)
  next
    case False
    then have "(\<lambda>j. if k \<le> j \<and> j < n then map_option migrated (nft_invoice s j)
        else nft_invoice s j) = nft_invoice s" by (auto simp: fun_eq_iff)
    with False "1.prems" show ?thesis by (subst (asm) migrate_loop.simps) simp
  qed
qed

lemma migrate_effect:
  assumes "migrate D env a s = Ok s'" "v1_decoder D"
  shows "nft_admin s = Some a" "authorised env a"
    "nft_migration_version s' =
       (if unwrap_or (nft_migration_version s) 0 < 2 then Some 2 else nft_migration_version s)"
    "s' = s\<lparr>nft_invoice := nft_invoice s', nft_migration_version := nft_migration_version s'\<rparr>"
    "nft_invoice s' = (\<lambda>j. if unwrap_or (nft_migration_version s) 0 < 2 \<and> 1 \<le> j \<and> j < next_id s
       then map_option migrated (nft_invoice s j) else nft_invoice s j)"
  using assms
  by (auto simp: migrate_def Let_def next_id_def dest!: migrate_loop_result split: if_splits)

lemma migrate_loop_succeeds:
  "\<forall>j i. k \<le> j \<and> nft_invoice s j = Some (StoredV2 i) \<longrightarrow> (\<exists>r. D i = Ok r) \<Longrightarrow> \<exists>s'. migrate_loop D k n s = Ok s'"
proof (induction D k n s rule: migrate_loop.induct)
  case (1 D k n s)
  show ?case
  proof (cases "k < n")
    case True
    obtain found where f: "read_v1 D s k = Ok found"
      using "1.prems" by (cases "nft_invoice s k"; cases "the (nft_invoice s k)") (auto simp: read_v1_def)
    let ?s = "case found of None \<Rightarrow> s | Some old \<Rightarrow> put_invoice k (upgrade_v1 old) s"
    have "\<exists>s'. migrate_loop D (k + 1) n ?s = Ok s'"
      using "1.prems" by (intro "1.IH" [OF True f refl]) (auto split: option.splits dest!: Suc_leD)
    with f True show ?thesis by (subst migrate_loop.simps) (simp add: Let_def)
  qed (simp add: migrate_loop.simps)
qed

lemma migrate_succeeds:
  assumes "\<forall>k i. nft_invoice s k = Some (StoredV2 i) \<longrightarrow> (\<exists>r. D i = Ok r)" "nft_admin s = Some a" "authorised env a"
  shows "\<exists>s'. migrate D env a s = Ok s'"
proof -
  have "\<exists>s''. migrate_loop D 1 n s' = Ok s''" if "nft_invoice s' = nft_invoice s" for s' n
    using assms(1) that by (intro migrate_loop_succeeds) metis
  then show ?thesis using assms(2,3) by (auto simp: migrate_def Let_def require_auth_def)
qed

section \<open>Invariants\<close>

text \<open>
  Every slot below the counter holds nothing or a well-formed record under its own id: a positive
  amount, a score of at most 100 with its tier, and the timestamps that its status implies.
\<close>

fun stamps_ok :: "InvoiceStatus \<Rightarrow> u64 option \<Rightarrow> u64 option \<Rightarrow> bool" where
  "stamps_ok Created f r \<longleftrightarrow> f = None \<and> r = None"
| "stamps_ok Listed f r \<longleftrightarrow> f = None \<and> r = None"
| "stamps_ok Funded f r \<longleftrightarrow> f \<noteq> None \<and> r = None"
| "stamps_ok Repaid f r \<longleftrightarrow> f \<noteq> None \<and> r \<noteq> None"
| "stamps_ok Defaulted f r \<longleftrightarrow> f \<noteq> None \<and> r = None"

definition invoice_ok :: "u64 \<Rightarrow> Invoice \<Rightarrow> bool" where
  "invoice_ok k i \<longleftrightarrow> inv_id i = k \<and> 0 < inv_amount i \<and> inv_risk_score i \<le> 100 \<and>
     inv_risk_tier i = from_score (inv_risk_score i) \<and> inv_debtor_hash i \<noteq> [] \<and> inv_ipfs_cid i \<noteq> [] \<and>
     stamps_ok (inv_status i) (inv_funded_at i) (inv_repaid_at i)"

definition nft_inv :: "nft_state \<Rightarrow> bool" where
  "nft_inv s \<longleftrightarrow> \<not> nft_lock s \<and> 1 \<le> next_id s \<and>
     (nft_next_id s = None \<longleftrightarrow> nft_admin s = None) \<and>
     (nft_admin s = None \<longrightarrow> nft_access_control s = None \<and> nft_invoice s = Map.empty) \<and>
     (\<forall>k x. nft_invoice s k = Some x \<longrightarrow> k < next_id s \<and> (\<exists>i. x = StoredV2 i \<and> invoice_ok k i)) \<and>
     (\<forall>a x. nft_exposure s a = Some x \<longrightarrow> I128_MIN \<le> x \<and> x \<le> 0)"

lemma nft_empty_inv: "nft_inv nft_empty"
  by (simp add: nft_inv_def nft_empty_def next_id_def)

lemma saturating_sub_nonpos:
  "x \<le> 0 \<Longrightarrow> 0 < y \<Longrightarrow> I128_MIN \<le> saturating_sub x y \<and> saturating_sub x y \<le> 0"
  by (auto simp: saturating_sub_def clamp_i128_def width_defs)

lemma nft_inv_invoice:
  "nft_inv s \<Longrightarrow> nft_invoice s k = Some (StoredV2 i) \<Longrightarrow> invoice_ok k i \<and> k < next_id s"
  by (auto simp: nft_inv_def)

lemma nft_inv_migrated: "nft_inv s \<Longrightarrow> map_option migrated (nft_invoice s j) = nft_invoice s j"
  by (cases "nft_invoice s j") (fastforce simp: nft_inv_def)+

lemma nft_inv_put_invoice:
  "nft_inv s \<Longrightarrow> nft_invoice s k \<noteq> None \<Longrightarrow> invoice_ok k i \<Longrightarrow> nft_inv (put_invoice k i s)"
  by (auto simp: nft_inv_def next_id_def)

lemma nft_inv_del_invoice:
  "nft_inv s \<Longrightarrow> nft_inv (s\<lparr>nft_invoice := (nft_invoice s)(k := None)\<rparr>)"
  by (auto simp: nft_inv_def next_id_def)

lemma nft_inv_release:
  "nft_inv s \<Longrightarrow> 0 < inv_amount i \<Longrightarrow> nft_inv (nft_release_exposure i s)"
  by (cases "nft_exposure s (inv_sme i)")
    (auto simp: nft_inv_def next_id_def nft_release_exposure_def Let_def saturating_sub_nonpos)

lemma nft_inv_frame [simp]:
  "nft_inv (s\<lparr>nft_events := es\<rparr>) = nft_inv s"
  "nft_inv (s\<lparr>nft_risk_registry := ra\<rparr>) = nft_inv s"
  "nft_inv (s\<lparr>nft_marketplace := m, nft_financing_pool := p\<rparr>) = nft_inv s"
  "nft_inv (s\<lparr>nft_frozen := fr\<rparr>) = nft_inv s"
  "nft_inv (s\<lparr>nft_currency_allowlist := cl\<rparr>) = nft_inv s"
  "nft_inv (s\<lparr>nft_upgrade_proposal := up\<rparr>) = nft_inv s"
  "nft_inv (s\<lparr>nft_code := co\<rparr>) = nft_inv s"
  "nft_inv (s\<lparr>nft_migration_version := v\<rparr>) = nft_inv s"
  by (simp_all add: nft_inv_def next_id_def)

lemma nft_inv_lock:
  "nft_inv s \<Longrightarrow> nft_inv (nft_put_lock False s)"
  "\<not> nft_lock s \<Longrightarrow> nft_put_lock False (nft_put_lock True s) = s"
  by (simp_all add: nft_inv_def next_id_def)

text \<open>The effect of each operation on the table of invoices, in one equation.\<close>

definition minted ::
    "env \<Rightarrow> u64 \<Rightarrow> Address \<Rightarrow> Bytes \<Rightarrow> i128 \<Rightarrow> Symbol \<Rightarrow> u64 \<Rightarrow> string \<Rightarrow> u32 \<Rightarrow> string option \<Rightarrow> Invoice" where
  "minted env k a h x cur due cid r notes =
     \<lparr>inv_id = k, inv_sme = a, inv_debtor_hash = h, inv_amount = x, inv_currency = cur,
      inv_due_date = due, inv_ipfs_cid = cid, inv_metadata_hash = [], inv_risk_score = r,
      inv_risk_tier = from_score r, inv_status = Created, inv_created_at = timestamp env,
      inv_funded_at = None, inv_repaid_at = None, inv_notes = notes\<rparr>"

lemma mint_invoice_eq_Ok:
  "mint_invoice acs rrs env a h x cur due cid r notes s = Ok (k, s') \<longleftrightarrow>
     authorised env a \<and> nft_require_not_paused acs s = Ok () \<and> \<not> nft_lock s \<and>
     0 < x \<and> timestamp env < due \<and> r \<le> 100 \<and> h \<noteq> [] \<and> length h \<le> MAX_DEBTOR_HASH_LEN \<and>
     cid \<noteq> [] \<and> length cid \<le> MAX_IPFS_CID_LEN \<and> nft_check_credit rrs a x s = Ok () \<and>
     k = next_id s \<and> k + 1 \<le> U64_MAX \<and>
     s' = nft_put_lock False (nft_emit (invoice_created env k a x)
        (put_invoice k (minted env k a h x cur due cid r notes) s\<lparr>nft_next_id := Some (k + 1)\<rparr>))"
proof -
  have "nft_check_credit rrs a x (nft_put_lock True s) = nft_check_credit rrs a x s"
    by (simp add: nft_check_credit_def cong: option.case_cong sum.case_cong if_cong)
  then show ?thesis
    by (auto simp: mint_invoice_def Let_def release_guard_def next_id_def minted_def)
qed

lemma minted_ok: "0 < x \<Longrightarrow> r \<le> 100 \<Longrightarrow> h \<noteq> [] \<Longrightarrow> cid \<noteq> [] \<Longrightarrow>
    invoice_ok k (minted env k a h x cur due cid r notes)"
  by (simp add: invoice_ok_def minted_def)

lemma amend_invoice_effect:
  assumes "amend_invoice acs env a k h x due cid r s = Ok s'"
  shows "\<exists>i. nft_invoice s k = Some (StoredV2 i) \<and> inv_status i = Created \<and> inv_sme i = a \<and>
    authorised env a \<and> 0 < x \<and> r \<le> 100 \<and> h \<noteq> [] \<and> cid \<noteq> [] \<and> timestamp env < due \<and>
    s' = nft_emit (invoice_amended env k a) (put_invoice k (i\<lparr>inv_debtor_hash := h, inv_amount := x, inv_due_date := due,
      inv_ipfs_cid := cid, inv_risk_score := r, inv_risk_tier := from_score r\<rparr>) s)"
  using assms by (auto simp: amend_invoice_def Let_def)

lemma withdraw_invoice_effect:
  assumes "withdraw_invoice acs env a k s = Ok s'"
  shows "\<exists>i. nft_invoice s k = Some (StoredV2 i) \<and> inv_status i = Created \<and> inv_sme i = a \<and>
    authorised env a \<and>
    s' = nft_emit (invoice_withdrawn env k a) (nft_release_exposure i (s\<lparr>nft_invoice := (nft_invoice s)(k := None)\<rparr>))"
  using assms by (auto simp: withdraw_invoice_def Let_def)

lemma set_listed_effect:
  assumes "set_listed acs env a k s = Ok s'"
  shows "\<exists>i. nft_invoice s k = Some (StoredV2 i) \<and> inv_status i = Created \<and>
    nft_marketplace s = Some a \<and> authorised env a \<and> nft_require_not_paused acs s = Ok () \<and>
    s' = nft_put_lock False (nft_emit (invoice_listed env k (inv_sme i) (inv_amount i)) (put_invoice k (i\<lparr>inv_status := Listed\<rparr>) s))"
  using assms by (auto simp: set_listed_def Let_def with_guard_eq_Ok)

lemma set_funded_effect:
  assumes "set_funded acs env a k s = Ok s'"
  shows "\<exists>i. nft_invoice s k = Some (StoredV2 i) \<and> inv_status i = Listed \<and>
    nft_financing_pool s = Some a \<and> authorised env a \<and> nft_require_not_paused acs s = Ok () \<and>
    s' = nft_put_lock False (nft_emit (invoice_funded env k a (inv_amount i)) (put_invoice k
      (i\<lparr>inv_status := Funded, inv_funded_at := Some (timestamp env)\<rparr>) s))"
  using assms by (auto simp: set_funded_def Let_def with_guard_eq_Ok)

lemma set_repaid_effect:
  assumes "set_repaid acs env a k s = Ok s'"
  shows "\<exists>i. nft_invoice s k = Some (StoredV2 i) \<and> inv_status i = Funded \<and>
    nft_financing_pool s = Some a \<and> authorised env a \<and> nft_require_not_paused acs s = Ok () \<and>
    s' = nft_emit (invoice_repaid env k (inv_sme i) (inv_amount i)) (nft_release_exposure i (put_invoice k
      (i\<lparr>inv_status := Repaid, inv_repaid_at := Some (timestamp env)\<rparr>) s))"
  using assms by (auto simp: set_repaid_def Let_def nft_release_exposure_def)

lemma set_defaulted_effect:
  assumes "set_defaulted env a k s = Ok s'"
  shows "\<exists>i. nft_invoice s k = Some (StoredV2 i) \<and> inv_status i = Funded \<and>
    nft_admin s = Some a \<and> authorised env a \<and> inv_due_date i < timestamp env \<and>
    s' = nft_put_lock False (nft_emit (invoice_defaulted env k (inv_sme i)) (nft_release_exposure i
      (put_invoice k (i\<lparr>inv_status := Defaulted\<rparr>) s)))"
  using assms by (auto simp: set_defaulted_def Let_def nft_release_exposure_def with_guard_eq_Ok)

lemma commit_metadata_hash_effect:
  assumes "commit_metadata_hash acs env a k h s = Ok s'"
  shows "\<exists>i. nft_invoice s k = Some (StoredV2 i) \<and> inv_status i = Created \<and> inv_sme i = a \<and>
    inv_metadata_hash i = [] \<and> h \<noteq> [] \<and> authorised env a \<and>
    s' = nft_put_lock False (put_invoice k (i\<lparr>inv_metadata_hash := h\<rparr>) s)"
  using assms by (auto simp: commit_metadata_hash_def Let_def with_guard_eq_Ok)

lemmas nft_effects =
  amend_invoice_effect withdraw_invoice_effect set_listed_effect set_funded_effect
  set_repaid_effect set_defaulted_effect commit_metadata_hash_effect

lemmas nft_inv_intros =
  nft_inv_lock(1) nft_inv_put_invoice nft_inv_release nft_inv_del_invoice

lemma nft_entry_inv: "nft_entry acs rrs env s s' \<Longrightarrow> nft_inv s \<Longrightarrow> nft_inv s'"
proof (induction rule: nft_entry.induct)
  case (1 a b s s')
  then show ?case by (auto simp: nft_initialize_def nft_inv_def next_id_def split: if_splits)
next
  case (4 a h x cur due cid r memo s k s')
  then show ?case
    by (auto simp: mint_invoice_eq_Ok nft_inv_def next_id_def minted_ok less_Suc_eq)
next
  case (18 D a s s')
  note m = migrate_effect [OF 18(1,2)]
  have "nft_invoice s' = nft_invoice s"
    using nft_inv_migrated [OF 18(3)] by (simp add: m(5) fun_eq_iff)
  with m(4) 18(3) show ?case by (metis nft_inv_frame(8) nft_state.surjective nft_state.update_convs(1))
next
  case (5 a m h x due cid r s s')
  from amend_invoice_effect [OF 5(1)] nft_inv_invoice [OF 5(2)] 5(2) show ?case
    by (fastforce intro!: nft_inv_intros simp: invoice_ok_def)
next
  case (6 a m s s')
  from withdraw_invoice_effect [OF 6(1)] nft_inv_invoice [OF 6(2)] 6(2) show ?case
    by (fastforce intro!: nft_inv_intros simp: invoice_ok_def)
next
  case (7 a m s s')
  from set_listed_effect [OF 7(1)] nft_inv_invoice [OF 7(2)] 7(2) show ?case
    by (fastforce intro!: nft_inv_intros simp: invoice_ok_def)
next
  case (8 a m s s')
  from set_funded_effect [OF 8(1)] nft_inv_invoice [OF 8(2)] 8(2) show ?case
    by (fastforce intro!: nft_inv_intros simp: invoice_ok_def)
next
  case (9 a m s s')
  from set_repaid_effect [OF 9(1)] nft_inv_invoice [OF 9(2)] 9(2) show ?case
    by (fastforce intro!: nft_inv_intros simp: invoice_ok_def)
next
  case (10 a m s s')
  from set_defaulted_effect [OF 10(1)] nft_inv_invoice [OF 10(2)] 10(2) show ?case
    by (fastforce intro!: nft_inv_intros simp: invoice_ok_def)
next
  case (11 a m h s s')
  from commit_metadata_hash_effect [OF 11(1)] nft_inv_invoice [OF 11(2)] 11(2) show ?case
    by (fastforce intro!: nft_inv_intros simp: invoice_ok_def)
qed (auto simp: set_risk_registry_def set_authorized_callers_def freeze_invoice_def Let_def
    unfreeze_invoice_def add_allowed_currency_def remove_allowed_currency_def
    nft_propose_upgrade_def nft_execute_upgrade_def)

lemma nft_step_inv: "nft_step t s s' \<Longrightarrow> nft_inv s \<Longrightarrow> nft_inv s'"
  by (auto elim: nft_step.cases intro: nft_entry_inv)

lemma nft_run_inv: "nft_run t s u s' \<Longrightarrow> nft_inv s \<Longrightarrow> nft_inv s'"
  by (induction rule: nft_run.induct) (auto dest: nft_step_inv)

section \<open>The specification of the lifecycle\<close>

text \<open>
  \<open>lifecycle t i j\<close>: what one operation at time \<open>t\<close> may do to an invoice. It is the state machine that
  the documentation draws, with what else may change in each state.
\<close>

inductive lifecycle :: "u64 \<Rightarrow> Invoice \<Rightarrow> Invoice \<Rightarrow> bool" where
  lc_stay: "lifecycle t i i"
| lc_edit: "inv_status i = Created \<Longrightarrow> inv_status j = Created \<Longrightarrow> inv_sme j = inv_sme i \<Longrightarrow>
    inv_currency j = inv_currency i \<Longrightarrow> inv_created_at j = inv_created_at i \<Longrightarrow>
    inv_metadata_hash i = [] \<or> inv_metadata_hash j = inv_metadata_hash i \<Longrightarrow> lifecycle t i j"
| lc_list: "inv_status i = Created \<Longrightarrow> lifecycle t i (i\<lparr>inv_status := Listed\<rparr>)"
| lc_fund: "inv_status i = Listed \<Longrightarrow>
    lifecycle t i (i\<lparr>inv_status := Funded, inv_funded_at := Some t\<rparr>)"
| lc_repay: "inv_status i = Funded \<Longrightarrow>
    lifecycle t i (i\<lparr>inv_status := Repaid, inv_repaid_at := Some t\<rparr>)"
| lc_default: "inv_status i = Funded \<Longrightarrow> inv_due_date i < t \<Longrightarrow>
    lifecycle t i (i\<lparr>inv_status := Defaulted\<rparr>)"

inductive_cases lifecycleE: "lifecycle t i j"

lemma nft_entry_lifecycle:
  "nft_entry acs rrs env s s' \<Longrightarrow> nft_inv s \<Longrightarrow> nft_invoice s k = Some (StoredV2 i) \<Longrightarrow>
     nft_invoice s' k = None \<and> inv_status i = Created \<or>
     (\<exists>j. nft_invoice s' k = Some (StoredV2 j) \<and> lifecycle (timestamp env) i j)"
proof (induction rule: nft_entry.induct)
  case (4 a h x cur due cid r memo s m s')
  from 4(2,3) have "k < next_id s" by (auto simp: nft_inv_def)
  with 4 show ?case by (auto simp: mint_invoice_eq_Ok intro: lc_stay)
next
  case (18 D a s s')
  from migrate_effect(5) [OF 18(1,2)] nft_inv_migrated [OF 18(3)] 18(4) show ?case
    by (auto intro: lc_stay)
next
  case (5 a m h x due cid r s s')
  show ?case
  proof (cases "m = k")
    case True
    with 5 show ?thesis by (auto dest!: amend_invoice_effect intro!: lc_edit)
  next
    case False
    with 5 show ?thesis by (auto dest!: amend_invoice_effect intro: lc_stay)
  qed
next
  case (6 a m s s')
  then show ?case
    by (cases "m = k") (auto dest!: withdraw_invoice_effect simp: nft_release_exposure_def Let_def
        intro: lifecycle.intros)
next
  case (7 a m s s')
  then show ?case
    by (cases "m = k") (auto dest!: set_listed_effect simp: nft_release_exposure_def Let_def
        intro: lifecycle.intros)
next
  case (8 a m s s')
  then show ?case
    by (cases "m = k") (auto dest!: set_funded_effect simp: nft_release_exposure_def Let_def
        intro: lifecycle.intros)
next
  case (9 a m s s')
  then show ?case
    by (cases "m = k") (auto dest!: set_repaid_effect simp: nft_release_exposure_def Let_def
        intro: lifecycle.intros)
next
  case (10 a m s s')
  then show ?case
    by (cases "m = k") (auto dest!: set_defaulted_effect simp: nft_release_exposure_def Let_def
        intro: lifecycle.intros)
next
  case (11 a m h s s')
  show ?case
  proof (cases "m = k")
    case True
    with 11 show ?thesis by (auto dest!: commit_metadata_hash_effect intro!: lc_edit)
  next
    case False
    with 11 show ?thesis by (auto dest!: commit_metadata_hash_effect intro: lc_stay)
  qed
next
  case (1 a b s s')
  then show ?case by (auto simp: nft_initialize_def intro: lc_stay split: if_splits)
qed (auto simp: Let_def set_risk_registry_def set_authorized_callers_def freeze_invoice_def unfreeze_invoice_def add_allowed_currency_def
    remove_allowed_currency_def nft_propose_upgrade_def nft_execute_upgrade_def
    intro: lifecycle.intros split: if_splits)

lemma nft_step_lifecycle:
  "nft_step t s s' \<Longrightarrow> nft_inv s \<Longrightarrow> nft_invoice s k = Some (StoredV2 i) \<Longrightarrow>
     nft_invoice s' k = None \<and> inv_status i = Created \<or>
     (\<exists>j. nft_invoice s' k = Some (StoredV2 j) \<and> lifecycle t i j)"
  by (blast elim: nft_step.cases dest: nft_entry_lifecycle)

lemma nft_entry_next_id: "nft_entry acs rrs env s s' \<Longrightarrow> nft_inv s \<Longrightarrow> next_id s \<le> next_id s'"
proof (induction rule: nft_entry.induct)
  case (1 a b s s')
  then show ?case by (auto simp: nft_initialize_def nft_inv_def next_id_def split: if_splits)
next
  case (4 a h x cur due cid r memo s m s')
  then show ?case by (auto simp: mint_invoice_eq_Ok next_id_def)
next
  case (18 D a s s')
  from migrate_effect(4) [OF 18(1,2)] show ?case
    by (metis next_id_def nft_state.ext_inject nft_state.surjective nft_state.update_convs(1,5) order_refl)
qed (auto simp: Let_def set_risk_registry_def set_authorized_callers_def freeze_invoice_def
    unfreeze_invoice_def add_allowed_currency_def remove_allowed_currency_def
    nft_propose_upgrade_def nft_execute_upgrade_def nft_release_exposure_def next_id_def
    dest!: nft_effects split: if_splits)

lemma nft_step_next_id: "nft_step t s s' \<Longrightarrow> nft_inv s \<Longrightarrow> next_id s \<le> next_id s'"
  by (blast elim: nft_step.cases dest: nft_entry_next_id)

lemma nft_run_next_id: "nft_run t s u s' \<Longrightarrow> nft_inv s \<Longrightarrow> next_id s \<le> next_id s'"
  by (induction rule: nft_run.induct) (auto dest: nft_step_next_id nft_run_inv intro: order_trans)

text \<open>Only releases change the recorded exposure, and they lower it.\<close>

lemma release_exposure_le:
  assumes "nft_inv s" "nft_invoice s k = Some (StoredV2 i)" "nft_exposure s' = nft_exposure (nft_release_exposure i s)"
  shows "get_outstanding_exposure s' a \<le> get_outstanding_exposure s a"
proof (cases "inv_sme i = a")
  case True
  have e: "I128_MIN \<le> get_outstanding_exposure s a" "get_outstanding_exposure s a \<le> 0"
    using assms(1) by (cases "nft_exposure s a"; auto simp: nft_inv_def get_outstanding_exposure_def I128_MIN_def)+
  have "0 < inv_amount i" using nft_inv_invoice [OF assms(1,2)] by (simp add: invoice_ok_def)
  with True e assms(3) show ?thesis
    by (auto simp: get_outstanding_exposure_def nft_release_exposure_def Let_def saturating_sub_def
        clamp_i128_def width_defs)
next
  case False
  with assms(3) show ?thesis by (simp add: get_outstanding_exposure_def nft_release_exposure_def Let_def)
qed

lemma nft_entry_exposure:
  assumes "nft_entry acs rrs env s s'" "nft_inv s"
  shows "get_outstanding_exposure s' a \<le> get_outstanding_exposure s a"
  using assms
proof (induction rule: nft_entry.induct)
  case (6 b k s s')
  with withdraw_invoice_effect [OF 6(1)] release_exposure_le [OF 6(2)] show ?case
    by (auto simp: nft_release_exposure_def Let_def)
next
  case (9 b k s s')
  with set_repaid_effect [OF 9(1)] release_exposure_le [OF 9(2)] show ?case
    by (auto simp: nft_release_exposure_def Let_def)
next
  case (10 b k s s')
  with set_defaulted_effect [OF 10(1)] release_exposure_le [OF 10(2)] show ?case
    by (auto simp: nft_release_exposure_def Let_def)
next
  case (4 b h x cur due cid r memo s m s')
  then show ?case by (auto simp: mint_invoice_eq_Ok get_outstanding_exposure_def)
next
  case (18 D b s s')
  from arg_cong [OF migrate_effect(4) [OF 18(1,2)], of nft_exposure] show ?case
    by (simp add: get_outstanding_exposure_def)
qed (auto simp: Let_def nft_initialize_def set_risk_registry_def set_authorized_callers_def freeze_invoice_def
    unfreeze_invoice_def add_allowed_currency_def remove_allowed_currency_def get_outstanding_exposure_def
    nft_propose_upgrade_def nft_execute_upgrade_def dest!: nft_effects split: if_splits)

lemma nft_run_exposure:
  assumes "nft_run t s u s'" "nft_inv s"
  shows "get_outstanding_exposure s' a \<le> get_outstanding_exposure s a"
  using assms
proof (induction rule: nft_run.induct)
  case (nft_more t s u s' v s'')
  have "nft_inv s'" using nft_run_inv [OF nft_more(1,5)] .
  with nft_more show ?case by (blast elim: nft_step.cases intro: order_trans nft_entry_exposure)
qed simp

text \<open>The terms of an invoice: all that is not its status or a timestamp of a transition.\<close>

definition terms_of :: "Invoice \<Rightarrow> Invoice" where
  "terms_of i = i\<lparr>inv_status := Created, inv_funded_at := None, inv_repaid_at := None\<rparr>"

fun status_rank :: "InvoiceStatus \<Rightarrow> nat" where
  "status_rank Created = 0"
| "status_rank Listed = 1"
| "status_rank Funded = 2"
| "status_rank Repaid = 3"
| "status_rank Defaulted = 3"

lemma lifecycle_listed:
  "lifecycle t i j \<Longrightarrow> inv_status i \<noteq> Created \<Longrightarrow>
     terms_of j = terms_of i \<and> (j = i \<or> status_rank (inv_status i) < status_rank (inv_status j))"
  by (erule lifecycleE) (auto simp: terms_of_def)

lemma status_rank_final: "status_rank st = 3 \<longleftrightarrow> st = Repaid \<or> st = Defaulted"
  and status_rank_le: "status_rank st \<le> 3"
  and status_rank_pos: "0 < status_rank st \<longleftrightarrow> st \<noteq> Created"
  by (cases st; simp)+

lemma nft_run_listed:
  assumes "nft_run t s u s'" "nft_inv s" "nft_invoice s k = Some (StoredV2 i)" "inv_status i \<noteq> Created"
  shows "\<exists>j. nft_invoice s' k = Some (StoredV2 j) \<and> terms_of j = terms_of i \<and>
    (j = i \<or> status_rank (inv_status i) < status_rank (inv_status j))"
  using assms
proof (induction rule: nft_run.induct)
  case (nft_more t s u s' v s'')
  then obtain j where j: "nft_invoice s' k = Some (StoredV2 j)" "terms_of j = terms_of i"
      "j = i \<or> status_rank (inv_status i) < status_rank (inv_status j)" by blast
  with nft_more.prems have "inv_status j \<noteq> Created"
    by (auto simp flip: status_rank_pos)
  with nft_step_lifecycle [OF nft_more.hyps(3) nft_run_inv [OF nft_more.hyps(1) nft_more.prems(1)] j(1)]
  obtain l where "nft_invoice s'' k = Some (StoredV2 l)" "lifecycle v j l" by blast
  with lifecycle_listed \<open>inv_status j \<noteq> Created\<close> j(2,3) show ?case by fastforce
qed blast

section \<open>Properties\<close>

text \<open>A run for the witnesses: one invoice is minted, listed and funded.\<close>

definition nft_demo_ac :: "Address \<rightharpoonup> ac_state" where
  "nft_demo_ac = [100 \<mapsto> ac_empty\<lparr>ac_admin := Some 1, ac_paused := Some False\<rparr>]"

definition nft_demo_listed :: "nft_state res" where
  "nft_demo_listed =
     andThen (nft_initialize (open_env 300 10) 1 100 nft_empty) (\<lambda>s.
     andThen (set_authorized_callers (open_env 300 20) 1 400 500 s) (\<lambda>s.
     andThen (mint_invoice nft_demo_ac Map.empty (open_env 300 30) 8 [1] 1000 ''USDC'' 9000 ''Qm'' 35 None s) (\<lambda>(k, s).
     set_listed nft_demo_ac (open_env 300 40) 400 k s)))"

lemma nft_demo_run: "nft_demo_listed = Ok s \<Longrightarrow> nft_run 0 nft_empty 40 s"
proof -
  assume "nft_demo_listed = Ok s"
  then obtain s1 s2 s3 k where s: "nft_initialize (open_env 300 10) 1 100 nft_empty = Ok s1"
      "set_authorized_callers (open_env 300 20) 1 400 500 s1 = Ok s2"
      "mint_invoice nft_demo_ac Map.empty (open_env 300 30) 8 [1] 1000 ''USDC'' 9000 ''Qm'' 35 None s2 = Ok (k, s3)"
      "set_listed nft_demo_ac (open_env 300 40) 400 k s3 = Ok s"
    by (auto simp: nft_demo_listed_def)
  note st = nft_call [OF nft_entry.intros(1) [OF s(1)]] nft_call [OF nft_entry.intros(3) [OF s(2)]] nft_call [OF nft_entry.intros(4) [OF s(3)]]
    nft_call [OF nft_entry.intros(7) [OF s(4)]]
  have "nft_run 0 nft_empty (timestamp (open_env 300 40)) s"
    by (rule nft_more [OF nft_more [OF nft_more [OF nft_more [OF nft_here _ st(1)] _ st(2)]
            _ st(3)] _ st(4)]) simp_all
  then show ?thesis by simp
qed

lemmas nft_eval =
  nft_demo_listed_def nft_demo_ac_def nft_op_defs nft_empty_def ac_empty_def Let_def with_guard_def
  acquire_guard_def release_guard_def nft_require_admin_def nft_require_not_paused_def
  nft_require_authorized_caller.simps nft_load_invoice_def is_paused_def require_not_self_def
  require_distinct_def require_non_zero_amount_def require_future_timestamp_def
  require_valid_risk_score_def require_non_empty_bytes_def require_max_length_bytes_def
  require_non_empty_string_def require_max_length_string_def nft_check_credit_def
  checked_add_u64_def U64_MAX_def MAX_DEBTOR_HASH_LEN_def MAX_IPFS_CID_LEN_def from_score_def

lemma nft_demo_state:
  "\<exists>s i. nft_demo_listed = Ok s \<and> nft_invoice s 1 = Some (StoredV2 i) \<and> inv_status i = Listed \<and>
     inv_amount i = 1000 \<and> inv_sme i = 8 \<and> nft_admin s = Some 1 \<and> nft_exposure s 8 = None"
  by (simp add: nft_eval next_id_def cong: andThen_weak_cong del: andThen_eq_Ok)

lemma nft_demo_mints:
  "\<exists>s s1 s2. nft_demo_listed = Ok s \<and>
     mint_invoice nft_demo_ac Map.empty (open_env 300 41) 8 [1] 5 ''USD'' 900 ''Qm'' 3 None s = Ok (2, s1) \<and>
     mint_invoice nft_demo_ac Map.empty (open_env 300 42) 9 [1] 5 ''USD'' 900 ''Qm'' 3 None s1 = Ok (3, s2)"
  by (simp add: nft_eval cong: andThen_weak_cong del: andThen_eq_Ok)

lemma nft_demo_funds:
  "\<exists>s s'. nft_demo_listed = Ok s \<and> set_funded nft_demo_ac (open_env 300 50) 500 1 s = Ok s'"
  by (simp add: nft_eval cong: andThen_weak_cong del: andThen_eq_Ok)

text \<open>
  C7: the contract refines the documented lifecycle. From every reachable state, each call leaves an
  invoice as it is, or moves it along one arrow of \<open>lifecycle\<close>: edited by its SME while \<open>Created\<close>
  (a committed metadata hash stays), \<open>Created\<close> to \<open>Listed\<close> to \<open>Funded\<close> to \<open>Repaid\<close>, or \<open>Funded\<close> to
  \<open>Defaulted\<close> after the due date, with nothing but the status and its timestamp changed; only a
  \<open>Created\<close> invoice can disappear.
\<close>

theorem invoice_lifecycle_refined:
  assumes "nft_run t0 nft_empty t s" "nft_step u s s'" "get_invoice s k = Ok i"
  shows "nft_invoice s' k = None \<and> inv_status i = Created \<or>
    (\<exists>j. get_invoice s' k = Ok j \<and> lifecycle u i j)"
  using nft_step_lifecycle [OF assms(2) nft_run_inv [OF assms(1) nft_empty_inv]] assms(3)
  by (simp add: get_invoice_def)

theorem invoice_lifecycle_refined_witness:
  "\<exists>s s' i j. set_funded nft_demo_ac (open_env 300 50) 500 1 s = Ok s' \<and> get_invoice s 1 = Ok i \<and>
     inv_status i = Listed \<and> get_invoice s' 1 = Ok j \<and> lifecycle 50 i j"
proof -
  obtain s s' where s: "nft_demo_listed = Ok s"
      "set_funded nft_demo_ac (open_env 300 50) 500 1 s = Ok s'"
    using nft_demo_funds by blast
  then obtain i where i: "get_invoice s 1 = Ok i" "inv_status i = Listed"
    using set_funded_effect [OF s(2)] by (auto simp: get_invoice_def)
  from invoice_lifecycle_refined [OF nft_demo_run [OF s(1)] nft_call [OF nft_entry.intros(8) [OF s(2)]] i(1)] s i
  show ?thesis by auto
qed

text \<open>
  C32: once an invoice is listed, its terms (SME, debtor, amount, currency, due date, documents,
  risk) never change again, along every run; its status only moves forward, and a \<open>Repaid\<close> or
  \<open>Defaulted\<close> invoice is final.
\<close>

theorem listed_terms_final:
  assumes "nft_run t0 nft_empty t s" "nft_run t s u s'" "get_invoice s k = Ok i"
    "inv_status i \<noteq> Created"
  shows "\<exists>j. get_invoice s' k = Ok j \<and> terms_of j = terms_of i \<and>
    status_rank (inv_status i) \<le> status_rank (inv_status j) \<and>
    (inv_status i \<in> {Repaid, Defaulted} \<longrightarrow> j = i)"
proof -
  obtain j where j: "nft_invoice s' k = Some (StoredV2 j)" "terms_of j = terms_of i"
      "j = i \<or> status_rank (inv_status i) < status_rank (inv_status j)"
    using nft_run_listed [OF assms(2) nft_run_inv [OF assms(1) nft_empty_inv], of k i] assms(3,4)
    by (auto simp: get_invoice_def)
  have "j = i" if "inv_status i \<in> {Repaid, Defaulted}"
    using j(3) that status_rank_le [of "inv_status j"] by auto
  with j show ?thesis by (auto simp: get_invoice_def)
qed

theorem listed_terms_final_witness:
  "\<exists>s s' i j. nft_run 40 s 50 s' \<and> get_invoice s 1 = Ok i \<and> inv_status i = Listed \<and>
     get_invoice s' 1 = Ok j \<and> terms_of j = terms_of i"
proof -
  obtain s s' where s: "nft_demo_listed = Ok s"
      "set_funded nft_demo_ac (open_env 300 50) 500 1 s = Ok s'"
    using nft_demo_funds by blast
  then obtain i where i: "get_invoice s 1 = Ok i" "inv_status i = Listed"
    using set_funded_effect [OF s(2)] by (auto simp: get_invoice_def)
  have r: "nft_run 40 s 50 s'"
    using nft_more [OF nft_here [of 40 s] _ nft_call [OF nft_entry.intros(8) [OF s(2)]]] by simp
  from listed_terms_final [OF nft_demo_run [OF s(1)] r i(1)] r i show ?thesis by auto
qed

text \<open>
  Invoice ids are never reused. A minted invoice takes an id that no stored invoice has, and an
  invoice minted after any further run (withdrawals included) has a larger id.
\<close>

theorem invoice_ids_fresh:
  assumes "nft_run t0 nft_empty t s" "mint_invoice acs rrs env a h x cur due cid r n s = Ok (k, s1)"
    "nft_run u s1 u' s2" "mint_invoice acs' rrs' env' a' h' x' cur' due' cid' r' n' s2 = Ok (k', s3)"
  shows "nft_invoice s k = None \<and> k < k'"
proof -
  have inv: "nft_inv s" using assms(1) nft_empty_inv by (rule nft_run_inv)
  then have inv1: "nft_inv s1" using nft_call [OF nft_entry.intros(4) [OF assms(2)]] nft_step_inv by blast
  from assms(2) have "k = next_id s" "next_id s1 = k + 1"
    by (auto simp: mint_invoice_eq_Ok next_id_def)
  moreover from assms(4) have "k' = next_id s2" by (auto simp: mint_invoice_eq_Ok)
  moreover have "nft_invoice s k = None"
    using inv calculation(1) by (cases "nft_invoice s k") (fastforce simp: nft_inv_def)+
  ultimately show ?thesis using nft_run_next_id [OF assms(3) inv1] by simp
qed

theorem invoice_ids_fresh_witness:
  "\<exists>s s1 s2. mint_invoice nft_demo_ac Map.empty (open_env 300 41) 8 [1] 5 ''USD'' 900 ''Qm'' 3 None s = Ok (2, s1) \<and>
     mint_invoice nft_demo_ac Map.empty (open_env 300 42) 9 [1] 5 ''USD'' 900 ''Qm'' 3 None s1 = Ok (3, s2) \<and>
     nft_invoice s 2 = None"
proof -
  obtain s s1 s2 where s: "nft_demo_listed = Ok s"
      "mint_invoice nft_demo_ac Map.empty (open_env 300 41) 8 [1] 5 ''USD'' 900 ''Qm'' 3 None s = Ok (2, s1)"
      "mint_invoice nft_demo_ac Map.empty (open_env 300 42) 9 [1] 5 ''USD'' 900 ''Qm'' 3 None s1 = Ok (3, s2)"
    using nft_demo_mints by blast
  from invoice_ids_fresh [OF nft_demo_run [OF s(1)] s(2) nft_here s(3)] s show ?thesis by blast
qed

lemma amend_unlimited:
  assumes "get_invoice s k = Ok i" "inv_status i = Created" "inv_sme i = a" "authorised env a"
    "nft_require_not_paused acs s = Ok ()" "0 < y" "timestamp env < d" "h \<noteq> []" "cid \<noteq> []" "r \<le> 100"
  shows "\<exists>s' j. amend_invoice acs env a k h y d cid r s = Ok s' \<and> get_invoice s' k = Ok j \<and> inv_amount j = y"
  using assms
  by (simp add: amend_invoice_def get_invoice_def require_auth_def require_non_zero_amount_def
      require_future_timestamp_def require_valid_risk_score_def require_non_empty_bytes_def
      require_non_empty_string_def nft_load_invoice_def Let_def)

text \<open>
  C33: the credit limit does not bound what an SME has outstanding. The recorded exposure of an SME
  starts at zero and never rises along a run, minting included: only releases change it, and they
  lower it. So the check of a mint accepts exactly the amounts up to the positive limit \<open>L\<close> minus an
  exposure that is at most zero: every amount up to \<open>L\<close>, however many invoices are outstanding, and
  more than \<open>L\<close> once invoices were released. An amendment of an invoice that is not listed accepts any
  positive amount, because it asks for no limit.
\<close>

theorem credit_limit_not_cumulative:
  assumes "nft_run t0 nft_empty t s" "nft_risk_registry s = Some ra" "rrs ra = Some rg"
    "get_sme_profile rg a = Ok p" "0 < sme_credit_limit p" "0 < x" "x \<le> I128_MAX"
  shows "get_outstanding_exposure s a \<le> 0 \<and>
    (\<forall>t' s'. nft_run t s t' s' \<longrightarrow> get_outstanding_exposure s' a \<le> get_outstanding_exposure s a) \<and>
    (nft_check_credit rrs a x s = Ok () \<longleftrightarrow> x \<le> sme_credit_limit p - get_outstanding_exposure s a) \<and>
    (\<forall>k i acs env h y d cid r. get_invoice s k = Ok i \<and> inv_status i = Created \<and> inv_sme i = a \<and>
       authorised env a \<and> nft_require_not_paused acs s = Ok () \<and> 0 < y \<and> timestamp env < d \<and>
       h \<noteq> [] \<and> cid \<noteq> [] \<and> r \<le> 100 \<longrightarrow>
       (\<exists>s' j. amend_invoice acs env a k h y d cid r s = Ok s' \<and> get_invoice s' k = Ok j \<and> inv_amount j = y))"
proof -
  have inv: "nft_inv s" using assms(1) nft_empty_inv by (rule nft_run_inv)
  then have e: "I128_MIN \<le> get_outstanding_exposure s a" "get_outstanding_exposure s a \<le> 0"
    by (cases "nft_exposure s a"; auto simp: nft_inv_def get_outstanding_exposure_def I128_MIN_def)+
  then have "in_i128 (get_outstanding_exposure s a + x)"
    using assms(6,7) by (simp add: in_i128_def)
  with assms have "nft_check_credit rrs a x s = Ok () \<longleftrightarrow> x \<le> sme_credit_limit p - get_outstanding_exposure s a"
    by (auto simp: nft_check_credit_def get_outstanding_exposure_def checked_add_def)
  with e(2) nft_run_exposure [OF _ inv] show ?thesis by (blast intro: amend_unlimited)
qed

theorem credit_limit_not_cumulative_witness:
  "\<exists>s rrs p. get_sme_profile (the (rrs 200)) 8 = Ok p \<and> sme_credit_limit p = 700 \<and>
     nft_run 0 nft_empty 60 s \<and> nft_check_credit rrs 8 700 s = Ok () \<and>
     (\<exists>i. get_invoice s 1 = Ok i \<and> inv_sme i = 8 \<and> inv_amount i = 1000)"
proof -
  obtain s i where s: "nft_demo_listed = Ok s" "nft_invoice s 1 = Some (StoredV2 i)"
      "inv_sme i = 8" "inv_amount i = 1000" "nft_admin s = Some 1" "nft_exposure s 8 = None"
    using nft_demo_state by blast
  let ?s = "s\<lparr>nft_risk_registry := Some 200\<rparr>"
  let ?p = "\<lparr>sme_address = 8, sme_verified = True, sme_verifier = 7, sme_risk_score = 35,
    sme_total_invoices = 0, sme_defaults = 0, sme_registered_at = 0,
    sme_compliance_attested = True, sme_credit_limit = 700\<rparr>"
  let ?rrs = "[200 \<mapsto> rr_empty\<lparr>rr_sme := [8 \<mapsto> ?p]\<rparr>]"
  have "set_risk_registry (open_env 300 60) 1 200 s = Ok ?s"
    using s(5) by (simp add: set_risk_registry_def nft_require_admin_def require_not_self_def)
  from nft_more [OF nft_demo_run [OF s(1)] _ nft_call [OF nft_entry.intros(2) [OF this]]]
  have r: "nft_run 0 nft_empty 60 ?s" by simp
  have p: "get_sme_profile (the (?rrs 200)) 8 = Ok ?p" by (simp add: get_sme_profile_def)
  have "nft_check_credit ?rrs 8 700 ?s = Ok ()"
    using credit_limit_not_cumulative [OF r, of 200 ?rrs "the (?rrs 200)" 8 ?p 700] p s(6)
    by (simp add: get_outstanding_exposure_def width_defs)
  with r p s show ?thesis by (fastforce simp: get_invoice_def)
qed

text \<open>
  C34: the migration. Suppose the SDK never reads a record of the current encoding as an old one, and
  does not trap on those that are stored. Then a \<open>migrate\<close> by the admin before version 2 ends and
  succeeds: it leaves the version at 2; every old record below the id counter is rewritten field by
  field, with an empty metadata hash and no notes, and with amount, status, dates and all other
  fields as they were; no other record and nothing else of the state changes; and a second call
  succeeds without changing anything.
\<close>

theorem migrate_backfills:
  assumes "v1_decoder D" "\<forall>k i. nft_invoice s k = Some (StoredV2 i) \<longrightarrow> (\<exists>r. D i = Ok r)"
    "nft_admin s = Some a" "authorised env a" "unwrap_or (nft_migration_version s) 0 < 2"
  shows "\<exists>s1. migrate D env a s = Ok s1 \<and> nft_migration_version s1 = Some 2 \<and>
    s1 = s\<lparr>nft_invoice := nft_invoice s1, nft_migration_version := nft_migration_version s1\<rparr> \<and>
    (\<forall>k old. nft_invoice s k = Some (StoredV1 old) \<and> 1 \<le> k \<and> k < next_id s \<longrightarrow>
      get_invoice s1 k = Ok \<lparr>inv_id = v1_id old, inv_sme = v1_sme old, inv_debtor_hash = v1_debtor_hash old,
        inv_amount = v1_amount old, inv_currency = v1_currency old, inv_due_date = v1_due_date old,
        inv_ipfs_cid = v1_ipfs_cid old, inv_metadata_hash = [], inv_risk_score = v1_risk_score old,
        inv_risk_tier = v1_risk_tier old, inv_status = v1_status old, inv_created_at = v1_created_at old,
        inv_funded_at = v1_funded_at old, inv_repaid_at = v1_repaid_at old, inv_notes = None\<rparr>) \<and>
    (\<forall>k. (\<nexists>old. nft_invoice s k = Some (StoredV1 old) \<and> 1 \<le> k \<and> k < next_id s) \<longrightarrow>
      nft_invoice s1 k = nft_invoice s k) \<and>
    (\<forall>env'. authorised env' a \<longrightarrow> migrate D env' a s1 = Ok s1)"
proof -
  from migrate_succeeds [OF assms(2-4)] obtain s1 where s1: "migrate D env a s = Ok s1" by blast
  note m = migrate_effect [OF s1 assms(1)]
  have adm: "nft_admin s1 = Some a" using arg_cong [OF m(4), of nft_admin] assms(3) by simp
  have "migrate D env' a s1 = Ok s1" if "authorised env' a" for env'
    using that m(3) assms(5) adm by (auto simp: migrate_def Let_def require_auth_def)
  moreover have "map_option migrated (nft_invoice s k) = nft_invoice s k"
    if "\<nexists>old. nft_invoice s k = Some (StoredV1 old)" for k
    using that by (cases "nft_invoice s k"; cases "the (nft_invoice s k)") auto
  ultimately show ?thesis
    using s1 m(3,4) assms(5) by (intro exI [of _ s1]) (auto simp: get_invoice_def m(5) upgrade_v1_def)
qed

theorem migrate_backfills_witness:
  "\<exists>s s1 old i. nft_invoice s 1 = Some (StoredV1 old) \<and> migrate (\<lambda>_. Ok None) (open_env 300 5) 1 s = Ok s1 \<and>
     get_invoice s1 1 = Ok i \<and> inv_amount i = 1000 \<and> inv_status i = Funded \<and> inv_funded_at i = Some 7"
proof -
  define old where "old = \<lparr>v1_id = 1, v1_sme = 8, v1_debtor_hash = [1], v1_amount = 1000, v1_currency = ''USD'',
    v1_due_date = 9000, v1_ipfs_cid = ''Qm'', v1_risk_score = 35, v1_risk_tier = AA,
    v1_status = Funded, v1_created_at = 3, v1_funded_at = Some 7, v1_repaid_at = None\<rparr>"
  define s where "s = nft_empty\<lparr>nft_invoice := [1 \<mapsto> StoredV1 old], nft_next_id := Some 2,
    nft_admin := Some 1, nft_migration_version := Some 1\<rparr>"
  have d: "v1_decoder (\<lambda>_. Ok None)" by (simp add: v1_decoder_def)
  have s: "nft_invoice s 1 = Some (StoredV1 old)" "1 < next_id s" "nft_admin s = Some 1"
      "unwrap_or (nft_migration_version s) 0 < 2" "authorised (open_env 300 5) 1"
    by (simp_all add: s_def next_id_def authorised_def open_env_def)
  obtain s1 where "migrate (\<lambda>_. Ok None) (open_env 300 5) 1 s = Ok s1" "get_invoice s1 1 = Ok (upgrade_v1 old)"
    using migrate_backfills [OF d _ s(3,5,4), folded upgrade_v1_def] s(1,2) by auto
  with s(1) show ?thesis
    by (intro exI [of _ s] exI [of _ s1] exI [of _ old] exI [of _ "upgrade_v1 old"])
      (simp add: upgrade_v1_def old_def)
qed

end
