(* ===== verification/Price_Oracle.thy ===== *)
theory Price_Oracle
  imports Shared_Validation
begin

text \<open>
  The price oracle (\<^verbatim>\<open>contracts/price_oracle/src/lib.rs\<close>): an admin stores prices of currency
  pairs, and \<open>convert\<close> applies a price that is at most an hour old. The theorems say that a
  conversion uses only a positive price of that age and multiplies by it, rounding down.
\<close>

section \<open>State\<close>

definition MAX_STALENESS_SECS :: u64 where "MAX_STALENESS_SECS = 3600"

record PriceData =
  pd_price :: i128
  pd_timestamp :: u64

record or_state =
  or_admin :: "Address option"
  or_price :: "Symbol \<times> Symbol \<rightharpoonup> PriceData"

definition or_empty :: or_state where
  "or_empty = \<lparr>or_admin = None, or_price = Map.empty\<rparr>"

section \<open>Operations\<close>

definition or_require_admin :: "or_state \<Rightarrow> Address \<Rightarrow> unit res" where
  "or_require_admin s caller =
     andThen (ok_or (or_admin s) NotInitialized) (\<lambda>admin.
     if admin \<noteq> caller then Err NotAdmin else Ok ())"

definition or_initialize :: "env \<Rightarrow> Address \<Rightarrow> or_state \<Rightarrow> or_state res" where
  "or_initialize env admin s =
     (if or_admin s \<noteq> None then Err AlreadyInitialized
      else Ok (s\<lparr>or_admin := Some admin\<rparr>))"

definition set_price :: "env \<Rightarrow> Address \<Rightarrow> Symbol \<Rightarrow> Symbol \<Rightarrow> i128 \<Rightarrow> or_state \<Rightarrow> or_state res" where
  "set_price env admin base quote price s =
     andThen (require_auth env admin) (\<lambda>_.
     andThen (or_require_admin s admin) (\<lambda>_.
     if price \<le> 0 then Err InvalidAmount else
     let data = \<lparr>pd_price = price, pd_timestamp = timestamp env\<rparr>
     in Ok (s\<lparr>or_price := (or_price s)((base, quote) \<mapsto> data)\<rparr>)))"

text \<open>\<open>saturating_sub\<close> on \<open>u64\<close> is subtraction on natural numbers.\<close>

definition get_price :: "env \<Rightarrow> or_state \<Rightarrow> Symbol \<Rightarrow> Symbol \<Rightarrow> PriceData res" where
  "get_price env s base quote =
     andThen (ok_or (or_price s (base, quote)) InvalidAmount) (\<lambda>data.
     let age = timestamp env - pd_timestamp data in
     if age > MAX_STALENESS_SECS then Err InvoiceExpired else Ok data)"

definition convert :: "env \<Rightarrow> or_state \<Rightarrow> i128 \<Rightarrow> Symbol \<Rightarrow> Symbol \<Rightarrow> i128 res" where
  "convert env s amount from to =
     (if from = to then Ok amount else
      andThen (get_price env s from to) (\<lambda>price_data.
      andThen (ok_or (Option.bind (checked_mul amount (pd_price price_data))
                        (\<lambda>v. checked_div v 10000000)) ArithmeticOverflow) (\<lambda>converted.
      if converted \<le> 0 then Err InvalidAmount else Ok converted)))"

section \<open>Reachable states\<close>

inductive or_step :: "or_state \<Rightarrow> or_state \<Rightarrow> bool" where
  "or_initialize env a s = Ok s' \<Longrightarrow> or_step s s'"
| "set_price env a base quote p s = Ok s' \<Longrightarrow> or_step s s'"

definition or_inv :: "or_state \<Rightarrow> bool" where
  "or_inv s \<longleftrightarrow> (\<forall>k d. or_price s k = Some d \<longrightarrow> 0 < pd_price d)"

lemma or_step_inv: "or_step s s' \<Longrightarrow> or_inv s \<Longrightarrow> or_inv s'"
  by (induction rule: or_step.induct)
    (auto simp: or_inv_def or_initialize_def set_price_def Let_def split: if_splits)

lemma or_run_inv: "or_step\<^sup>*\<^sup>* or_empty s \<Longrightarrow> or_inv s"
  by (induction rule: rtranclp_induct) (auto simp: or_inv_def or_empty_def dest: or_step_inv)

lemma get_price_eq_Ok:
  "get_price env s base quote = Ok d \<longleftrightarrow>
     or_price s (base, quote) = Some d \<and> timestamp env \<le> pd_timestamp d + MAX_STALENESS_SECS"
  by (auto simp: get_price_def Let_def)

lemma checked_div_pos_result:
  "checked_div v n = Some w \<Longrightarrow> 0 < w \<Longrightarrow> 0 < n \<Longrightarrow> 0 < v"
  by (auto simp: checked_div_def signed_divide_int_def sgn_if pos_imp_zdiv_neg_iff split: if_splits)

section \<open>Properties\<close>

text \<open>
  C36: in every reachable state of the oracle, a conversion between two different currencies that
  succeeds used a stored price that is positive and at most \<open>MAX_STALENESS_SECS\<close> seconds old, the
  amount was positive, and the result is \<open>amount * price / 10^7\<close> rounded down, and positive. So the
  code reads the price stored for a pair as units of the second currency per unit of the first; the
  comment of \<open>set_price\<close> says the reverse.
\<close>

theorem convert_fresh_and_exact:
  assumes "or_step\<^sup>*\<^sup>* or_empty s" "from \<noteq> to" "convert env s amount from to = Ok v"
  shows "\<exists>d. or_price s (from, to) = Some d \<and> 0 < pd_price d \<and>
    timestamp env \<le> pd_timestamp d + MAX_STALENESS_SECS \<and>
    0 < amount \<and> v = amount * pd_price d div 10000000 \<and> 0 < v"
proof -
  from assms(2,3) obtain d where d: "or_price s (from, to) = Some d"
      "timestamp env \<le> pd_timestamp d + MAX_STALENESS_SECS"
      "checked_div (amount * pd_price d) 10000000 = Some v" "0 < v"
    by (auto simp: convert_def get_price_eq_Ok bind_eq_Some_conv)
  from or_run_inv [OF assms(1)] d(1) have pos: "0 < pd_price d" by (auto simp: or_inv_def)
  from checked_div_pos_result [OF d(3,4)] have "0 < amount * pd_price d" by simp
  with pos have "0 < amount" by (simp add: zero_less_mult_iff)
  with d pos show ?thesis by (auto simp: checked_div_def split: if_splits)
qed

definition or_demo :: or_state where
  "or_demo = \<lparr>or_admin = Some 1,
     or_price = [(''USD'', ''EUR'') \<mapsto> \<lparr>pd_price = 9000000, pd_timestamp = 50\<rparr>]\<rparr>"

theorem convert_fresh_and_exact_witness:
  "or_step\<^sup>*\<^sup>* or_empty or_demo \<and> convert (open_env 5 100) or_demo 1000 ''USD'' ''EUR'' = Ok 900 \<and>
     (\<exists>d. or_price or_demo (''USD'', ''EUR'') = Some d \<and> 0 < pd_price d)"
proof -
  have "or_step or_empty (or_empty\<lparr>or_admin := Some 1\<rparr>)"
    by (rule or_step.intros(1) [of "open_env 5 10" 1]) (simp add: or_initialize_def or_empty_def)
  moreover have "or_step (or_empty\<lparr>or_admin := Some 1\<rparr>) or_demo"
    by (rule or_step.intros(2) [of "open_env 5 50" 1 "''USD''" "''EUR''" 9000000])
      (simp add: set_price_def or_require_admin_def or_empty_def or_demo_def)
  ultimately have r: "or_step\<^sup>*\<^sup>* or_empty or_demo" by (meson r_into_rtranclp rtranclp_trans)
  have c: "convert (open_env 5 100) or_demo 1000 ''USD'' ''EUR'' = Ok 900"
    by (simp add: convert_def get_price_def or_demo_def MAX_STALENESS_SECS_def checked_mul_def
        checked_div_def in_i128_def width_defs)
  from convert_fresh_and_exact [OF r _ c] r c show ?thesis by auto
qed

end
