(* ===== verification/Soroban_Map.thy ===== *)
theory Soroban_Map
  imports Kora_Prelude
begin

text \<open>
  The ordered map \<open>Map<K, V>\<close> of the Soroban SDK, as the contracts use it: an association list
  sorted by key, which is how the host stores it and the order in which it is iterated.

  The locale \<open>ordered_map\<close> states the map interface (a lookup after a write or a removal, the
  invariant, the entries in the order of iteration) and proves what the financing pool needs of
  any such map: how the sum of a quantity over all entries changes with one write.
\<close>

section \<open>The map\<close>

type_synonym ('k, 'v) smap = "('k \<times> 'v) list"

fun smap_set :: "'k::linorder \<Rightarrow> 'v \<Rightarrow> ('k, 'v) smap \<Rightarrow> ('k, 'v) smap" where
  "smap_set k v [] = [(k, v)]"
| "smap_set k v ((k', v') # m) =
     (if k < k' then (k, v) # (k', v') # m
      else if k = k' then (k, v) # m
      else (k', v') # smap_set k v m)"

fun smap_remove :: "'k::linorder \<Rightarrow> ('k, 'v) smap \<Rightarrow> ('k, 'v) smap" where
  "smap_remove k [] = []"
| "smap_remove k ((k', v') # m) = (if k = k' then m else (k', v') # smap_remove k m)"

definition smap_get :: "('k, 'v) smap \<Rightarrow> 'k \<Rightarrow> 'v option" where
  "smap_get m k = map_of m k"

definition smap_contains_key :: "('k, 'v) smap \<Rightarrow> 'k \<Rightarrow> bool" where
  "smap_contains_key m k \<longleftrightarrow> smap_get m k \<noteq> None"

definition smap_values :: "('k, 'v) smap \<Rightarrow> 'v list" where
  "smap_values m = map snd m"

definition smap_ok :: "('k::linorder, 'v) smap \<Rightarrow> bool" where
  "smap_ok m \<longleftrightarrow> sorted_wrt (<) (map fst m)"

lemma set_keys_smap_set: "fst ` set (smap_set k v m) = insert k (fst ` set m)"
  by (induction k v m rule: smap_set.induct) auto

lemma set_smap_set: "set (smap_set k v m) \<subseteq> insert (k, v) (set m)"
  by (induction k v m rule: smap_set.induct) auto

lemma set_smap_remove: "set (smap_remove k m) \<subseteq> set m"
  by (induction k m rule: smap_remove.induct) auto

lemma smap_ok_set: "smap_ok m \<Longrightarrow> smap_ok (smap_set k v m)"
proof (induction k v m rule: smap_set.induct)
  case (2 k v k' v' m)
  then show ?case
    using set_keys_smap_set [of k v m] by (auto simp: smap_ok_def)
qed (simp add: smap_ok_def)

lemma smap_ok_remove: "smap_ok m \<Longrightarrow> smap_ok (smap_remove k m)"
proof (induction k m rule: smap_remove.induct)
  case (2 k k' v' m)
  then show ?case
    using set_smap_remove [of k m] by (auto simp: smap_ok_def)
qed (simp add: smap_ok_def)

lemma smap_ok_distinct: "smap_ok m \<Longrightarrow> distinct (map fst m)"
  by (simp add: smap_ok_def strict_sorted_iff)

lemma smap_get_set: "smap_get (smap_set k v m) = (smap_get m)(k \<mapsto> v)"
  by (rule ext, induction k v m rule: smap_set.induct) (auto simp: smap_get_def)

lemma smap_get_remove: "smap_ok m \<Longrightarrow> smap_get (smap_remove k m) = (smap_get m)(k := None)"
proof (induction k m rule: smap_remove.induct)
  case (2 k k' v' m)
  then show ?case
    by (auto simp: smap_get_def smap_ok_def fun_eq_iff map_of_eq_None_iff)
qed (simp add: smap_get_def fun_eq_iff)

section \<open>The map interface\<close>

locale ordered_map =
  fixes empty :: "'m"
    and set :: "'k::linorder \<Rightarrow> 'v \<Rightarrow> 'm \<Rightarrow> 'm"
    and remove :: "'k \<Rightarrow> 'm \<Rightarrow> 'm"
    and get :: "'m \<Rightarrow> 'k \<Rightarrow> 'v option"
    and entries :: "'m \<Rightarrow> ('k \<times> 'v) list"
    and invar :: "'m \<Rightarrow> bool"
  assumes get_empty: "get empty = Map.empty"
    and get_set: "invar m \<Longrightarrow> get (set k v m) = (get m)(k \<mapsto> v)"
    and get_remove: "invar m \<Longrightarrow> get (remove k m) = (get m)(k := None)"
    and get_entries: "invar m \<Longrightarrow> get m k = map_of (entries m) k"
    and entries_sorted: "invar m \<Longrightarrow> sorted_wrt (<) (map fst (entries m))"
    and invar_empty: "invar empty"
    and invar_set: "invar m \<Longrightarrow> invar (set k v m)"
    and invar_remove: "invar m \<Longrightarrow> invar (remove k m)"
begin

lemma entries_distinct: "invar m \<Longrightarrow> distinct (map fst (entries m))"
  using entries_sorted [of m] by (simp add: strict_sorted_iff)

lemma dom_finite: "invar m \<Longrightarrow> finite (dom (get m))"
  using get_entries [of m] finite_dom_map_of [of "entries m"] by (simp add: fun_eq_iff dom_def)

lemma total_conv:
  assumes "invar m"
  shows "(\<Sum>(k, v)\<leftarrow>entries m. f v) = (\<Sum>k\<in>dom (get m). f (the (get m k)) :: int)"
proof -
  have dist: "distinct (map fst (entries m))" using assms by (rule entries_distinct)
  then have "(\<Sum>(k, v)\<leftarrow>entries m. f v) = (\<Sum>x\<in>List.set (entries m). f (snd x))"
    by (simp add: sum_list_distinct_conv_sum_set distinct_map case_prod_beta')
  also have "\<dots> = (\<Sum>x\<in>List.set (entries m). f (the (get m (fst x))))"
    using dist assms by (intro sum.cong) (auto simp: get_entries)
  also have "\<dots> = (\<Sum>k\<in>fst ` List.set (entries m). f (the (get m k)))"
    using dist by (simp add: sum.reindex distinct_map)
  also have "fst ` List.set (entries m) = dom (get m)"
    using assms by (auto simp: get_entries dom_map_of_conv_image_fst dom_def map_of_eq_None_iff
        intro: weak_map_of_SomeI)
  finally show ?thesis .
qed

lemma total_set:
  assumes "invar m"
  shows "(\<Sum>(k, v)\<leftarrow>entries (set k v m). f v) =
    (\<Sum>(k, v)\<leftarrow>entries m. f v) - (case get m k of None \<Rightarrow> 0 | Some w \<Rightarrow> f w) + (f v :: int)"
proof -
  have fin: "finite (dom (get m))" using assms by (rule dom_finite)
  have rest: "(\<Sum>j\<in>dom (get m) - {k}. f (the (((get m)(k \<mapsto> v)) j)))
      = (\<Sum>j\<in>dom (get m) - {k}. f (the (get m j)))"
    by (intro sum.cong) auto
  have "(\<Sum>j\<in>insert k (dom (get m)). f (the (((get m)(k \<mapsto> v)) j)))
      = f v + (\<Sum>j\<in>dom (get m) - {k}. f (the (get m j)))"
    using fin rest by (simp add: sum.insert_remove)
  moreover have "(\<Sum>j\<in>dom (get m). f (the (get m j)))
      = (case get m k of None \<Rightarrow> 0 | Some w \<Rightarrow> f w) + (\<Sum>j\<in>dom (get m) - {k}. f (the (get m j)))"
    using fin by (cases "get m k") (auto simp: sum.remove [of _ k] domIff)
  ultimately show ?thesis
    using assms by (simp add: total_conv invar_set get_set)
qed

lemma total_remove:
  assumes "invar m" "get m k = Some w"
  shows "(\<Sum>(k, v)\<leftarrow>entries (remove k m). f v) = (\<Sum>(k, v)\<leftarrow>entries m. f v) - (f w :: int)"
proof -
  have fin: "finite (dom (get m))" using assms(1) by (rule dom_finite)
  have "(\<Sum>j\<in>dom (get m) - {k}. f (the (((get m)(k := None)) j)))
      = (\<Sum>j\<in>dom (get m) - {k}. f (the (get m j)))"
    by (intro sum.cong) auto
  moreover have "(\<Sum>j\<in>dom (get m). f (the (get m j)))
      = f w + (\<Sum>j\<in>dom (get m) - {k}. f (the (get m j)))"
    using fin assms(2) by (subst sum.remove [of _ k]) auto
  ultimately show ?thesis
    using assms by (simp add: total_conv invar_remove get_remove)
qed

end

interpretation smap: ordered_map "[]" smap_set smap_remove smap_get "\<lambda>m. m" smap_ok
proof unfold_locales
  show "smap_get [] = Map.empty" by (simp add: smap_get_def fun_eq_iff)
  show "smap_ok []" by (simp add: smap_ok_def)
qed (simp_all add: smap_get_set smap_get_remove smap_ok_set smap_ok_remove,
    simp_all add: smap_get_def smap_ok_def)

end
