(* ===== verification/Financing_Pool.thy ===== *)
theory Financing_Pool
  imports Invoice_NFT Price_Oracle Soroban_Map
begin

text \<open>
  The financing pool (\<^verbatim>\<open>contracts/financing_pool/src/lib.rs\<close>): opening a pool for a funded invoice,
  investor positions, repayments with a late penalty, the distribution of the proceeds, default,
  early settlement, the secondary market of positions and the upgrade.

  An operation acts on the pool's own state and on \<open>peers\<close>: the instances of the other contracts by
  address and the state of the token host. A call of another contract runs that contract's
  operation in the environment \<open>subcall env address\<close> and stores its new state; a failure of a call
  made without a \<open>try_\<close> client traps. The host forbids re-entering the pool, so that its state does
  not change under a call.
\<close>

section \<open>State\<close>

record fp_state =
  fp_pool :: "u64 \<rightharpoonup> Pool"
  fp_positions :: "u64 \<rightharpoonup> (Address, Position) smap"
  fp_admin :: "Address option"
  fp_invoice_nft :: "Address option"
  fp_risk_registry :: "Address option"
  fp_treasury :: "Address option"
  fp_late_penalty_bps :: "u32 option"
  fp_access_control :: "Address option"
  fp_price_oracle :: "Address option"
  fp_repayment_lock :: "u64 \<rightharpoonup> bool"
  fp_upgrade_proposal :: "(BytesN32 \<times> u64) option"
  fp_sale_offer :: "u64 \<times> Address \<rightharpoonup> PositionSaleOffer"
  fp_early_settlement :: "u64 \<rightharpoonup> EarlySettlementOffer"
  fp_max_position_bps :: "u32 option"
  fp_aggregate_funded :: "Address \<rightharpoonup> i128"
  fp_code :: "BytesN32 option"
  fp_events :: "event list"

definition fp_empty :: fp_state where
  "fp_empty = \<lparr>fp_pool = Map.empty, fp_positions = Map.empty, fp_admin = None,
     fp_invoice_nft = None, fp_risk_registry = None, fp_treasury = None,
     fp_late_penalty_bps = None, fp_access_control = None, fp_price_oracle = None,
     fp_repayment_lock = Map.empty, fp_upgrade_proposal = None, fp_sale_offer = Map.empty,
     fp_early_settlement = Map.empty, fp_max_position_bps = None,
     fp_aggregate_funded = Map.empty, fp_code = None, fp_events = []\<rparr>"

record 'tk peers =
  peer_ac :: "Address \<rightharpoonup> ac_state"
  peer_rr :: "Address \<rightharpoonup> rr_state"
  peer_or :: "Address \<rightharpoonup> or_state"
  peer_nft :: "Address \<rightharpoonup> nft_state"
  peer_tk :: "'tk"

abbreviation fp_emit :: "event \<Rightarrow> fp_state \<Rightarrow> fp_state" where
  "fp_emit e s \<equiv> s\<lparr>fp_events := fp_events s @ [e]\<rparr>"

abbreviation put_pool :: "u64 \<Rightarrow> Pool \<Rightarrow> fp_state \<Rightarrow> fp_state" where
  "put_pool k p s \<equiv> s\<lparr>fp_pool := (fp_pool s)(k \<mapsto> p)\<rparr>"

section \<open>Helpers\<close>

definition fp_require_admin :: "fp_state \<Rightarrow> Address \<Rightarrow> unit res" where
  "fp_require_admin s caller =
     andThen (ok_or (fp_admin s) NotInitialized) (\<lambda>admin.
     if admin \<noteq> caller then Err NotAdmin else Ok ())"

definition fp_require_not_paused :: "('tk, 'z) peers_scheme \<Rightarrow> fp_state \<Rightarrow> unit res" where
  "fp_require_not_paused w s =
     andThen (ok_or (fp_access_control s) NotInitialized) (\<lambda>ac.
     andThen (deployed (peer_ac w ac)) (\<lambda>client.
     if is_paused client then Err ProtocolPaused else Ok ()))"

definition fp_load_invoice :: "('tk, 'z) peers_scheme \<Rightarrow> fp_state \<Rightarrow> u64 \<Rightarrow> Invoice res" where
  "fp_load_invoice w s invoice_id =
     andThen (ok_or (fp_invoice_nft s) NotInitialized) (\<lambda>nft_contract.
     andThen (deployed (peer_nft w nft_contract)) (\<lambda>nft_client.
     call (get_invoice nft_client invoice_id)))"

text \<open>A call of the invoice contract that changes its state: \<open>f acs env' nft\<close> is the operation, run in
  the environment of the callee.\<close>

definition fp_call_nft ::
    "((Address \<rightharpoonup> ac_state) \<Rightarrow> env \<Rightarrow> nft_state \<Rightarrow> nft_state res) \<Rightarrow> env \<Rightarrow> fp_state \<Rightarrow>
     ('tk, 'z) peers_scheme \<Rightarrow> ('tk, 'z) peers_scheme res" where
  "fp_call_nft f env s w =
     andThen (ok_or (fp_invoice_nft s) NotInitialized) (\<lambda>nft_contract.
     andThen (deployed (peer_nft w nft_contract)) (\<lambda>nft_client.
     andThen (call (f (peer_ac w) (subcall env nft_contract) nft_client)) (\<lambda>nft_client.
     Ok (w\<lparr>peer_nft := (peer_nft w)(nft_contract \<mapsto> nft_client)\<rparr>))))"

definition convert_if_needed ::
    "env \<Rightarrow> ('tk, 'z) peers_scheme \<Rightarrow> fp_state \<Rightarrow> i128 \<Rightarrow> Symbol \<Rightarrow> Address \<Rightarrow> i128 res" where
  "convert_if_needed env w s amount invoice_currency unused_pool_token =
     (case fp_price_oracle s of
        None \<Rightarrow> Ok amount
      | Some oracle_addr \<Rightarrow>
          andThen (deployed (peer_or w oracle_addr)) (\<lambda>oracle_client.
          let pool_currency = ''USDC'' in
          call (convert (subcall env oracle_addr) oracle_client amount invoice_currency pool_currency)))"

definition fp_positions_of :: "fp_state \<Rightarrow> u64 \<Rightarrow> (Address, Position) smap" where
  "fp_positions_of s invoice_id = unwrap_or (fp_positions s invoice_id) []"

section \<open>Set-up and positions\<close>

definition fp_initialize ::
    "env \<Rightarrow> Address \<Rightarrow> Address \<Rightarrow> Address \<Rightarrow> Address \<Rightarrow> Address \<Rightarrow> u32 \<Rightarrow> Address \<Rightarrow> u32 \<Rightarrow>
     fp_state \<Rightarrow> fp_state res" where
  "fp_initialize env admin invoice_nft risk_registry treasury access_control late_penalty_bps
       price_oracle max_position_bps s =
     (if fp_admin s \<noteq> None then Err AlreadyInitialized else
      andThen (require_valid_fee_bps late_penalty_bps) (\<lambda>_.
      if max_position_bps = 0 \<or> max_position_bps > 10000 then Err InvalidFeeRate else
      andThen (require_not_self env admin) (\<lambda>_.
      andThen (require_not_self env invoice_nft) (\<lambda>_.
      andThen (require_not_self env risk_registry) (\<lambda>_.
      andThen (require_not_self env treasury) (\<lambda>_.
      andThen (require_not_self env access_control) (\<lambda>_.
      Ok (s\<lparr>fp_admin := Some admin, fp_invoice_nft := Some invoice_nft,
            fp_risk_registry := Some risk_registry, fp_treasury := Some treasury,
            fp_access_control := Some access_control,
            fp_late_penalty_bps := Some late_penalty_bps,
            fp_price_oracle := Some price_oracle,
            fp_max_position_bps := Some max_position_bps\<rparr>))))))))"

definition release_funds ::
    "env \<Rightarrow> Address \<Rightarrow> u64 \<Rightarrow> Address \<Rightarrow> fp_state \<times> ('tk, 'z) peers_scheme \<Rightarrow>
     (fp_state \<times> ('tk, 'z) peers_scheme) res" where
  "release_funds env marketplace invoice_id token = (\<lambda>(s, w).
     andThen (require_auth env marketplace) (\<lambda>_.
     andThen (fp_require_not_paused w s) (\<lambda>_.
     if fp_pool s invoice_id \<noteq> None then Err PoolAlreadyClosed else
     if token = self env then Err InvalidAddress else
     andThen (fp_load_invoice w s invoice_id) (\<lambda>invoice.
     if inv_amount invoice \<le> 0 \<or> inv_amount invoice > MAX_AMOUNT then Err InvalidAmount else
     andThen (ok_or (fp_late_penalty_bps s) NotInitialized) (\<lambda>late_penalty_bps.
     let pool = \<lparr>pool_invoice_id = invoice_id, pool_token = token, pool_total_funded = 0,
           pool_face_value = inv_amount invoice, pool_repaid_amount = 0, pool_is_closed = False,
           pool_late_penalty_bps = late_penalty_bps, pool_total_owed = inv_amount invoice,
           pool_penalty_applied = False\<rparr>;
         s = put_pool invoice_id pool s;
         s = fp_emit (pool_opened env marketplace invoice_id token (pool_face_value pool)) s
     in andThen (fp_call_nft (\<lambda>acs env' nft. set_funded acs env' (self env) invoice_id nft) env s w) (\<lambda>w.
     Ok (s, w)))))))"

definition set_max_position_bps :: "env \<Rightarrow> Address \<Rightarrow> u32 \<Rightarrow> fp_state \<Rightarrow> fp_state res" where
  "set_max_position_bps env admin max_position_bps s =
     andThen (require_auth env admin) (\<lambda>_.
     andThen (fp_require_admin s admin) (\<lambda>_.
     if max_position_bps = 0 \<or> max_position_bps > 10000 then Err InvalidFeeRate else
     Ok (s\<lparr>fp_max_position_bps := Some max_position_bps\<rparr>)))"

definition get_max_position_bps :: "fp_state \<Rightarrow> u32" where
  "get_max_position_bps s = unwrap_or (fp_max_position_bps s) 5000"

definition record_position ::
    "env \<Rightarrow> ('tk, 'z) peers_scheme \<Rightarrow> Address \<Rightarrow> u64 \<Rightarrow> Address \<Rightarrow> i128 \<Rightarrow> i128 \<Rightarrow> fp_state \<Rightarrow> fp_state res" where
  "record_position env w caller invoice_id investor contributed total_pool s =
     andThen (require_auth env caller) (\<lambda>_.
     andThen (fp_require_admin s caller) (\<lambda>_.
     andThen (fp_require_not_paused w s) (\<lambda>_.
     if contributed \<le> 0 \<or> total_pool \<le> 0 then Err InvalidAmount else
     if contributed > total_pool \<or> contributed > MAX_AMOUNT \<or> total_pool > MAX_AMOUNT
       then Err InvalidAmount else
     andThen (ok_or (Option.bind (checked_mul contributed 10000) (\<lambda>v. checked_div v total_pool))
                ArithmeticOverflow) (\<lambda>share.
     let share_bps = as_u32 share;
         max_position_bps = unwrap_or (fp_max_position_bps s) 5000 in
     if share_bps > max_position_bps then Err ExceedsFundingTarget else
     let position = \<lparr>pos_investor = investor, pos_invoice_id = invoice_id,
           pos_contributed = contributed, pos_share_bps = share_bps, pos_yield_claimed = 0\<rparr>;
         positions = fp_positions_of s invoice_id;
         old_contributed = unwrap_or (map_option pos_contributed (smap_get positions investor)) 0;
         positions = smap_set investor position positions;
         s = s\<lparr>fp_positions := (fp_positions s)(invoice_id \<mapsto> positions)\<rparr>
     in andThen (ok_or (fp_pool s invoice_id) PoolNotFound) (\<lambda>pool.
     let prev_agg = unwrap_or (fp_aggregate_funded s (pool_token pool)) 0 in
     andThen (ok_or (Option.bind (checked_sub prev_agg old_contributed)
                       (\<lambda>v. checked_add v contributed)) ArithmeticOverflow) (\<lambda>new_agg.
     let s = s\<lparr>fp_aggregate_funded := (fp_aggregate_funded s)(pool_token pool \<mapsto> new_agg)\<rparr>
     in Ok (fp_emit (position_recorded env caller invoice_id investor contributed share_bps) s)))))))"

section \<open>Distribution of the proceeds\<close>

text \<open>The loop over the positions of \<open>distribute_yield\<close>; it returns the events to publish, the sum of
  the contributions and the token state.\<close>

fun pay_positions ::
    "'tk token_api \<Rightarrow> env \<Rightarrow> u64 \<Rightarrow> Address \<Rightarrow> i128 \<Rightarrow> u32 \<Rightarrow> (Address, Position) smap \<Rightarrow> i128 \<Rightarrow> event list \<Rightarrow>
     'tk \<Rightarrow> (i128 \<times> event list \<times> 'tk) res" where
  "pay_positions T env invoice_id token total_repaid token_decimals [] total_contributed evs tk =
     Ok (total_contributed, evs, tk)"
| "pay_positions T env invoice_id token total_repaid token_decimals ((investor, position) # positions)
       total_contributed evs tk =
     andThen (bps_of_normalized total_repaid (pos_share_bps position) token_decimals) (\<lambda>payout.
     andThen (ok_or (checked_sub payout (pos_contributed position)) ArithmeticOverflow) (\<lambda>yield_amount.
     let total_contributed = saturating_add total_contributed (pos_contributed position) in
     andThen (token_transfer T env token (self env) investor payout tk) (\<lambda>tk.
     pay_positions T env invoice_id token total_repaid token_decimals positions total_contributed
       (evs @ [yield_distributed env invoice_id investor yield_amount]) tk)))"

definition distribute_yield ::
    "'tk token_api \<Rightarrow> env \<Rightarrow> u64 \<Rightarrow> Address \<Rightarrow> i128 \<Rightarrow> i128 \<Rightarrow> fp_state \<times> ('tk, 'z) peers_scheme \<Rightarrow>
     (fp_state \<times> ('tk, 'z) peers_scheme) res" where
  "distribute_yield T env invoice_id token total_repaid face_value = (\<lambda>(s, w).
     let positions = fp_positions_of s invoice_id;
         token_decimals = tk_decimals T token (peer_tk w) in
     andThen (pay_positions T env invoice_id token total_repaid token_decimals positions 0 [] (peer_tk w))
       (\<lambda>(total_contributed, evs, tk).
     let s = s\<lparr>fp_events := fp_events s @ evs\<rparr>;
         prev_agg = unwrap_or (fp_aggregate_funded s token) 0;
         s = s\<lparr>fp_aggregate_funded :=
                 (fp_aggregate_funded s)(token \<mapsto> saturating_sub prev_agg total_contributed)\<rparr>
     in Ok (s, w\<lparr>peer_tk := tk\<rparr>)))"

text \<open>The calls that settle a pool, in \<open>repay\<close> and in \<open>accept_early_settlement\<close>: the distribution,
  then the status change of the invoice.\<close>

definition fp_settle ::
    "'tk token_api \<Rightarrow> env \<Rightarrow> u64 \<Rightarrow> Address \<Rightarrow> i128 \<Rightarrow> i128 \<Rightarrow> fp_state \<times> ('tk, 'z) peers_scheme \<Rightarrow>
     (fp_state \<times> ('tk, 'z) peers_scheme) res" where
  "fp_settle T env invoice_id token total_repaid face_value = (\<lambda>(s, w).
     andThen (distribute_yield T env invoice_id token total_repaid face_value (s, w)) (\<lambda>(s, w).
     andThen (fp_call_nft (\<lambda>acs env' nft. set_repaid acs env' (self env) invoice_id nft) env s w) (\<lambda>w.
     Ok (s, w))))"

section \<open>Repayment\<close>

text \<open>The block of \<open>repay\<close> that adds the late penalty, with the event it publishes.\<close>

definition apply_late_penalty :: "env \<Rightarrow> u64 \<Rightarrow> Invoice \<Rightarrow> Pool \<Rightarrow> (Pool \<times> event list) res" where
  "apply_late_penalty env invoice_id invoice pool =
     (if \<not> pool_penalty_applied pool \<and> pool_late_penalty_bps pool > 0 \<and>
         timestamp env > inv_due_date invoice then
        andThen (bps_of (pool_face_value pool) (pool_late_penalty_bps pool)) (\<lambda>penalty.
        andThen (ok_or (checked_add (pool_total_owed pool) penalty) ArithmeticOverflow) (\<lambda>owed.
        Ok (pool\<lparr>pool_total_owed := owed, pool_penalty_applied := True\<rparr>,
            [late_penalty_applied env invoice_id penalty owed])))
      else Ok (pool, []))"

text \<open>The second half of \<open>repay\<close>: the effects on the pool, the transfer, and the settlement of a pool
  that is fully repaid.\<close>

definition commit_repayment ::
    "'tk token_api \<Rightarrow> env \<Rightarrow> Address \<Rightarrow> u64 \<Rightarrow> Address \<Rightarrow> i128 \<Rightarrow> Pool \<Rightarrow> i128 \<Rightarrow>
     fp_state \<times> ('tk, 'z) peers_scheme \<Rightarrow> (fp_state \<times> ('tk, 'z) peers_scheme) res" where
  "commit_repayment T env payer invoice_id token amount pool effective_amount = (\<lambda>(s, w).
     andThen (ok_or (checked_add (pool_repaid_amount pool) effective_amount) ArithmeticOverflow) (\<lambda>repaid.
     let pool = pool\<lparr>pool_repaid_amount := repaid\<rparr>;
         should_close = pool_repaid_amount pool \<ge> pool_total_owed pool;
         pool = (if should_close then pool\<lparr>pool_is_closed := True\<rparr> else pool);
         s = put_pool invoice_id pool s
     in andThen (token_transfer T env token payer (self env) amount (peer_tk w)) (\<lambda>tk.
     let w = w\<lparr>peer_tk := tk\<rparr>;
         s = fp_emit (repayment_made env invoice_id payer amount) s
     in if should_close then
          fp_settle T env invoice_id token (pool_repaid_amount pool) (pool_face_value pool) (s, w)
        else Ok (s, w))))"

definition repay ::
    "'tk token_api \<Rightarrow> env \<Rightarrow> Address \<Rightarrow> u64 \<Rightarrow> Address \<Rightarrow> i128 \<Rightarrow> fp_state \<times> ('tk, 'z) peers_scheme \<Rightarrow>
     (fp_state \<times> ('tk, 'z) peers_scheme) res" where
  "repay T env payer invoice_id token amount = (\<lambda>(s, w).
     andThen (require_auth env payer) (\<lambda>_.
     if amount \<le> 0 \<or> amount > MAX_AMOUNT then Err InvalidAmount else
     andThen (ok_or (fp_invoice_nft s) NotInitialized) (\<lambda>nft_contract.
     andThen (deployed (peer_nft w nft_contract)) (\<lambda>nft_client.
     if is_invoice_frozen nft_client invoice_id then Err InvoiceFrozen else
     if fp_repayment_lock s invoice_id \<noteq> None then Err Unauthorized else
     let s = s\<lparr>fp_repayment_lock := (fp_repayment_lock s)(invoice_id \<mapsto> True)\<rparr> in
     andThen (ok_or (fp_pool s invoice_id) PoolNotFound) (\<lambda>pool.
     if pool_is_closed pool then Err RepaymentAlreadyMade else
     andThen (fp_load_invoice w s invoice_id) (\<lambda>invoice.
     andThen (convert_if_needed env w s amount (inv_currency invoice) (pool_token pool)) (\<lambda>effective_amount.
     andThen (apply_late_penalty env invoice_id invoice pool) (\<lambda>(pool, evs).
     let s = s\<lparr>fp_events := fp_events s @ evs\<rparr> in
     andThen (commit_repayment T env payer invoice_id token amount pool effective_amount (s, w)) (\<lambda>(s, w).
     Ok (s\<lparr>fp_repayment_lock := (fp_repayment_lock s)(invoice_id := None)\<rparr>, w))))))))))"

section \<open>Default\<close>

text \<open>The report to the risk registry, through its \<open>try_\<close> client: a failure is ignored.\<close>

definition fp_report_default ::
    "env \<Rightarrow> Address \<Rightarrow> Address \<Rightarrow> fp_state \<Rightarrow> ('tk, 'z) peers_scheme \<Rightarrow> ('tk, 'z) peers_scheme" where
  "fp_report_default env admin sme s w =
     (case fp_risk_registry s of
        None \<Rightarrow> w
      | Some rr_contract \<Rightarrow>
          (case andThen (deployed (peer_rr w rr_contract))
                  (record_default (subcall env rr_contract) admin sme) of
             Inl _ \<Rightarrow> w
           | Inr rr_client \<Rightarrow> w\<lparr>peer_rr := (peer_rr w)(rr_contract \<mapsto> rr_client)\<rparr>))"

definition mark_default ::
    "'tk token_api \<Rightarrow> env \<Rightarrow> Address \<Rightarrow> u64 \<Rightarrow> Address \<Rightarrow> fp_state \<times> ('tk, 'z) peers_scheme \<Rightarrow>
     (fp_state \<times> ('tk, 'z) peers_scheme) res" where
  "mark_default T env admin invoice_id token = (\<lambda>(s, w).
     andThen (require_auth env admin) (\<lambda>_.
     andThen (fp_require_admin s admin) (\<lambda>_.
     andThen (fp_require_not_paused w s) (\<lambda>_.
     if fp_repayment_lock s invoice_id \<noteq> None then Err Unauthorized else
     andThen (ok_or (fp_pool s invoice_id) PoolNotFound) (\<lambda>pool.
     if pool_is_closed pool then Err PoolAlreadyClosed else
     andThen (if pool_repaid_amount pool > 0
              then distribute_yield T env invoice_id token (pool_repaid_amount pool)
                     (pool_face_value pool) (s, w)
              else Ok (s, w)) (\<lambda>(s, w).
     andThen (fp_call_nft (\<lambda>acs env' nft. set_defaulted env' admin invoice_id nft) env s w) (\<lambda>w.
     let s = fp_emit (invoice_defaulted env invoice_id admin) s in
     andThen (fp_load_invoice w s invoice_id) (\<lambda>invoice.
     Ok (s, fp_report_default env admin (inv_sme invoice) s w)))))))))"

section \<open>Early settlement\<close>

definition propose_early_settlement ::
    "'tk token_api \<Rightarrow> env \<Rightarrow> Address \<Rightarrow> u64 \<Rightarrow> i128 \<Rightarrow> fp_state \<times> ('tk, 'z) peers_scheme \<Rightarrow>
     (fp_state \<times> ('tk, 'z) peers_scheme) res" where
  "propose_early_settlement T env sme invoice_id amount = (\<lambda>(s, w).
     andThen (require_auth env sme) (\<lambda>_.
     andThen (fp_require_not_paused w s) (\<lambda>_.
     if amount \<le> 0 \<or> amount > MAX_AMOUNT then Err InvalidAmount else
     andThen (ok_or (fp_pool s invoice_id) PoolNotFound) (\<lambda>pool.
     if pool_is_closed pool then Err PoolAlreadyClosed else
     if amount < pool_total_funded pool \<or> amount \<ge> pool_total_owed pool then Err InvalidAmount else
     if fp_early_settlement s invoice_id \<noteq> None then Err AlreadyInitialized else
     andThen (fp_load_invoice w s invoice_id) (\<lambda>invoice.
     if inv_sme invoice \<noteq> sme then Err Unauthorized else
     andThen (token_transfer T env (pool_token pool) sme (self env) amount (peer_tk w)) (\<lambda>tk.
     let offer = \<lparr>eso_invoice_id = invoice_id, eso_amount = amount, eso_accepted_bps = 0,
           eso_accepted = []\<rparr>
     in Ok (s\<lparr>fp_early_settlement := (fp_early_settlement s)(invoice_id \<mapsto> offer)\<rparr>,
            w\<lparr>peer_tk := tk\<rparr>)))))))"

definition accept_early_settlement ::
    "'tk token_api \<Rightarrow> env \<Rightarrow> Address \<Rightarrow> u64 \<Rightarrow> fp_state \<times> ('tk, 'z) peers_scheme \<Rightarrow>
     (fp_state \<times> ('tk, 'z) peers_scheme) res" where
  "accept_early_settlement T env investor invoice_id = (\<lambda>(s, w).
     andThen (require_auth env investor) (\<lambda>_.
     andThen (fp_require_not_paused w s) (\<lambda>_.
     if fp_repayment_lock s invoice_id \<noteq> None then Err Unauthorized else
     andThen (ok_or (fp_early_settlement s invoice_id) PoolNotFound) (\<lambda>offer.
     andThen (ok_or (fp_pool s invoice_id) PoolNotFound) (\<lambda>pool.
     if pool_is_closed pool then Err PoolAlreadyClosed else
     andThen (ok_or (smap_get (fp_positions_of s invoice_id) investor) Unauthorized) (\<lambda>position.
     if list_ex (\<lambda>a. a = investor) (eso_accepted offer) then Err AlreadyInitialized else
     andThen (ok_or (checked_add_u32 (eso_accepted_bps offer) (pos_share_bps position))
                ArithmeticOverflow) (\<lambda>accepted_bps.
     let offer = offer\<lparr>eso_accepted := eso_accepted offer @ [investor],
                       eso_accepted_bps := accepted_bps\<rparr> in
     if eso_accepted_bps offer \<ge> 10000 then
       let s = s\<lparr>fp_repayment_lock := (fp_repayment_lock s)(invoice_id \<mapsto> True)\<rparr>;
           pool = pool\<lparr>pool_repaid_amount := eso_amount offer, pool_is_closed := True\<rparr>;
           s = put_pool invoice_id pool s
       in andThen (fp_settle T env invoice_id (pool_token pool) (eso_amount offer)
                     (pool_face_value pool) (s, w)) (\<lambda>(s, w).
          let s = s\<lparr>fp_early_settlement := (fp_early_settlement s)(invoice_id := None),
                    fp_repayment_lock := (fp_repayment_lock s)(invoice_id := None)\<rparr>
          in Ok (fp_emit (repayment_made env invoice_id (self env) (eso_amount offer)) s, w))
     else Ok (s\<lparr>fp_early_settlement := (fp_early_settlement s)(invoice_id \<mapsto> offer)\<rparr>, w))))))))"

definition cancel_early_settlement ::
    "'tk token_api \<Rightarrow> env \<Rightarrow> Address \<Rightarrow> u64 \<Rightarrow> fp_state \<times> ('tk, 'z) peers_scheme \<Rightarrow>
     (fp_state \<times> ('tk, 'z) peers_scheme) res" where
  "cancel_early_settlement T env sme invoice_id = (\<lambda>(s, w).
     andThen (require_auth env sme) (\<lambda>_.
     andThen (ok_or (fp_early_settlement s invoice_id) PoolNotFound) (\<lambda>offer.
     andThen (ok_or (fp_pool s invoice_id) PoolNotFound) (\<lambda>pool.
     andThen (fp_load_invoice w s invoice_id) (\<lambda>invoice.
     if inv_sme invoice \<noteq> sme then Err Unauthorized else
     let s = s\<lparr>fp_early_settlement := (fp_early_settlement s)(invoice_id := None)\<rparr> in
     andThen (token_transfer T env (pool_token pool) (self env) sme (eso_amount offer) (peer_tk w)) (\<lambda>tk.
     Ok (s, w\<lparr>peer_tk := tk\<rparr>)))))))"

definition get_early_settlement :: "fp_state \<Rightarrow> u64 \<Rightarrow> EarlySettlementOffer res" where
  "get_early_settlement s invoice_id = ok_or (fp_early_settlement s invoice_id) PoolNotFound"

section \<open>Views\<close>

definition get_pool :: "fp_state \<Rightarrow> u64 \<Rightarrow> Pool res" where
  "get_pool s invoice_id = ok_or (fp_pool s invoice_id) PoolNotFound"

definition get_positions :: "fp_state \<Rightarrow> u64 \<Rightarrow> Position list" where
  "get_positions s invoice_id = smap_values (fp_positions_of s invoice_id)"

text \<open>\<open>usize\<close> has 32 bits on the target of the contracts; its addition traps on overflow.\<close>

definition get_positions_page :: "fp_state \<Rightarrow> u64 \<Rightarrow> u32 \<Rightarrow> u32 \<Rightarrow> Position list res" where
  "get_positions_page s invoice_id offset limit =
     (let limit = min limit 100;
          all = smap_values (fp_positions_of s invoice_id);
          len = length all;
          start = min offset len in
      andThen (if start + limit \<le> U32_MAX then Ok (start + limit) else Trap Overflow) (\<lambda>stop.
      let stop = min stop len
      in Ok (map (\<lambda>i. all ! i) [start..<stop])))"

definition get_positions_count :: "fp_state \<Rightarrow> u64 \<Rightarrow> u32" where
  "get_positions_count s invoice_id = length (fp_positions_of s invoice_id)"

definition get_aggregate_funded :: "fp_state \<Rightarrow> Address \<Rightarrow> i128" where
  "get_aggregate_funded s token = unwrap_or (fp_aggregate_funded s token) 0"

section \<open>Secondary market\<close>

definition list_position_for_sale ::
    "env \<Rightarrow> ('tk, 'z) peers_scheme \<Rightarrow> Address \<Rightarrow> u64 \<Rightarrow> Address \<Rightarrow> i128 \<Rightarrow> fp_state \<Rightarrow> fp_state res" where
  "list_position_for_sale env w seller invoice_id token price s =
     andThen (require_auth env seller) (\<lambda>_.
     andThen (fp_require_not_paused w s) (\<lambda>_.
     if price \<le> 0 then Err InvalidAmount else
     andThen (ok_or (fp_pool s invoice_id) PoolNotFound) (\<lambda>pool.
     if pool_is_closed pool then Err PoolAlreadyClosed else
     if \<not> smap_contains_key (fp_positions_of s invoice_id) seller then Err PositionNotFound else
     if fp_sale_offer s (invoice_id, seller) \<noteq> None then Err SaleAlreadyListed else
     let offer = \<lparr>sale_seller = seller, sale_invoice_id = invoice_id, sale_token = token,
           sale_price = price\<rparr>;
         s = s\<lparr>fp_sale_offer := (fp_sale_offer s)((invoice_id, seller) \<mapsto> offer)\<rparr>
     in Ok (fp_emit (position_listed_for_sale env invoice_id seller price) s))))"

definition buy_position ::
    "'tk token_api \<Rightarrow> env \<Rightarrow> Address \<Rightarrow> u64 \<Rightarrow> Address \<Rightarrow> fp_state \<times> ('tk, 'z) peers_scheme \<Rightarrow>
     (fp_state \<times> ('tk, 'z) peers_scheme) res" where
  "buy_position T env buyer invoice_id seller = (\<lambda>(s, w).
     andThen (require_auth env buyer) (\<lambda>_.
     andThen (fp_require_not_paused w s) (\<lambda>_.
     andThen (ok_or (fp_sale_offer s (invoice_id, seller)) SaleNotFound) (\<lambda>offer.
     andThen (ok_or (fp_pool s invoice_id) PoolNotFound) (\<lambda>pool.
     if pool_is_closed pool then Err PoolAlreadyClosed else
     let positions = fp_positions_of s invoice_id in
     andThen (ok_or (smap_get positions seller) PositionNotFound) (\<lambda>seller_position.
     let s = s\<lparr>fp_sale_offer := (fp_sale_offer s)((invoice_id, seller) := None)\<rparr>;
         positions = smap_remove seller positions;
         buyer_position = \<lparr>pos_investor = buyer, pos_invoice_id = invoice_id,
           pos_contributed = pos_contributed seller_position,
           pos_share_bps = pos_share_bps seller_position,
           pos_yield_claimed = pos_yield_claimed seller_position\<rparr>;
         positions = smap_set buyer buyer_position positions;
         s = s\<lparr>fp_positions := (fp_positions s)(invoice_id \<mapsto> positions)\<rparr>
     in andThen (token_transfer T env (sale_token offer) buyer seller (sale_price offer) (peer_tk w)) (\<lambda>tk.
     Ok (fp_emit (position_sold env invoice_id seller buyer (sale_price offer)) s,
         w\<lparr>peer_tk := tk\<rparr>))))))))"

section \<open>Upgrade\<close>

definition fp_propose_upgrade :: "env \<Rightarrow> Address \<Rightarrow> BytesN32 \<Rightarrow> fp_state \<Rightarrow> fp_state res" where
  "fp_propose_upgrade env admin new_wasm_hash s =
     andThen (require_auth env admin) (\<lambda>_.
     andThen (fp_require_admin s admin) (\<lambda>_.
     let s = s\<lparr>fp_upgrade_proposal := Some (new_wasm_hash, timestamp env)\<rparr>
     in Ok (fp_emit (upgrade_proposed env admin new_wasm_hash) s)))"

definition fp_execute_upgrade :: "env \<Rightarrow> Address \<Rightarrow> fp_state \<Rightarrow> fp_state res" where
  "fp_execute_upgrade env admin s =
     andThen (require_auth env admin) (\<lambda>_.
     andThen (fp_require_admin s admin) (\<lambda>_.
     andThen (ok_or (fp_upgrade_proposal s) NoUpgradeProposed) (\<lambda>(wasm_hash, proposed_at).
     andThen (timelock_elapsed env proposed_at UpgradeTimelockNotElapsed) (\<lambda>_.
     let s = s\<lparr>fp_upgrade_proposal := None\<rparr>;
         s = fp_emit (upgrade_executed env admin wasm_hash) s
     in Ok (s\<lparr>fp_code := Some wasm_hash\<rparr>)))))"

section \<open>Facts on the helpers\<close>

lemma fp_require_eq_Ok [simp, res_simps]:
  "fp_require_admin s a = Ok u \<longleftrightarrow> fp_admin s = Some a"
  "fp_require_not_paused w s = Ok u \<longleftrightarrow>
     (\<exists>c ac. fp_access_control s = Some c \<and> peer_ac w c = Some ac \<and> \<not> is_paused ac)"
  by (auto simp: fp_require_admin_def fp_require_not_paused_def)

interpretation fp_upgrade: timelocked_upgrade fp_admin fp_upgrade_proposal fp_code
    fp_propose_upgrade fp_execute_upgrade
  by unfold_locales (auto simp: fp_propose_upgrade_def fp_execute_upgrade_def Let_def)

lemma fp_load_invoice_eq_Ok:
  "fp_load_invoice w s k = Ok i \<longleftrightarrow>
     (\<exists>a n. fp_invoice_nft s = Some a \<and> peer_nft w a = Some n \<and> get_invoice n k = Ok i)"
  by (auto simp: fp_load_invoice_def)

lemma fp_call_nft_eq_Ok:
  "fp_call_nft f env s w = Ok w' \<longleftrightarrow>
     (\<exists>a n n'. fp_invoice_nft s = Some a \<and> peer_nft w a = Some n \<and>
        f (peer_ac w) (subcall env a) n = Ok n' \<and> w' = w\<lparr>peer_nft := (peer_nft w)(a \<mapsto> n')\<rparr>)"
  by (auto simp: fp_call_nft_def)

lemma convert_if_needed_pos:
  assumes "convert_if_needed env w s x cur tok = Ok y" "0 < x"
  shows "0 < y"
  using assms by (auto simp: convert_if_needed_def convert_def Let_def split: option.splits if_splits)

lemma convert_if_needed_same:
  "convert_if_needed env w s x ''USDC'' tok = Ok y \<Longrightarrow> y = x"
  by (auto simp: convert_if_needed_def convert_def Let_def split: option.splits)

lemma convert_if_needed_value:
  assumes "convert_if_needed env w s x cur tok = Ok y" "0 < x"
  shows "(case fp_price_oracle s of None \<Rightarrow> y = x
     | Some oa \<Rightarrow> if cur = ''USDC'' then y = x
         else \<exists>orc d. peer_or w oa = Some orc \<and> or_price orc (cur, ''USDC'') = Some d \<and>
           0 < pd_price d \<and> timestamp env \<le> pd_timestamp d + MAX_STALENESS_SECS \<and>
           y = x * pd_price d div 10000000) \<and> 0 < y"
proof (cases "fp_price_oracle s")
  case (Some oa)
  with assms(1) obtain orc where orc: "peer_or w oa = Some orc"
      "convert (subcall env oa) orc x cur ''USDC'' = Ok y"
    by (auto simp: convert_if_needed_def Let_def)
  show ?thesis
  proof (cases "cur = ''USDC''")
    case False
    with orc(2) obtain d where d: "or_price orc (cur, ''USDC'') = Some d"
        "timestamp env \<le> pd_timestamp d + MAX_STALENESS_SECS" "checked_div (x * pd_price d) 10000000 = Some y" "0 < y"
      by (auto simp: convert_def get_price_eq_Ok bind_eq_Some_conv)
    from checked_div_pos_result [OF d(3,4)] assms(2) have "0 < pd_price d" by (simp add: zero_less_mult_iff)
    with Some orc(1) d False assms(2) show ?thesis by (auto simp: checked_div_def split: if_splits)
  qed (use Some orc(2) assms(2) in \<open>simp add: convert_def\<close>)
qed (use assms in \<open>simp add: convert_if_needed_def\<close>)

section \<open>Payouts\<close>

text \<open>What a position receives, what all positions receive, and the shares they hold.\<close>

definition payout :: "i128 \<Rightarrow> u32 \<Rightarrow> Position \<Rightarrow> i128" where
  "payout total_repaid d p = scaled_share total_repaid (pos_share_bps p) d"

definition paid_out :: "i128 \<Rightarrow> u32 \<Rightarrow> (Address, Position) smap \<Rightarrow> i128" where
  "paid_out total_repaid d ps = (\<Sum>(i, p)\<leftarrow>ps. payout total_repaid d p)"

definition shares :: "(Address, Position) smap \<Rightarrow> int" where
  "shares ps = (\<Sum>(i, p)\<leftarrow>ps. int (pos_share_bps p))"

lemma paid_out_simps [simp]:
  "paid_out r d [] = 0" "paid_out r d ((i, p) # ps) = payout r d p + paid_out r d ps"
  by (simp_all add: paid_out_def)

lemma shares_simps [simp]: "shares [] = 0" "shares ((i, p) # ps) = int (pos_share_bps p) + shares ps"
  by (simp_all add: shares_def)

lemma shares_nonneg: "0 \<le> shares ps"
  by (induction ps) auto

definition received :: "Address \<Rightarrow> i128 \<Rightarrow> u32 \<Rightarrow> (Address, Position) smap \<Rightarrow> i128" where
  "received a r d ps = (\<Sum>(i, p)\<leftarrow>ps. if i = a then payout r d p else 0)"

lemma received_simps [simp]:
  "received a r d [] = 0"
  "received a r d ((i, p) # ps) = (if i = a then payout r d p else 0) + received a r d ps"
  by (simp_all add: received_def)

lemma received_other: "a \<notin> fst ` set ps \<Longrightarrow> received a r d ps = 0"
  by (induction ps) auto

lemma received_get:
  assumes "smap_ok ps" "smap_get ps a = Some p"
  shows "received a r d ps = payout r d p"
  using smap_ok_distinct [OF assms(1)] assms(2)
  by (induction ps) (auto simp: smap_get_def received_other split: if_splits)

lemma pay_positions_balance:
  assumes "sep41 T"
  shows "pay_positions T env k token r d ps c evs tk = Ok (c', evs', tk') \<Longrightarrow>
      tk_balance T token' a tk' = tk_balance T token' a tk +
        (if token' = token then received a r d ps - (if a = self env then paid_out r d ps else 0) else 0)"
proof (induction ps arbitrary: c evs tk)
  case (Cons ip ps)
  obtain i p where ip: "ip = (i, p)" by fastforce
  with Cons.prems obtain x y tk1 where x: "bps_of_normalized r (pos_share_bps p) d = Ok x"
      "token_transfer T env token (self env) i x tk = Ok tk1"
      "pay_positions T env k token r d ps (saturating_add c (pos_contributed p))
         (evs @ [yield_distributed env k i y]) tk1 = Ok (c', evs', tk')"
    by (auto simp: Let_def)
  have "x = payout r d p"
    using bps_of_normalized_Ok [OF x(1)] by (simp add: payout_def)
  with sep41_transfer(3) [OF assms x(2), of token' a] Cons.IH [OF x(3)] ip show ?case by auto
qed simp

text \<open>Each payout is at most the holder's share of the amount, so that together they do not exceed
  it when the shares add up to at most 10000 basis points.\<close>

lemma paid_out_le:
  assumes "0 \<le> r" "\<forall>(i, p)\<in>set ps. pos_share_bps p \<le> 10000"
  shows "0 \<le> paid_out r d ps \<and> paid_out r d ps * 10000 \<le> r * shares ps"
  using assms(2)
proof (induction ps)
  case (Cons ip ps)
  obtain i p where ip: "ip = (i, p)" by fastforce
  with Cons.prems have "pos_share_bps p \<le> 10000" by auto
  from scaled_share_bounds [OF assms(1) this, of d]
  have "0 \<le> payout r d p" "payout r d p \<le> r * int (pos_share_bps p) div 10000"
    by (simp_all add: payout_def)
  moreover from this(2) have "payout r d p * 10000 \<le> r * int (pos_share_bps p)"
    using div_mult_le_int [of 10000 "r * int (pos_share_bps p)"] by linarith
  ultimately show ?case using Cons ip by (auto simp: distrib_left)
qed simp

lemma shares_each: "(i, p) \<in> set ps \<Longrightarrow> int (pos_share_bps p) \<le> shares ps"
proof (induction ps)
  case (Cons ip ps)
  then show ?case using shares_nonneg [of ps] by (cases ip) (auto simp: add_increasing)
qed simp

lemma paid_out_bound:
  assumes "0 \<le> r" "shares ps \<le> 10000"
  shows "0 \<le> paid_out r d ps \<and> paid_out r d ps \<le> r"
proof -
  have "\<forall>(i, p)\<in>set ps. pos_share_bps p \<le> 10000"
    using assms(2) shares_each [of _ _ ps] by fastforce
  from paid_out_le [OF assms(1) this, of d] mult_left_mono [OF assms(2,1)] show ?thesis by linarith
qed

lemma pay_positions_nonneg:
  "pay_positions T env k token r d ps c evs tk = Ok x \<Longrightarrow> ps \<noteq> [] \<Longrightarrow> 0 \<le> r"
  by (cases ps) (auto dest!: bps_of_normalized_Ok)

section \<open>What the calls change\<close>

text \<open>The parts of the state that a distribution leaves alone.\<close>

lemma distribute_yield_effect:
  assumes "distribute_yield T env k token r f (s, w) = Ok (s', w')"
  shows "\<exists>c evs tk. pay_positions T env k token r (tk_decimals T token (peer_tk w))
      (fp_positions_of s k) 0 [] (peer_tk w) = Ok (c, evs, tk) \<and> w' = w\<lparr>peer_tk := tk\<rparr> \<and>
    s' = s\<lparr>fp_events := fp_events s @ evs, fp_aggregate_funded := (fp_aggregate_funded s)(token \<mapsto>
      saturating_sub (get_aggregate_funded s token) c)\<rparr>"
  using assms by (auto simp: distribute_yield_def Let_def get_aggregate_funded_def)

lemma apply_late_penalty_effect:
  assumes "apply_late_penalty env k i p = Ok (p', evs)"
  shows "p' = p \<or> \<not> pool_penalty_applied p \<and> inv_due_date i < timestamp env \<and>
      (\<exists>x. bps_of (pool_face_value p) (pool_late_penalty_bps p) = Ok x \<and>
         p' = p\<lparr>pool_total_owed := pool_total_owed p + x, pool_penalty_applied := True\<rparr>)"
  using assms by (auto simp: apply_late_penalty_def split: if_splits)

lemma apply_late_penalty_exact:
  assumes "apply_late_penalty env k i p = Ok (p', evs)"
  shows "p' = p\<lparr>pool_total_owed := pool_total_owed p +
      (if \<not> pool_penalty_applied p \<and> 0 < pool_late_penalty_bps p \<and> inv_due_date i < timestamp env
       then pool_face_value p * int (pool_late_penalty_bps p) div 10000 else 0),
    pool_penalty_applied := pool_penalty_applied p \<or>
      \<not> pool_penalty_applied p \<and> 0 < pool_late_penalty_bps p \<and> inv_due_date i < timestamp env\<rparr>"
  using assms by (auto simp: apply_late_penalty_def bps_of_eq_Ok split: if_splits)

text \<open>Both ways of settling a pool end with the same three calls: the payouts, the status change of
  the invoice, and nothing else among the peers.\<close>

definition settled ::
    "'tk token_api \<Rightarrow> env \<Rightarrow> u64 \<Rightarrow> Address \<Rightarrow> i128 \<Rightarrow> fp_state \<Rightarrow> ('tk, 'z) peers_scheme \<Rightarrow>
     ('tk, 'z) peers_scheme \<Rightarrow> bool" where
  "settled T env k token r s w w' \<longleftrightarrow>
     (\<exists>c evs tk a n n'. pay_positions T env k token r (tk_decimals T token (peer_tk w))
         (fp_positions_of s k) 0 [] (peer_tk w) = Ok (c, evs, tk) \<and>
        fp_invoice_nft s = Some a \<and> peer_nft w a = Some n \<and>
        set_repaid (peer_ac w) (subcall env a) (self env) k n = Ok n' \<and>
        w' = w\<lparr>peer_tk := tk, peer_nft := (peer_nft w)(a \<mapsto> n')\<rparr>)"

text \<open>The part of the pool's state that only set-up, positions and offers change.\<close>

definition fp_book :: "fp_state \<Rightarrow> fp_state" where
  "fp_book s = s\<lparr>fp_pool := Map.empty, fp_repayment_lock := Map.empty, fp_early_settlement := Map.empty,
     fp_aggregate_funded := Map.empty, fp_events := []\<rparr>"

lemma fp_book_fields:
  assumes "fp_book s' = fp_book s"
  shows "fp_positions s' = fp_positions s" "fp_admin s' = fp_admin s"
    "fp_invoice_nft s' = fp_invoice_nft s" "fp_late_penalty_bps s' = fp_late_penalty_bps s"
    "fp_max_position_bps s' = fp_max_position_bps s" "fp_sale_offer s' = fp_sale_offer s"
    "fp_access_control s' = fp_access_control s" "fp_price_oracle s' = fp_price_oracle s"
    "fp_upgrade_proposal s' = fp_upgrade_proposal s" "fp_positions_of s' = fp_positions_of s"
  using assms by (cases s; cases s'; simp add: fp_book_def fp_positions_of_def fun_eq_iff)+

lemma fp_settle_effect:
  assumes "fp_settle T env k token r f (s, w) = Ok (s', w')"
  shows "settled T env k token r s w w' \<and> fp_book s' = fp_book s \<and> fp_pool s' = fp_pool s \<and>
    fp_repayment_lock s' = fp_repayment_lock s \<and> fp_early_settlement s' = fp_early_settlement s"
proof -
  from assms obtain s1 w1 where 1: "distribute_yield T env k token r f (s, w) = Ok (s1, w1)"
    and 2: "fp_call_nft (\<lambda>acs env' nft. set_repaid acs env' (self env) k nft) env s1 w1 = Ok w'"
    and s': "s' = s1" by (auto simp: fp_settle_def)
  from distribute_yield_effect [OF 1] obtain c evs tk where
    d: "pay_positions T env k token r (tk_decimals T token (peer_tk w)) (fp_positions_of s k) 0 []
          (peer_tk w) = Ok (c, evs, tk)" "w1 = w\<lparr>peer_tk := tk\<rparr>"
      "s1 = s\<lparr>fp_events := fp_events s @ evs, fp_aggregate_funded := (fp_aggregate_funded s)(token \<mapsto>
         saturating_sub (get_aggregate_funded s token) c)\<rparr>" by auto
  with 2 s' show ?thesis by (auto simp: settled_def fp_call_nft_eq_Ok fp_book_def)
qed

lemma settled_book:
  "settled T env k token r s w w' \<Longrightarrow> fp_book s' = fp_book s \<Longrightarrow> settled T env k token r s' w w'"
  using fp_book_fields [of s' s] by (auto simp: settled_def)

lemma commit_repayment_effect:
  assumes "commit_repayment T env payer k token x p eff (s, w) = Ok (s', w')"
  shows "\<exists>tk. token_transfer T env token payer (self env) x (peer_tk w) = Ok tk \<and>
    (let r = pool_repaid_amount p + eff; closing = pool_total_owed p \<le> r in
     fp_pool s' = (fp_pool s)(k \<mapsto> p\<lparr>pool_repaid_amount := r,
        pool_is_closed := (closing \<or> pool_is_closed p)\<rparr>) \<and>
     (if closing then settled T env k token r s (w\<lparr>peer_tk := tk\<rparr>) w' else w' = w\<lparr>peer_tk := tk\<rparr>)) \<and>
    fp_book s' = fp_book s \<and> fp_repayment_lock s' = fp_repayment_lock s \<and>
    fp_early_settlement s' = fp_early_settlement s"
proof (cases "pool_total_owed p \<le> pool_repaid_amount p + eff")
  case True
  let ?p = "p\<lparr>pool_repaid_amount := pool_repaid_amount p + eff, pool_is_closed := True\<rparr>"
  let ?s = "fp_emit (repayment_made env k payer x) (put_pool k ?p s)"
  from assms True obtain tk where tk: "token_transfer T env token payer (self env) x (peer_tk w) = Ok tk"
    and st: "fp_settle T env k token (pool_repaid_amount p + eff) (pool_face_value p)
        (?s, w\<lparr>peer_tk := tk\<rparr>) = Ok (s', w')"
    by (auto simp: commit_repayment_def Let_def)
  have "fp_book s = fp_book ?s" by (simp add: fp_book_def)
  with fp_settle_effect [OF st] True tk show ?thesis
    by (auto simp: Let_def intro: settled_book)
next
  case False
  with assms show ?thesis by (auto simp: commit_repayment_def Let_def fp_book_def)
qed

lemma repay_effect:
  assumes "repay T env payer k token x (s, w) = Ok (s', w')"
  shows "\<exists>p i eff p1 evs tk. authorised env payer \<and> 0 < x \<and> x \<le> MAX_AMOUNT \<and>
    fp_pool s k = Some p \<and> \<not> pool_is_closed p \<and> fp_repayment_lock s k = None \<and>
    fp_load_invoice w s k = Ok i \<and>
    convert_if_needed env w s x (inv_currency i) (pool_token p) = Ok eff \<and>
    apply_late_penalty env k i p = Ok (p1, evs) \<and>
    token_transfer T env token payer (self env) x (peer_tk w) = Ok tk \<and>
    (let r = pool_repaid_amount p1 + eff; closing = pool_total_owed p1 \<le> r in
     fp_pool s' = (fp_pool s)(k \<mapsto> p1\<lparr>pool_repaid_amount := r,
        pool_is_closed := (closing \<or> pool_is_closed p1)\<rparr>) \<and>
     (if closing then settled T env k token r s (w\<lparr>peer_tk := tk\<rparr>) w' else w' = w\<lparr>peer_tk := tk\<rparr>)) \<and>
    fp_book s' = fp_book s \<and> fp_repayment_lock s' = fp_repayment_lock s \<and>
    fp_early_settlement s' = fp_early_settlement s \<and>
    (\<exists>a n. fp_invoice_nft s = Some a \<and> peer_nft w a = Some n \<and> \<not> is_invoice_frozen n k)"
proof -
  have lock: "fp_load_invoice w (s\<lparr>fp_repayment_lock := l\<rparr>) k = fp_load_invoice w s k"
    "convert_if_needed env w (s\<lparr>fp_repayment_lock := l\<rparr>) x c t = convert_if_needed env w s x c t" for l c t
    by (simp_all add: fp_load_invoice_def convert_if_needed_def)
  from assms obtain n a p i eff p1 evs s2 where
    *: "authorised env payer" "0 < x" "x \<le> MAX_AMOUNT" "fp_invoice_nft s = Some a" "peer_nft w a = Some n"
      "\<not> is_invoice_frozen n k" "fp_repayment_lock s k = None" "fp_pool s k = Some p" "\<not> pool_is_closed p"
      "fp_load_invoice w s k = Ok i" "convert_if_needed env w s x (inv_currency i) (pool_token p) = Ok eff"
      "apply_late_penalty env k i p = Ok (p1, evs)"
    and c: "commit_repayment T env payer k token x p1 eff
        (s\<lparr>fp_repayment_lock := (fp_repayment_lock s)(k \<mapsto> True), fp_events := fp_events s @ evs\<rparr>, w)
        = Ok (s2, w')" (is "commit_repayment _ _ _ _ _ _ _ _ (?s, w) = _")
    and s': "s' = s2\<lparr>fp_repayment_lock := (fp_repayment_lock s2)(k := None)\<rparr>"
    by (auto simp: repay_def Let_def lock)
  have book: "fp_book s = fp_book ?s" "fp_book s' = fp_book s2" using s' by (simp_all add: fp_book_def)
  have unlock: "(fp_repayment_lock s)(k := None) = fp_repayment_lock s"
    using *(7) by (simp add: fun_upd_idem)
  let ?r = "pool_repaid_amount p1 + eff"
  from commit_repayment_effect [OF c] obtain tk where
    t: "token_transfer T env token payer (self env) x (peer_tk w) = Ok tk"
      "fp_pool s2 = (fp_pool s)(k \<mapsto> p1\<lparr>pool_repaid_amount := ?r,
         pool_is_closed := (pool_total_owed p1 \<le> ?r \<or> pool_is_closed p1)\<rparr>)"
      "if pool_total_owed p1 \<le> ?r then settled T env k token ?r ?s (w\<lparr>peer_tk := tk\<rparr>) w'
       else w' = w\<lparr>peer_tk := tk\<rparr>"
      "fp_book s2 = fp_book ?s" "fp_repayment_lock s2 = (fp_repayment_lock s)(k \<mapsto> True)"
      "fp_early_settlement s2 = fp_early_settlement s"
    by (auto simp: Let_def)
  have "if pool_total_owed p1 \<le> ?r then settled T env k token ?r s (w\<lparr>peer_tk := tk\<rparr>) w'
       else w' = w\<lparr>peer_tk := tk\<rparr>"
    using t(3) book(1) by (auto intro: settled_book)
  moreover have "fp_repayment_lock s' = fp_repayment_lock s" using s' t(5) unlock by simp
  ultimately show ?thesis
    using * t(1,2,4,6) book s'
    by (intro exI [of _ p] exI [of _ i] exI [of _ eff] exI [of _ p1] exI [of _ evs] exI [of _ tk])
      (simp add: Let_def)
qed

text \<open>The effect of the other calls that touch pools.\<close>

lemma release_funds_effect:
  assumes "release_funds env m k token (s, w) = Ok (s', w')"
  shows "\<exists>i b a n n'. fp_pool s k = None \<and> fp_load_invoice w s k = Ok i \<and> 0 < inv_amount i \<and>
    inv_amount i \<le> MAX_AMOUNT \<and> fp_late_penalty_bps s = Some b \<and> authorised env m \<and>
    fp_pool s' = (fp_pool s)(k \<mapsto> \<lparr>pool_invoice_id = k, pool_token = token, pool_total_funded = 0,
      pool_face_value = inv_amount i, pool_repaid_amount = 0, pool_is_closed = False,
      pool_late_penalty_bps = b, pool_total_owed = inv_amount i, pool_penalty_applied = False\<rparr>) \<and>
    fp_book s' = fp_book s \<and> fp_repayment_lock s' = fp_repayment_lock s \<and>
    fp_early_settlement s' = fp_early_settlement s \<and>
    fp_invoice_nft s = Some a \<and> peer_nft w a = Some n \<and>
    set_funded (peer_ac w) (subcall env a) (self env) k n = Ok n' \<and>
    w' = w\<lparr>peer_nft := (peer_nft w)(a \<mapsto> n')\<rparr>"
  using assms by (auto simp: release_funds_def Let_def fp_call_nft_eq_Ok fp_book_def)

lemma accept_effect:
  assumes "accept_early_settlement T env ivr k (s, w) = Ok (s', w')"
  shows "\<exists>off p q b. fp_early_settlement s k = Some off \<and> fp_pool s k = Some p \<and> \<not> pool_is_closed p \<and>
    fp_repayment_lock s k = None \<and> smap_get (fp_positions_of s k) ivr = Some q \<and> authorised env ivr \<and>
    ivr \<notin> set (eso_accepted off) \<and> b = eso_accepted_bps off + pos_share_bps q \<and> b \<le> U32_MAX \<and>
    (if 10000 \<le> b then
       fp_pool s' = (fp_pool s)(k \<mapsto> p\<lparr>pool_repaid_amount := eso_amount off, pool_is_closed := True\<rparr>) \<and>
       settled T env k (pool_token p) (eso_amount off) s w w' \<and>
       fp_early_settlement s' = (fp_early_settlement s)(k := None)
     else fp_pool s' = fp_pool s \<and> w' = w \<and> fp_early_settlement s' = (fp_early_settlement s)(k \<mapsto>
       off\<lparr>eso_accepted := eso_accepted off @ [ivr], eso_accepted_bps := b\<rparr>)) \<and>
    fp_book s' = fp_book s \<and> fp_repayment_lock s' = fp_repayment_lock s"
proof -
  from assms obtain off p q where
    *: "fp_early_settlement s k = Some off" "fp_pool s k = Some p" "\<not> pool_is_closed p"
      "fp_repayment_lock s k = None" "smap_get (fp_positions_of s k) ivr = Some q" "authorised env ivr"
      "ivr \<notin> set (eso_accepted off)" "eso_accepted_bps off + pos_share_bps q \<le> U32_MAX"
    by (auto simp: accept_early_settlement_def Let_def list_ex_iff)
  have unlock: "(fp_repayment_lock s)(k := None) = fp_repayment_lock s"
    using *(4) by (simp add: fun_upd_idem)
  show ?thesis
  proof (cases "10000 \<le> eso_accepted_bps off + pos_share_bps q")
    case True
    let ?s = "put_pool k (p\<lparr>pool_repaid_amount := eso_amount off, pool_is_closed := True\<rparr>)
      (s\<lparr>fp_repayment_lock := (fp_repayment_lock s)(k \<mapsto> True)\<rparr>)"
    from assms True * obtain s2 where
      st: "fp_settle T env k (pool_token p) (eso_amount off) (pool_face_value p) (?s, w) = Ok (s2, w')"
      and s': "s' = fp_emit (repayment_made env k (self env) (eso_amount off))
        (s2\<lparr>fp_early_settlement := (fp_early_settlement s2)(k := None),
            fp_repayment_lock := (fp_repayment_lock s2)(k := None)\<rparr>)"
      by (auto simp: accept_early_settlement_def Let_def list_ex_iff split: if_splits)
    have "fp_book s = fp_book ?s" "fp_book s' = fp_book s2" by (simp_all add: fp_book_def s')
    with fp_settle_effect [OF st] have "fp_book s' = fp_book s" "settled T env k (pool_token p) (eso_amount off) s w w'"
      by (auto intro: settled_book)
    with fp_settle_effect [OF st] s' True * unlock show ?thesis by simp
  next
    case False
    with assms * show ?thesis
      by (auto simp: accept_early_settlement_def Let_def list_ex_iff fp_book_def split: if_splits)
  qed
qed

lemma fp_report_default_frame [simp]:
  "peer_nft (fp_report_default env a sme s w) = peer_nft w"
  "peer_tk (fp_report_default env a sme s w) = peer_tk w"
  by (simp_all add: fp_report_default_def split: option.split sum.split)

lemma mark_default_effect:
  assumes "mark_default T env a k token (s, w) = Ok (s', w')"
  shows "\<exists>p w1 n i n'. fp_pool s k = Some p \<and> \<not> pool_is_closed p \<and> fp_admin s = Some a \<and> authorised env a \<and>
    fp_repayment_lock s k = None \<and>
    (if 0 < pool_repaid_amount p
     then \<exists>c evs tk. pay_positions T env k token (pool_repaid_amount p) (tk_decimals T token (peer_tk w))
       (fp_positions_of s k) 0 [] (peer_tk w) = Ok (c, evs, tk) \<and> w1 = w\<lparr>peer_tk := tk\<rparr>
     else w1 = w) \<and>
    fp_invoice_nft s = Some n \<and> peer_nft w n = Some i \<and>
    set_defaulted (subcall env n) a k i = Ok n' \<and>
    peer_nft w' = (peer_nft w)(n \<mapsto> n') \<and> peer_tk w' = peer_tk w1 \<and>
    fp_book s' = fp_book s \<and> fp_pool s' = fp_pool s \<and> fp_repayment_lock s' = fp_repayment_lock s \<and>
    fp_early_settlement s' = fp_early_settlement s"
proof -
  from assms obtain p s1 w1 w2 i where
    *: "fp_pool s k = Some p" "\<not> pool_is_closed p" "fp_admin s = Some a" "authorised env a"
      "fp_repayment_lock s k = None"
      "(if 0 < pool_repaid_amount p then distribute_yield T env k token (pool_repaid_amount p)
         (pool_face_value p) (s, w) else Ok (s, w)) = Ok (s1, w1)"
      "fp_call_nft (\<lambda>acs env' nft. set_defaulted env' a k nft) env s1 w1 = Ok w2"
      "s' = fp_emit (invoice_defaulted env k a) s1" "peer_nft w' = peer_nft w2" "peer_tk w' = peer_tk w2"
    by (auto simp: mark_default_def Let_def)
  have s1: "fp_book s1 = fp_book s \<and> fp_pool s1 = fp_pool s \<and> fp_repayment_lock s1 = fp_repayment_lock s \<and>
      fp_early_settlement s1 = fp_early_settlement s \<and> fp_invoice_nft s1 = fp_invoice_nft s \<and>
      peer_nft w1 = peer_nft w \<and>
      (if 0 < pool_repaid_amount p
       then \<exists>c evs tk. pay_positions T env k token (pool_repaid_amount p) (tk_decimals T token (peer_tk w))
         (fp_positions_of s k) 0 [] (peer_tk w) = Ok (c, evs, tk) \<and> w1 = w\<lparr>peer_tk := tk\<rparr>
       else w1 = w)"
    using *(6) by (auto simp: fp_book_def dest!: distribute_yield_effect split: if_splits)
  moreover from *(7) s1 obtain n j n' where "fp_invoice_nft s = Some n" "peer_nft w n = Some j"
      "set_defaulted (subcall env n) a k j = Ok n'" "w2 = w1\<lparr>peer_nft := (peer_nft w1)(n \<mapsto> n')\<rparr>"
    by (auto simp: fp_call_nft_eq_Ok)
  moreover have "fp_book s' = fp_book s1" "fp_pool s' = fp_pool s1"
      "fp_repayment_lock s' = fp_repayment_lock s1" "fp_early_settlement s' = fp_early_settlement s1"
    using *(8) by (simp_all add: fp_book_def)
  ultimately show ?thesis
    using *(1-5,9,10) by (intro exI [of _ p] exI [of _ w1] exI [of _ n] exI [of _ j] exI [of _ n']) simp
qed

lemma propose_early_settlement_effect:
  assumes "propose_early_settlement T env sme k x (s, w) = Ok (s', w')"
  shows "\<exists>p i tk. fp_pool s k = Some p \<and> \<not> pool_is_closed p \<and> 0 < x \<and> pool_total_funded p \<le> x \<and>
    x < pool_total_owed p \<and> fp_early_settlement s k = None \<and> fp_load_invoice w s k = Ok i \<and>
    inv_sme i = sme \<and> authorised env sme \<and>
    token_transfer T env (pool_token p) sme (self env) x (peer_tk w) = Ok tk \<and>
    w' = w\<lparr>peer_tk := tk\<rparr> \<and> s' = s\<lparr>fp_early_settlement := (fp_early_settlement s)(k \<mapsto>
      \<lparr>eso_invoice_id = k, eso_amount = x, eso_accepted_bps = 0, eso_accepted = []\<rparr>)\<rparr>"
  using assms by (auto simp: propose_early_settlement_def Let_def)

lemma cancel_early_settlement_effect:
  assumes "cancel_early_settlement T env sme k (s, w) = Ok (s', w')"
  shows "\<exists>off p i tk. fp_early_settlement s k = Some off \<and> fp_pool s k = Some p \<and>
    fp_load_invoice w s k = Ok i \<and> inv_sme i = sme \<and> authorised env sme \<and>
    token_transfer T env (pool_token p) (self env) sme (eso_amount off) (peer_tk w) = Ok tk \<and>
    w' = w\<lparr>peer_tk := tk\<rparr> \<and> s' = s\<lparr>fp_early_settlement := (fp_early_settlement s)(k := None)\<rparr>"
  using assms by (auto simp: cancel_early_settlement_def Let_def)

lemma share_value:
  assumes "checked_mul c 10000 = Some v" "checked_div v n = Some q" "0 < c" "c \<le> n"
  shows "as_u32 q = nat (c * 10000 div n) \<and> c * 10000 div n \<le> 10000 \<and> 0 \<le> c * 10000 div n"
proof -
  have "c * 10000 \<le> n * 10000" using assms(4) by simp
  then have "c * 10000 div n \<le> 10000"
    using assms(3,4) zdiv_mono1 [of "c * 10000" "n * 10000" n] by simp
  moreover have "0 \<le> c * 10000 div n" using assms(3,4) by (simp add: pos_imp_zdiv_nonneg_iff)
  moreover have "q = c * 10000 div n"
    using assms by (auto simp: checked_div_def split: if_splits)
  ultimately show ?thesis by (simp add: as_u32_small)
qed

lemma record_position_effect:
  assumes "record_position env w a k ivr c n s = Ok s'"
  shows "\<exists>p g e. fp_pool s k = Some p \<and> fp_admin s = Some a \<and> authorised env a \<and> 0 < c \<and> c \<le> n \<and> c \<le> MAX_AMOUNT \<and>
    nat (c * 10000 div n) \<le> get_max_position_bps s \<and> nat (c * 10000 div n) \<le> 10000 \<and>
    g = get_aggregate_funded s (pool_token p)
      - unwrap_or (map_option pos_contributed (smap_get (fp_positions_of s k) ivr)) 0 + c \<and>
    s' = fp_emit e (s\<lparr>fp_positions := (fp_positions s)(k \<mapsto> smap_set ivr \<lparr>pos_investor = ivr,
        pos_invoice_id = k, pos_contributed = c, pos_share_bps = nat (c * 10000 div n),
        pos_yield_claimed = 0\<rparr> (fp_positions_of s k)),
      fp_aggregate_funded := (fp_aggregate_funded s)(pool_token p \<mapsto> g)\<rparr>)"
proof -
  from assms obtain v q p where *: "checked_mul c 10000 = Some v" "checked_div v n = Some q" "0 < c" "c \<le> n"
      "fp_pool s k = Some p" "fp_admin s = Some a" "authorised env a" "as_u32 q \<le> get_max_position_bps s"
      "c \<le> MAX_AMOUNT"
    by (auto simp: record_position_def Let_def get_max_position_bps_def bind_eq_Some_conv)
  note sv = share_value [OF *(1-4)]
  with assms * show ?thesis
    by (auto simp: record_position_def Let_def get_max_position_bps_def get_aggregate_funded_def
        bind_eq_Some_conv)
qed

lemma buy_position_effect:
  assumes "buy_position T env b k sl (s, w) = Ok (s', w')"
  shows "\<exists>off p q tk e. fp_sale_offer s (k, sl) = Some off \<and> fp_pool s k = Some p \<and> \<not> pool_is_closed p \<and>
    smap_get (fp_positions_of s k) sl = Some q \<and> authorised env b \<and>
    token_transfer T env (sale_token off) b sl (sale_price off) (peer_tk w) = Ok tk \<and> w' = w\<lparr>peer_tk := tk\<rparr> \<and>
    s' = fp_emit e (s\<lparr>fp_sale_offer := (fp_sale_offer s)((k, sl) := None),
      fp_positions := (fp_positions s)(k \<mapsto> smap_set b \<lparr>pos_investor = b, pos_invoice_id = k,
        pos_contributed = pos_contributed q, pos_share_bps = pos_share_bps q,
        pos_yield_claimed = pos_yield_claimed q\<rparr> (smap_remove sl (fp_positions_of s k)))\<rparr>)"
  using assms by (auto simp: buy_position_def Let_def)

section \<open>Entry points as steps\<close>

text \<open>A call of an entry point. A step is such a call, or the other contracts and the tokens change in
  any way.\<close>

inductive fp_entry ::
    "'tk token_api \<Rightarrow> env \<Rightarrow> fp_state \<times> ('tk, 'z) peers_scheme \<Rightarrow> fp_state \<times> ('tk, 'z) peers_scheme \<Rightarrow> bool"
  for T :: "'tk token_api" and env :: env where
  "fp_initialize env a b c d e n f m s = Ok s' \<Longrightarrow> fp_entry T env (s, w) (s', w)"
| "release_funds env m k token (s, w) = Ok (s', w') \<Longrightarrow> fp_entry T env (s, w) (s', w')"
| "set_max_position_bps env a n s = Ok s' \<Longrightarrow> fp_entry T env (s, w) (s', w)"
| "record_position env w a k i c n s = Ok s' \<Longrightarrow> fp_entry T env (s, w) (s', w)"
| "repay T env a k token x (s, w) = Ok (s', w') \<Longrightarrow> fp_entry T env (s, w) (s', w')"
| "mark_default T env a k token (s, w) = Ok (s', w') \<Longrightarrow> fp_entry T env (s, w) (s', w')"
| "propose_early_settlement T env a k x (s, w) = Ok (s', w') \<Longrightarrow> fp_entry T env (s, w) (s', w')"
| "accept_early_settlement T env a k (s, w) = Ok (s', w') \<Longrightarrow> fp_entry T env (s, w) (s', w')"
| "cancel_early_settlement T env a k (s, w) = Ok (s', w') \<Longrightarrow> fp_entry T env (s, w) (s', w')"
| "list_position_for_sale env w a k token x s = Ok s' \<Longrightarrow> fp_entry T env (s, w) (s', w)"
| "buy_position T env a k b (s, w) = Ok (s', w') \<Longrightarrow> fp_entry T env (s, w) (s', w')"
| "fp_propose_upgrade env a h s = Ok s' \<Longrightarrow> fp_entry T env (s, w) (s', w)"
| "fp_execute_upgrade env a s = Ok s' \<Longrightarrow> fp_entry T env (s, w) (s', w)"

inductive fp_step ::
    "'tk token_api \<Rightarrow> env \<Rightarrow> fp_state \<times> ('tk, 'z) peers_scheme \<Rightarrow> fp_state \<times> ('tk, 'z) peers_scheme \<Rightarrow> bool"
  for T :: "'tk token_api" and env :: env where
  fp_call: "fp_entry T env x y \<Longrightarrow> fp_step T env x y"
| fp_other: "fp_step T env (s, w) (s, w')"

inductive fp_run ::
    "'tk token_api \<Rightarrow> fp_state \<times> ('tk, 'z) peers_scheme \<Rightarrow> fp_state \<times> ('tk, 'z) peers_scheme \<Rightarrow> bool"
  for T :: "'tk token_api" where
  fp_here: "fp_run T x x"
| fp_more: "fp_run T x y \<Longrightarrow> fp_step T env y z \<Longrightarrow> fp_run T x z"

section \<open>Invariants\<close>

text \<open>
  A pool owes its face value plus, once, the late penalty; an open pool is not fully repaid.
  Positions are stored by investor, with a positive contribution of at most \<open>MAX_AMOUNT\<close> and a share
  of at most 10000 basis points. A pending settlement offer belongs to a pool and is a discount while that pool
  is open. No repayment lock outlives a call.
\<close>

definition penalty_of :: "Pool \<Rightarrow> i128" where
  "penalty_of p = pool_face_value p * int (pool_late_penalty_bps p) div 10000"

definition pool_ok :: "u64 \<Rightarrow> Pool \<Rightarrow> bool" where
  "pool_ok k p \<longleftrightarrow> pool_invoice_id p = k \<and> 0 < pool_face_value p \<and> pool_face_value p \<le> MAX_AMOUNT \<and>
     pool_late_penalty_bps p \<le> 10000 \<and> pool_total_funded p = 0 \<and>
     pool_total_owed p = pool_face_value p + (if pool_penalty_applied p then penalty_of p else 0) \<and>
     0 \<le> pool_repaid_amount p \<and> (pool_is_closed p \<or> pool_repaid_amount p < pool_total_owed p)"

definition positions_ok :: "(Address, Position) smap \<Rightarrow> bool" where
  "positions_ok ps \<longleftrightarrow> smap_ok ps \<and>
     (\<forall>(i, q)\<in>set ps. pos_investor q = i \<and> 0 < pos_contributed q \<and> pos_contributed q \<le> MAX_AMOUNT \<and>
        pos_share_bps q \<le> 10000)"

definition offers_ok :: "fp_state \<Rightarrow> bool" where
  "offers_ok s \<longleftrightarrow> (\<forall>k off. fp_early_settlement s k = Some off \<longrightarrow> distinct (eso_accepted off) \<and>
     0 < eso_amount off \<and> (\<exists>p. fp_pool s k = Some p \<and> (pool_is_closed p \<or> eso_amount off < pool_total_owed p)))"

definition fp_inv :: "fp_state \<Rightarrow> bool" where
  "fp_inv s \<longleftrightarrow> fp_repayment_lock s = Map.empty \<and>
     (\<forall>n. fp_late_penalty_bps s = Some n \<longrightarrow> n \<le> 10000) \<and>
     (\<forall>k p. fp_pool s k = Some p \<longrightarrow> pool_ok k p) \<and>
     (\<forall>k ps. fp_positions s k = Some ps \<longrightarrow> positions_ok ps) \<and> offers_ok s"

lemma penalty_bounds: "0 < pool_face_value p \<Longrightarrow> pool_late_penalty_bps p \<le> 10000 \<Longrightarrow>
    0 \<le> penalty_of p \<and> penalty_of p \<le> pool_face_value p"
  using mul_div_le [of "pool_face_value p" "int (pool_late_penalty_bps p)" 10000]
  by (simp add: penalty_of_def pos_imp_zdiv_nonneg_iff)

lemma pool_ok_penalty:
  assumes "pool_ok k p" "apply_late_penalty env k i p = Ok (p', evs)"
  shows "pool_ok k p' \<and> pool_total_owed p \<le> pool_total_owed p' \<and>
    pool_repaid_amount p' = pool_repaid_amount p \<and> pool_is_closed p' = pool_is_closed p \<and>
    pool_token p' = pool_token p \<and> pool_face_value p' = pool_face_value p"
  using apply_late_penalty_effect [OF assms(2)] assms(1) penalty_bounds [of p]
  by (auto simp: pool_ok_def bps_of_eq_Ok penalty_of_def)

lemma positions_ok_of: "fp_inv s \<Longrightarrow> positions_ok (fp_positions_of s k)"
  by (cases "fp_positions s k") (auto simp: fp_inv_def fp_positions_of_def positions_ok_def smap_ok_def)

lemma positions_ok_set:
  assumes "positions_ok ps" "0 < pos_contributed q" "pos_contributed q \<le> MAX_AMOUNT"
    "pos_share_bps q \<le> 10000" "pos_investor q = i"
  shows "positions_ok (smap_set i q ps)"
  using assms set_smap_set [of i q ps] by (fastforce simp: positions_ok_def smap_ok_set)

lemma positions_ok_remove: "positions_ok ps \<Longrightarrow> positions_ok (smap_remove i ps)"
  using set_smap_remove [of i ps] by (fastforce simp: positions_ok_def smap_ok_remove)

lemma positions_ok_get: "positions_ok ps \<Longrightarrow> smap_get ps i = Some q \<Longrightarrow>
    pos_investor q = i \<and> 0 < pos_contributed q \<and> pos_contributed q \<le> MAX_AMOUNT \<and> pos_share_bps q \<le> 10000"
  by (force simp: positions_ok_def smap_get_def dest: map_of_SomeD)

text \<open>Changes of one component of the state.\<close>

lemma fp_inv_book:
  assumes "fp_inv s" "fp_book s' = fp_book s" "fp_repayment_lock s' = fp_repayment_lock s"
    "\<forall>k p. fp_pool s' k = Some p \<longrightarrow> pool_ok k p" "offers_ok s'"
  shows "fp_inv s'"
  using assms fp_book_fields [OF assms(2)] by (simp add: fp_inv_def)

lemma fp_inv_positions:
  assumes "m = (fp_positions s)(k \<mapsto> ps)" "fp_inv s" "positions_ok ps"
  shows "fp_inv (s\<lparr>fp_positions := m\<rparr>)"
  using assms by (auto simp: fp_inv_def offers_ok_def)

lemma fp_inv_frame [simp]:
  "fp_inv (s\<lparr>fp_events := x1\<rparr>) = fp_inv s"
  "fp_inv (s\<lparr>fp_aggregate_funded := x2\<rparr>) = fp_inv s"
  "fp_inv (s\<lparr>fp_sale_offer := x3\<rparr>) = fp_inv s"
  "fp_inv (s\<lparr>fp_upgrade_proposal := x4\<rparr>) = fp_inv s"
  "fp_inv (s\<lparr>fp_code := x5\<rparr>) = fp_inv s"
  "fp_inv (s\<lparr>fp_max_position_bps := x6\<rparr>) = fp_inv s"
  by (simp_all add: fp_inv_def offers_ok_def)

lemma offers_ok_pool:
  assumes "offers_ok s" "fp_early_settlement s' = fp_early_settlement s"
    "fp_pool s' = (fp_pool s)(k \<mapsto> p')"
    "\<forall>p. fp_pool s k = Some p \<longrightarrow> pool_is_closed p' \<or>
       \<not> pool_is_closed p \<and> pool_total_owed p \<le> pool_total_owed p'"
  shows "offers_ok s'"
  using assms by (fastforce simp: offers_ok_def)

lemma pools_ok_upd:
  "fp_inv s \<Longrightarrow> fp_pool s' = (fp_pool s)(k \<mapsto> p) \<Longrightarrow> pool_ok k p \<Longrightarrow>
     \<forall>k p. fp_pool s' k = Some p \<longrightarrow> pool_ok k p"
  by (simp add: fp_inv_def)

lemma repay_inv:
  assumes "repay T env a k token x (s, w) = Ok (s', w')" "fp_inv s"
  shows "fp_inv s'"
proof -
  from repay_effect [OF assms(1)] obtain p i eff p1 evs where
    *: "fp_pool s k = Some p" "\<not> pool_is_closed p" "0 < x"
      "convert_if_needed env w s x (inv_currency i) (pool_token p) = Ok eff"
      "apply_late_penalty env k i p = Ok (p1, evs)"
      "fp_pool s' = (fp_pool s)(k \<mapsto> p1\<lparr>pool_repaid_amount := pool_repaid_amount p1 + eff,
        pool_is_closed := (pool_total_owed p1 \<le> pool_repaid_amount p1 + eff \<or> pool_is_closed p1)\<rparr>)"
      "fp_book s' = fp_book s" "fp_repayment_lock s' = fp_repayment_lock s"
      "fp_early_settlement s' = fp_early_settlement s"
    by (auto simp: Let_def)
  have eff: "0 < eff" using convert_if_needed_pos [OF *(4,3)] .
  have ok: "pool_ok k p" "offers_ok s" using assms(2) *(1) by (simp_all add: fp_inv_def)
  note p1 = pool_ok_penalty [OF ok(1) *(5)]
  have "offers_ok s'"
    using ok(2) p1 *(1,2) by (intro offers_ok_pool [OF _ *(9,6)]) auto
  moreover have "\<forall>k p. fp_pool s' k = Some p \<longrightarrow> pool_ok k p"
    using p1 eff by (intro pools_ok_upd [OF assms(2) *(6)]) (auto simp: pool_ok_def penalty_of_def)
  ultimately show ?thesis using fp_inv_book [OF assms(2) *(7,8)] by blast
qed

lemma accept_inv:
  assumes "accept_early_settlement T env a k (s, w) = Ok (s', w')" "fp_inv s"
  shows "fp_inv s'"
proof -
  from accept_effect [OF assms(1)] obtain off :: EarlySettlementOffer and p :: Pool and b where
    *: "fp_early_settlement s k = Some off" "fp_pool s k = Some p" "\<not> pool_is_closed p"
      "a \<notin> set (eso_accepted off)"
      "if 10000 \<le> b then fp_pool s' = (fp_pool s)(k \<mapsto> p\<lparr>pool_repaid_amount := eso_amount off, pool_is_closed := True\<rparr>) \<and>
         settled T env k (pool_token p) (eso_amount off) s w w' \<and>
         fp_early_settlement s' = (fp_early_settlement s)(k := None)
       else fp_pool s' = fp_pool s \<and> w' = w \<and> fp_early_settlement s' = (fp_early_settlement s)(k \<mapsto>
         off\<lparr>eso_accepted := eso_accepted off @ [a], eso_accepted_bps := b\<rparr>)"
      "fp_book s' = fp_book s" "fp_repayment_lock s' = fp_repayment_lock s"
    by blast
  have "offers_ok s" "pool_ok k p" using assms(2) *(2) by (simp_all add: fp_inv_def)
  with * have "offers_ok s'" by (fastforce simp: offers_ok_def split: if_splits)
  moreover have "0 < eso_amount off" using \<open>offers_ok s\<close> *(1) by (simp add: offers_ok_def)
  with \<open>pool_ok k p\<close> have "pool_ok k (p\<lparr>pool_repaid_amount := eso_amount off, pool_is_closed := True\<rparr>)"
    by (simp add: pool_ok_def penalty_of_def)
  with *(5) assms(2) have "\<forall>k p. fp_pool s' k = Some p \<longrightarrow> pool_ok k p"
    by (cases "10000 \<le> b") (auto simp: fp_inv_def)
  ultimately show ?thesis using fp_inv_book [OF assms(2) *(6,7)] by blast
qed

lemma fp_entry_inv: "fp_entry T env x y \<Longrightarrow> fp_inv (fst x) \<Longrightarrow> fp_inv (fst y)"
proof (induction rule: fp_entry.induct)
  case (1 a b c d e n f m s s' w)
  then show ?case by (auto simp: fp_initialize_def fp_inv_def offers_ok_def split: if_splits)
next
  case (2 m k token s w s' w')
  from release_funds_effect [OF 2(1)] obtain i :: Invoice and b where
    *: "fp_pool s k = None" "0 < inv_amount i" "inv_amount i \<le> MAX_AMOUNT" "fp_late_penalty_bps s = Some b"
      "fp_pool s' = (fp_pool s)(k \<mapsto> \<lparr>pool_invoice_id = k, pool_token = token, pool_total_funded = 0,
        pool_face_value = inv_amount i, pool_repaid_amount = 0, pool_is_closed = False,
        pool_late_penalty_bps = b, pool_total_owed = inv_amount i, pool_penalty_applied = False\<rparr>)"
      "fp_book s' = fp_book s" "fp_repayment_lock s' = fp_repayment_lock s"
      "fp_early_settlement s' = fp_early_settlement s"
    by blast
  from 2(2) have "offers_ok s" by (simp add: fp_inv_def)
  then have "offers_ok s'" using *(1) by (intro offers_ok_pool [OF _ *(8,5)]) simp_all
  moreover have "b \<le> 10000" using 2(2) *(4) by (simp add: fp_inv_def)
  then have "\<forall>k p. fp_pool s' k = Some p \<longrightarrow> pool_ok k p"
    using *(2,3) 2(2) by (intro pools_ok_upd [OF _ *(5)]) (simp, simp add: pool_ok_def)
  ultimately show ?case using fp_inv_book [OF _ *(6,7)] 2(2) by simp
next
  case (4 w a k i c n s s')
  from record_position_effect [OF 4(1)] positions_ok_of 4(2) show ?case
    by (auto intro!: fp_inv_positions positions_ok_set)
next
  case (11 a k b s w s' w')
  from buy_position_effect [OF 11(1)] positions_ok_of 11(2) show ?case
    by (auto intro!: fp_inv_positions positions_ok_set positions_ok_remove dest!: positions_ok_get [rotated])
next
  case (6 a k token s w s' w')
  from mark_default_effect [OF 6(1)] have *: "fp_book s' = fp_book s" "fp_pool s' = fp_pool s"
      "fp_repayment_lock s' = fp_repayment_lock s" "fp_early_settlement s' = fp_early_settlement s"
    by auto
  with 6(2) fp_book_fields [OF *(1)] show ?case by (simp add: fp_inv_def offers_ok_def)
next
  case (7 a k x s w s' w')
  from propose_early_settlement_effect [OF 7(1)] 7(2) show ?case
    by (auto simp: fp_inv_def offers_ok_def split: if_splits)
next
  case (9 a k s w s' w')
  from cancel_early_settlement_effect [OF 9(1)] 9(2) show ?case
    by (auto simp: fp_inv_def offers_ok_def split: if_splits)
qed (auto simp: set_max_position_bps_def list_position_for_sale_def fp_propose_upgrade_def
    fp_execute_upgrade_def Let_def intro: repay_inv accept_inv)

lemma fp_step_inv: "fp_step T env x y \<Longrightarrow> fp_inv (fst x) \<Longrightarrow> fp_inv (fst y)"
  by (auto elim: fp_step.cases dest: fp_entry_inv)

lemma fp_empty_inv: "fp_inv fp_empty"
  by (simp add: fp_inv_def fp_empty_def offers_ok_def)

lemma fp_run_inv: "fp_run T x y \<Longrightarrow> fp_inv (fst x) \<Longrightarrow> fp_inv (fst y)"
  by (induction rule: fp_run.induct) (auto dest: fp_step_inv)

section \<open>Shares\<close>

lemma shares_set:
  "smap_ok ps \<Longrightarrow> shares (smap_set i q ps) =
     shares ps - (case smap_get ps i of None \<Rightarrow> 0 | Some r \<Rightarrow> int (pos_share_bps r)) + int (pos_share_bps q)"
  unfolding shares_def by (rule smap.total_set)

lemma shares_remove:
  "smap_ok ps \<Longrightarrow> smap_get ps i = Some r \<Longrightarrow> shares (smap_remove i ps) = shares ps - int (pos_share_bps r)"
  unfolding shares_def by (rule smap.total_remove)

text \<open>Positions recorded against one total \<open>n\<close>.\<close>

definition shares_for :: "i128 \<Rightarrow> (Address, Position) smap \<Rightarrow> bool" where
  "shares_for n ps \<longleftrightarrow> (\<forall>(i, q)\<in>set ps. pos_share_bps q = nat (pos_contributed q * 10000 div n))"

definition contributions :: "(Address, Position) smap \<Rightarrow> i128" where
  "contributions ps = (\<Sum>(i, q)\<leftarrow>ps. pos_contributed q)"

lemma contributions_simps [simp]:
  "contributions [] = 0" "contributions ((i, q) # ps) = pos_contributed q + contributions ps"
  by (simp_all add: contributions_def)

lemma shares_for_bound:
  assumes "shares_for n ps" "0 < n" "\<forall>(i, q)\<in>set ps. 0 < pos_contributed q"
  shows "shares ps * n \<le> contributions ps * 10000"
  using assms(1,3)
proof (induction ps)
  case (Cons iq ps)
  obtain i q where iq: "iq = (i, q)" by fastforce
  with Cons.prems have "0 < pos_contributed q" "int (pos_share_bps q) = pos_contributed q * 10000 div n"
    using assms(2) by (auto simp: shares_for_def pos_imp_zdiv_nonneg_iff)
  then have "int (pos_share_bps q) * n \<le> pos_contributed q * 10000"
    using div_mult_le_int [OF assms(2)] by simp
  moreover have "shares ps * n \<le> contributions ps * 10000"
    using Cons by (auto simp: shares_for_def)
  ultimately show ?case by (simp add: iq distrib_right)
qed simp

lemma shares_for_set:
  assumes "shares_for n ps" "pos_share_bps q = nat (pos_contributed q * 10000 div n)"
  shows "shares_for n (smap_set i q ps)"
  using assms set_smap_set [of i q ps] by (fastforce simp: shares_for_def)

lemma shares_for_10000:
  assumes "shares_for n ps" "0 < n" "positions_ok ps" "contributions ps \<le> n"
  shows "shares ps \<le> 10000"
proof -
  have "shares ps * n \<le> contributions ps * 10000"
    using assms(1-3) by (intro shares_for_bound) (auto simp: positions_ok_def)
  also have "\<dots> \<le> 10000 * n" using assms(4) by simp
  finally show ?thesis using assms(2) by simp
qed

section \<open>A closed pool is final\<close>

lemma fp_entry_closed:
  assumes "fp_entry T env x y" "fp_pool (fst x) k = Some p" "pool_is_closed p"
  shows "fp_pool (fst y) k = Some p"
  using assms
proof (induction rule: fp_entry.induct)
  case (2 m j token s w s' w')
  from release_funds_effect [OF 2(1)] 2(2) show ?case by auto
next
  case (5 a j token x s w s' w')
  from repay_effect [OF 5(1)] 5(2,3) show ?case by (auto simp: Let_def)
next
  case (6 a j token s w s' w')
  from mark_default_effect [OF 6(1)] 6(2) show ?case by auto
next
  case (8 a j s w s' w')
  from accept_effect [OF 8(1)] 8(2,3) show ?case by (auto split: if_splits)
next
  case (4 w a j i c n s s')
  from record_position_effect [OF 4(1)] 4(2) show ?case by auto
next
  case (7 a j x s w s' w')
  from propose_early_settlement_effect [OF 7(1)] 7(2) show ?case by auto
next
  case (9 a j s w s' w')
  from cancel_early_settlement_effect [OF 9(1)] 9(2) show ?case by auto
next
  case (11 a j b s w s' w')
  from buy_position_effect [OF 11(1)] 11(2) show ?case by auto
qed (auto simp: fp_initialize_def set_max_position_bps_def list_position_for_sale_def
    fp_propose_upgrade_def fp_execute_upgrade_def Let_def split: if_splits)

lemma fp_step_closed: "fp_step T env x y \<Longrightarrow> fp_pool (fst x) k = Some p \<Longrightarrow> pool_is_closed p \<Longrightarrow>
    fp_pool (fst y) k = Some p"
  by (auto elim: fp_step.cases dest: fp_entry_closed)

lemma fp_run_closed:
  "fp_run T x y \<Longrightarrow> fp_pool (fst x) k = Some p \<Longrightarrow> pool_is_closed p \<Longrightarrow> fp_pool (fst y) k = Some p"
  by (induction rule: fp_run.induct) (auto dest: fp_step_closed)

section \<open>Properties\<close>

text \<open>A run for the witnesses: the invoice of the NFT demonstration (1000 USDC, due at 9000) gets a
  pool, and two investors hold half of it each.\<close>

definition fp_demo_world :: "(Address \<Rightarrow> Address \<Rightarrow> i128) peers res" where
  "fp_demo_world = andThen nft_demo_listed (\<lambda>n.
     Ok \<lparr>peer_ac = nft_demo_ac, peer_rr = Map.empty, peer_or = [700 \<mapsto> or_empty],
         peer_nft = [300 \<mapsto> n], peer_tk = (\<lambda>_ a. if a = 8 then 2000 else 0)\<rparr>)"

definition fp_demo_open :: "(fp_state \<times> (Address \<Rightarrow> Address \<Rightarrow> i128) peers) res" where
  "fp_demo_open =
     andThen fp_demo_world (\<lambda>w.
     andThen (fp_initialize (open_env 500 5) 1 300 200 600 100 500 700 5000 fp_empty) (\<lambda>s.
     andThen (release_funds (open_env 500 50) 400 1 50 (s, w)) (\<lambda>(s, w).
     andThen (record_position (open_env 500 60) w 1 1 21 500 1000 s) (\<lambda>s.
     andThen (record_position (open_env 500 61) w 1 1 22 500 1000 s) (\<lambda>s.
     Ok (s, w))))))"

lemmas fp_eval =
  fp_demo_open_def fp_demo_world_def nft_eval fp_initialize_def release_funds_def record_position_def
  fp_empty_def or_empty_def fp_require_not_paused_def fp_require_admin_def fp_load_invoice_def
  fp_call_nft_def get_invoice_def fp_positions_of_def require_valid_fee_bps_def MAX_AMOUNT_def
  checked_mul_def checked_div_def checked_add_def checked_sub_def in_i128_def I128_MAX_def I128_MIN_def
  as_u32_def smap_get_def smap_contains_key_def repay_def commit_repayment_def fp_settle_def
  distribute_yield_def apply_late_penalty_def convert_if_needed_def convert_def is_invoice_frozen_def
  bps_of_normalized_def normalize_amount_def denormalize_amount_def STANDARD_DECIMALS_def
  token_transfer_def plain_token_def authorised_def open_env_def subcall_def require_auth_def
  saturating_add_def saturating_sub_def clamp_i128_def nft_release_exposure_def

lemma fp_demo_opens:
  "\<exists>s w p. fp_demo_open = Ok (s, w) \<and> get_pool s 1 = Ok p \<and> \<not> pool_is_closed p \<and> pool_total_owed p = 1000"
  by (simp add: fp_eval get_pool_def cong: andThen_weak_cong del: andThen_eq_Ok)

lemma fp_demo_repays:
  "\<exists>s w s' w' p. fp_demo_open = Ok (s, w) \<and> repay plain_token (open_env 500 70) 8 1 50 1000 (s, w) = Ok (s', w') \<and>
     get_pool s' 1 = Ok p \<and> pool_is_closed p \<and> peer_tk w' 50 21 = 500"
  by (simp add: fp_eval get_pool_def cong: andThen_weak_cong del: andThen_eq_Ok)

lemma fp_demo_run:
  assumes "fp_demo_open = Ok (s, w)"
  shows "\<exists>w0. fp_run plain_token (fp_empty, w0) (s, w)"
proof -
  from assms obtain w0 s1 s2 w2 s3 where
      st: "fp_initialize (open_env 500 5) 1 300 200 600 100 500 700 5000 fp_empty = Ok s1"
      "release_funds (open_env 500 50) 400 1 50 (s1, w0) = Ok (s2, w2)"
      "record_position (open_env 500 60) w2 1 1 21 500 1000 s2 = Ok s3"
      "record_position (open_env 500 61) w2 1 1 22 500 1000 s3 = Ok s" "w = w2"
    by (auto simp: fp_demo_open_def)
  from fp_more [OF fp_more [OF fp_more [OF fp_more [OF fp_here fp_call [OF fp_entry.intros(1) [OF st(1)]]]
          fp_call [OF fp_entry.intros(2) [OF st(2)]]] fp_call [OF fp_entry.intros(4) [OF st(3)]]] fp_call [OF fp_entry.intros(4) [OF st(4)]]]
  show ?thesis using st(5) by blast
qed

text \<open>
  C10: in every reachable state a pool owes exactly the face value of its invoice plus, if the late
  penalty was applied, once the penalty rate of that face value (so at most twice the face value);
  what was repaid is not negative, and a pool that is still open is not fully repaid.
\<close>

theorem pool_obligation:
  assumes "fp_run T (fp_empty, w0) (s, w)" "get_pool s k = Ok p"
  shows "0 < pool_face_value p \<and>
    pool_total_owed p = pool_face_value p +
      (if pool_penalty_applied p then pool_face_value p * int (pool_late_penalty_bps p) div 10000 else 0) \<and>
    pool_total_owed p \<le> 2 * pool_face_value p \<and> 0 \<le> pool_repaid_amount p \<and>
    (pool_is_closed p \<or> pool_repaid_amount p < pool_total_owed p)"
proof -
  have "fp_inv s" using fp_run_inv [OF assms(1)] fp_empty_inv by simp
  with assms(2) have "pool_ok k p" by (simp add: fp_inv_def get_pool_def)
  then show ?thesis using penalty_bounds [of p] by (auto simp: pool_ok_def penalty_of_def)
qed

theorem pool_obligation_witness:
  "\<exists>s w w0 p. fp_run plain_token (fp_empty, w0) (s, w :: (Address \<Rightarrow> Address \<Rightarrow> i128) peers) \<and>
     get_pool s 1 = Ok p \<and> pool_repaid_amount p < pool_total_owed p"
proof -
  obtain s w p where d: "fp_demo_open = Ok (s, w)" "get_pool s 1 = Ok p" "\<not> pool_is_closed p"
    using fp_demo_opens by blast
  then obtain w0 where r: "fp_run plain_token (fp_empty, w0) (s, w)" using fp_demo_run by blast
  from pool_obligation [OF r d(2)] r d show ?thesis by blast
qed

text \<open>
  C24: a successful repayment. The payer authorised it, the pool was open and the invoice not frozen.
  The amount paid is converted from the currency of the invoice to USDC: as it is without an oracle
  or for an invoice in USDC, and otherwise times the oracle's positive price of that pair, at most
  an hour old, rounded down. The pool changes in four fields only: the repaid amount grows by the
  converted amount; the late penalty, the pool's rate of the face value, is added to what is owed
  exactly when the invoice is overdue and the penalty was not added before; the pool closes
  exactly if the repaid amount reaches what is owed. If it does not close, the tokens paid move from
  the payer to the pool and nothing else changes in the other contracts; if it closes, the invoice
  goes from \<open>Funded\<close> to \<open>Repaid\<close>, which the invoice contract allows only while it is not paused.
\<close>

theorem repayment_effect:
  assumes "sep41 T" "repay T env payer k token x (s, w) = Ok (s', w')"
  shows "\<exists>p q i eff late a. authorised env payer \<and> 0 < x \<and> get_pool s k = Ok p \<and> \<not> pool_is_closed p \<and>
    get_pool s' k = Ok q \<and> fp_load_invoice w s k = Ok i \<and> fp_invoice_nft s = Some a \<and>
    \<not> is_invoice_frozen (the (peer_nft w a)) k \<and>
    (case fp_price_oracle s of None \<Rightarrow> eff = x
     | Some oa \<Rightarrow> if inv_currency i = ''USDC'' then eff = x
         else \<exists>orc d. peer_or w oa = Some orc \<and> or_price orc (inv_currency i, ''USDC'') = Some d \<and>
           0 < pd_price d \<and> timestamp env \<le> pd_timestamp d + MAX_STALENESS_SECS \<and>
           eff = x * pd_price d div 10000000) \<and> 0 < eff \<and>
    (late \<longleftrightarrow> \<not> pool_penalty_applied p \<and> 0 < pool_late_penalty_bps p \<and> inv_due_date i < timestamp env) \<and>
    q = p\<lparr>pool_repaid_amount := pool_repaid_amount p + eff,
      pool_total_owed := pool_total_owed p +
        (if late then pool_face_value p * int (pool_late_penalty_bps p) div 10000 else 0),
      pool_penalty_applied := pool_penalty_applied p \<or> late,
      pool_is_closed := (pool_total_owed q \<le> pool_repaid_amount q)\<rparr> \<and>
    (if pool_is_closed q
     then inv_status i = Funded \<and> nft_require_not_paused (peer_ac w) (the (peer_nft w a)) = Ok () \<and>
       (\<exists>j. fp_load_invoice w' s' k = Ok j \<and> inv_status j = Repaid)
     else w' = w\<lparr>peer_tk := peer_tk w'\<rparr> \<and>
       (\<forall>token' b. tk_balance T token' b (peer_tk w') = tk_balance T token' b (peer_tk w)
          - (if token' = token \<and> b = payer then x else 0)
          + (if token' = token \<and> b = self env then x else 0)))"
proof -
  from repay_effect [OF assms(2)] obtain p i eff p1 evs tk a n where
    *: "authorised env payer" "0 < x" "fp_pool s k = Some p" "\<not> pool_is_closed p"
      "fp_load_invoice w s k = Ok i" "convert_if_needed env w s x (inv_currency i) (pool_token p) = Ok eff"
      "apply_late_penalty env k i p = Ok (p1, evs)"
      "fp_pool s' = (fp_pool s)(k \<mapsto> p1\<lparr>pool_repaid_amount := pool_repaid_amount p1 + eff,
        pool_is_closed := (pool_total_owed p1 \<le> pool_repaid_amount p1 + eff \<or> pool_is_closed p1)\<rparr>)"
      "if pool_total_owed p1 \<le> pool_repaid_amount p1 + eff
       then settled T env k token (pool_repaid_amount p1 + eff) s (w\<lparr>peer_tk := tk\<rparr>) w'
       else w' = w\<lparr>peer_tk := tk\<rparr>"
      "fp_book s' = fp_book s" "fp_invoice_nft s = Some a" "peer_nft w a = Some n" "\<not> is_invoice_frozen n k"
      "token_transfer T env token payer (self env) x (peer_tk w) = Ok tk"
    unfolding Let_def by blast
  let ?late = "\<not> pool_penalty_applied p \<and> 0 < pool_late_penalty_bps p \<and> inv_due_date i < timestamp env"
  let ?q = "p1\<lparr>pool_repaid_amount := pool_repaid_amount p1 + eff,
      pool_is_closed := (pool_total_owed p1 \<le> pool_repaid_amount p1 + eff \<or> pool_is_closed p1)\<rparr>"
  have p1: "p1 = p\<lparr>pool_total_owed := pool_total_owed p +
        (if ?late then pool_face_value p * int (pool_late_penalty_bps p) div 10000 else 0),
      pool_penalty_applied := pool_penalty_applied p \<or> ?late\<rparr>"
    by (rule apply_late_penalty_exact [OF *(7)])
  have nft: "if pool_total_owed p1 \<le> pool_repaid_amount p1 + eff
     then inv_status i = Funded \<and> nft_require_not_paused (peer_ac w) (the (peer_nft w a)) = Ok () \<and>
       (\<exists>j. fp_load_invoice w' s' k = Ok j \<and> inv_status j = Repaid)
     else w' = w\<lparr>peer_tk := peer_tk w'\<rparr> \<and> peer_tk w' = tk"
    using *(5,9,11,12) fp_book_fields(3) [OF *(10)]
    by (auto simp: settled_def fp_load_invoice_eq_Ok get_invoice_def nft_release_exposure_def
        dest!: set_repaid_effect split: if_splits)
  have q: "get_pool s' k = Ok ?q" "get_pool s k = Ok p" using *(3,8) by (simp_all add: get_pool_def)
  have closed: "pool_is_closed ?q \<longleftrightarrow> pool_total_owed p1 \<le> pool_repaid_amount p1 + eff"
    using *(4) by (simp add: p1)
  have eq: "?q = p\<lparr>pool_repaid_amount := pool_repaid_amount p + eff,
      pool_total_owed := pool_total_owed p +
        (if ?late then pool_face_value p * int (pool_late_penalty_bps p) div 10000 else 0),
      pool_penalty_applied := pool_penalty_applied p \<or> ?late,
      pool_is_closed := (pool_total_owed ?q \<le> pool_repaid_amount ?q)\<rparr>"
    using *(4) by (simp add: p1)
  have fin: "if pool_is_closed ?q
     then inv_status i = Funded \<and> nft_require_not_paused (peer_ac w) (the (peer_nft w a)) = Ok () \<and>
       (\<exists>j. fp_load_invoice w' s' k = Ok j \<and> inv_status j = Repaid)
     else w' = w\<lparr>peer_tk := peer_tk w'\<rparr> \<and>
       (\<forall>token' b. tk_balance T token' b (peer_tk w') = tk_balance T token' b (peer_tk w)
          - (if token' = token \<and> b = payer then x else 0)
          + (if token' = token \<and> b = self env then x else 0))"
    using nft sep41_transfer(3) [OF assms(1) *(14)] unfolding closed by auto
  have "\<not> is_invoice_frozen (the (peer_nft w a)) k" using *(12,13) by simp
  with *(1,2,4,5,11) q eq fin convert_if_needed_value [OF *(6,2)] show ?thesis by blast
qed

theorem repayment_effect_witness:
  "\<exists>s w s' w' q. repay plain_token (open_env 500 70) 8 1 50 1000 (s, w) = Ok (s', w') \<and>
     get_pool s' 1 = Ok q \<and> pool_is_closed q \<and> (w :: (Address \<Rightarrow> Address \<Rightarrow> i128) peers) \<noteq> w' \<and>
     (\<exists>j. fp_load_invoice w' s' 1 = Ok j \<and> inv_status j = Repaid)"
proof -
  obtain s w s' w' p where d: "fp_demo_open = Ok (s, w)"
      "repay plain_token (open_env 500 70) 8 1 50 1000 (s, w) = Ok (s', w')"
      "get_pool s' 1 = Ok p" "pool_is_closed p"
    using fp_demo_repays by blast
  from repayment_effect [OF sep41_plain_token d(2)] d(3,4) obtain i j where
    ij: "fp_load_invoice w s 1 = Ok i" "inv_status i = Funded"
      "fp_load_invoice w' s' 1 = Ok j" "inv_status j = Repaid" by auto
  have "fp_invoice_nft s' = fp_invoice_nft s"
    using repay_effect [OF d(2)] fp_book_fields(3) by blast
  with ij have "w \<noteq> w'" by (auto simp: fp_load_invoice_eq_Ok)
  with d ij show ?thesis by blast
qed

text \<open>
  C25: the record of a closed pool is final. Along every run it does not change any more, and the
  calls that would pay into the pool, settle it, open it again or trade its positions are refused:
  repayments, defaults, proposing and accepting a settlement, listing and buying a position, and
  opening the pool. The other two calls on a pool do not look at the flag: an open settlement offer
  can still be withdrawn, and positions can still be recorded.
\<close>

theorem closed_pool_final:
  assumes "fp_run T (s, w) (s', w')" "get_pool s k = Ok p" "pool_is_closed p"
  shows "get_pool s' k = Ok p \<and> repay T env a k token x (s', w') \<noteq> Ok y \<and>
    mark_default T env a k token (s', w') \<noteq> Ok y \<and>
    propose_early_settlement T env a k x (s', w') \<noteq> Ok y \<and>
    accept_early_settlement T env a k (s', w') \<noteq> Ok y \<and>
    list_position_for_sale env w' a k token x s' \<noteq> Ok z \<and>
    buy_position T env a k b (s', w') \<noteq> Ok y \<and> release_funds env a k token (s', w') \<noteq> Ok y"
proof -
  have p: "fp_pool s' k = Some p" using fp_run_closed [OF assms(1)] assms(2,3) by (simp add: get_pool_def)
  moreover from this assms(3) have "list_position_for_sale env w' a k token x s' \<noteq> Ok z"
    by (auto simp: list_position_for_sale_def Let_def)
  ultimately show ?thesis
    using assms(3)
    by (cases y) (auto simp: get_pool_def dest!: repay_effect mark_default_effect
        propose_early_settlement_effect accept_effect buy_position_effect release_funds_effect)
qed

theorem closed_pool_final_witness:
  "\<exists>s w. (\<exists>p. get_pool s 1 = Ok p \<and> pool_is_closed p) \<and>
     (\<forall>y. repay plain_token (open_env 500 80) 8 1 50 1000 (s, w :: (Address \<Rightarrow> Address \<Rightarrow> i128) peers) \<noteq> Ok y)"
proof -
  obtain s and w :: "(Address \<Rightarrow> Address \<Rightarrow> i128) peers" and p :: Pool where
    d: "get_pool s 1 = Ok p" "pool_is_closed p"
    using fp_demo_repays by blast
  have "repay plain_token (open_env 500 80) 8 1 50 1000 (s, w) \<noteq> Ok y" for y
    using closed_pool_final [OF fp_here [of plain_token "(s, w)"] d, where env = "open_env 500 80"
        and a = 8 and token = 50 and x = 1000 and y = y] by blast
  with d show ?thesis by blast
qed

end
