(* ===== verification/Marketplace.thy ===== *)
theory Marketplace
  imports Kora_Treasury Financing_Pool
begin

text \<open>
  The marketplace (\<^verbatim>\<open>contracts/marketplace/src/lib.rs\<close>): its configuration with the migration of the
  legacy keys, the fee rates, the token whitelist, the listing of invoices, the funding of a listing
  by investors, cancellation in one or two phases, refunds and the upgrade.

  An operation acts on the marketplace's own state and on \<open>mp_world\<close>, which extends the peers of the
  financing pool by the treasury and the pools themselves: funding an invoice moves tokens, books the
  fee in the treasury and, when the listing is full, opens the pool, which in turn calls the invoice
  contract.
\<close>

section \<open>State\<close>

record MarketplaceConfig =
  mc_admin :: Address
  mc_invoice_nft :: Address
  mc_financing_pool :: Address
  mc_treasury :: Address
  mc_access_control :: Address
  mc_risk_registry :: Address
  mc_fee_bps :: u32
  mc_referrer_split_bps :: u32

record mp_state =
  mp_config :: "MarketplaceConfig option"
  mp_admin :: "Address option"
  mp_invoice_nft :: "Address option"
  mp_financing_pool :: "Address option"
  mp_treasury :: "Address option"
  mp_access_control :: "Address option"
  mp_risk_registry :: "Address option"
  mp_fee_bps :: "u32 option"
  mp_listing :: "u64 \<rightharpoonup> Listing"
  mp_whitelisted :: "Address \<rightharpoonup> bool"
  mp_upgrade_proposal :: "(BytesN32 \<times> u64) option"
  mp_tier_fee_bps :: "u32 \<rightharpoonup> u32"
  mp_contribution :: "u64 \<times> Address \<rightharpoonup> i128"
  mp_refund_claimed :: "u64 \<times> Address \<rightharpoonup> bool"
  mp_referrer :: "u64 \<rightharpoonup> Address"
  mp_cancellation_request :: "u64 \<rightharpoonup> Address"
  mp_cancellation_confirmed :: "u64 \<rightharpoonup> bool"
  mp_lock :: bool
  mp_code :: "BytesN32 option"
  mp_events :: "event list"

definition mp_empty :: mp_state where
  "mp_empty = \<lparr>mp_config = None, mp_admin = None, mp_invoice_nft = None, mp_financing_pool = None,
     mp_treasury = None, mp_access_control = None, mp_risk_registry = None, mp_fee_bps = None,
     mp_listing = Map.empty, mp_whitelisted = Map.empty, mp_upgrade_proposal = None,
     mp_tier_fee_bps = Map.empty, mp_contribution = Map.empty, mp_refund_claimed = Map.empty,
     mp_referrer = Map.empty, mp_cancellation_request = Map.empty,
     mp_cancellation_confirmed = Map.empty, mp_lock = False, mp_code = None, mp_events = []\<rparr>"

record 'tk mp_world = "'tk peers" +
  peer_tr :: "Address \<rightharpoonup> tr_state"
  peer_fp :: "Address \<rightharpoonup> fp_state"

abbreviation mp_emit :: "event \<Rightarrow> mp_state \<Rightarrow> mp_state" where
  "mp_emit e s \<equiv> s\<lparr>mp_events := mp_events s @ [e]\<rparr>"

abbreviation put_listing :: "u64 \<Rightarrow> Listing \<Rightarrow> mp_state \<Rightarrow> mp_state" where
  "put_listing k l s \<equiv> s\<lparr>mp_listing := (mp_listing s)(k \<mapsto> l)\<rparr>"

abbreviation mp_get_lock :: "mp_state \<times> 'tk mp_world \<Rightarrow> bool" where
  "mp_get_lock x \<equiv> mp_lock (fst x)"

abbreviation mp_put_lock :: "bool \<Rightarrow> mp_state \<times> 'tk mp_world \<Rightarrow> mp_state \<times> 'tk mp_world" where
  "mp_put_lock b x \<equiv> (fst x\<lparr>mp_lock := b\<rparr>, snd x)"

section \<open>Helpers\<close>

text \<open>The configuration; a contract that still has the individual keys of the first version gets
  them consolidated, and the result stored.\<close>

definition load_config :: "mp_state \<Rightarrow> (MarketplaceConfig \<times> mp_state) res" where
  "load_config s =
     (case mp_config s of
        Some config \<Rightarrow> Ok (config, s)
      | None \<Rightarrow>
          andThen (ok_or (mp_admin s) NotInitialized) (\<lambda>admin.
          andThen (ok_or (mp_invoice_nft s) NotInitialized) (\<lambda>invoice_nft.
          andThen (ok_or (mp_financing_pool s) NotInitialized) (\<lambda>financing_pool.
          andThen (ok_or (mp_treasury s) NotInitialized) (\<lambda>treasury.
          andThen (ok_or (mp_access_control s) NotInitialized) (\<lambda>access_control.
          andThen (ok_or (mp_fee_bps s) NotInitialized) (\<lambda>fee_bps.
          andThen (ok_or (mp_risk_registry s) NotInitialized) (\<lambda>risk_registry.
          let config = \<lparr>mc_admin = admin, mc_invoice_nft = invoice_nft,
                mc_financing_pool = financing_pool, mc_treasury = treasury,
                mc_access_control = access_control, mc_risk_registry = risk_registry,
                mc_fee_bps = fee_bps, mc_referrer_split_bps = 0\<rparr>
          in Ok (config, s\<lparr>mp_config := Some config\<rparr>)))))))))"

text \<open>The prologue of the administrative operations.\<close>

definition mp_load_admin :: "mp_state \<Rightarrow> Address \<Rightarrow> (MarketplaceConfig \<times> mp_state) res" where
  "mp_load_admin s admin =
     andThen (load_config s) (\<lambda>(config, s).
     if mc_admin config \<noteq> admin then Err NotAdmin else Ok (config, s))"

definition mp_require_not_paused :: "'tk mp_world \<Rightarrow> mp_state \<Rightarrow> unit res" where
  "mp_require_not_paused w s =
     (case mp_access_control s of
        None \<Rightarrow> Ok ()
      | Some ac_contract \<Rightarrow>
          andThen (deployed (peer_ac w ac_contract)) (\<lambda>ac.
          if is_paused ac then Err ProtocolPaused else Ok ()))"

definition require_compliance_attested :: "'tk mp_world \<Rightarrow> Address \<Rightarrow> mp_state \<Rightarrow> mp_state res" where
  "require_compliance_attested w sme s =
     andThen (load_config s) (\<lambda>(config, s).
     andThen (deployed (peer_rr w (mc_risk_registry config))) (\<lambda>rr.
     if \<not> is_compliance_attested rr sme then Err ComplianceNotAttested else Ok s))"

definition mp_require_whitelisted_token :: "mp_state \<Rightarrow> Address \<Rightarrow> unit res" where
  "mp_require_whitelisted_token s token =
     (let ok = unwrap_or (mp_whitelisted s token) False in
      if \<not> ok then Err TokenNotWhitelisted else Ok ())"

fun tier_ordinal :: "RiskTier \<Rightarrow> u32" where
  "tier_ordinal AAA = 0"
| "tier_ordinal AA = 1"
| "tier_ordinal A = 2"
| "tier_ordinal B = 3"
| "tier_ordinal C = 4"

section \<open>Configuration\<close>

definition mp_initialize ::
    "Address \<Rightarrow> Address \<Rightarrow> Address \<Rightarrow> Address \<Rightarrow> Address \<Rightarrow> Address \<Rightarrow> u32 \<Rightarrow> mp_state \<Rightarrow> mp_state res" where
  "mp_initialize admin invoice_nft financing_pool treasury access_control risk_registry fee_bps s =
     (if mp_config s \<noteq> None then Err AlreadyInitialized else
      andThen (require_valid_fee_bps fee_bps) (\<lambda>_.
      let s = s\<lparr>mp_admin := Some admin, mp_invoice_nft := Some invoice_nft,
                mp_financing_pool := Some financing_pool, mp_treasury := Some treasury,
                mp_fee_bps := Some fee_bps, mp_access_control := Some access_control,
                mp_risk_registry := Some risk_registry\<rparr>;
          config = \<lparr>mc_admin = admin, mc_invoice_nft = invoice_nft,
            mc_financing_pool = financing_pool, mc_treasury = treasury,
            mc_access_control = access_control, mc_risk_registry = risk_registry,
            mc_fee_bps = fee_bps, mc_referrer_split_bps = 0\<rparr>
      in Ok (s\<lparr>mp_config := Some config\<rparr>)))"

definition set_referrer_split_bps :: "env \<Rightarrow> Address \<Rightarrow> u32 \<Rightarrow> mp_state \<Rightarrow> mp_state res" where
  "set_referrer_split_bps env admin referrer_split_bps s =
     andThen (require_auth env admin) (\<lambda>_.
     andThen (mp_load_admin s admin) (\<lambda>(config, s).
     andThen (require_valid_fee_bps referrer_split_bps) (\<lambda>_.
     Ok (s\<lparr>mp_config := Some (config\<lparr>mc_referrer_split_bps := referrer_split_bps\<rparr>)\<rparr>))))"

definition mp_set_fee_bps :: "env \<Rightarrow> Address \<Rightarrow> u32 \<Rightarrow> mp_state \<Rightarrow> mp_state res" where
  "mp_set_fee_bps env admin fee_bps s =
     andThen (require_auth env admin) (\<lambda>_.
     andThen (mp_load_admin s admin) (\<lambda>(config, s).
     andThen (require_valid_fee_bps fee_bps) (\<lambda>_.
     let old_bps = mc_fee_bps config;
         s = s\<lparr>mp_config := Some (config\<lparr>mc_fee_bps := fee_bps\<rparr>)\<rparr>
     in Ok (mp_emit (fee_rate_updated env admin old_bps fee_bps) s))))"

definition update_fee_bps :: "env \<Rightarrow> Address \<Rightarrow> u32 \<Rightarrow> mp_state \<Rightarrow> mp_state res" where
  "update_fee_bps env admin fee_bps s = mp_set_fee_bps env admin fee_bps s"

text \<open>The views load the configuration, and so may migrate it.\<close>

definition mp_get_fee_bps :: "mp_state \<Rightarrow> (u32 \<times> mp_state) res" where
  "mp_get_fee_bps s = andThen (load_config s) (\<lambda>(config, s). Ok (mc_fee_bps config, s))"

definition set_tier_fee_bps :: "env \<Rightarrow> Address \<Rightarrow> RiskTier \<Rightarrow> u32 \<Rightarrow> mp_state \<Rightarrow> mp_state res" where
  "set_tier_fee_bps env admin tier fee_bps s =
     andThen (require_auth env admin) (\<lambda>_.
     andThen (mp_load_admin s admin) (\<lambda>(config, s).
     andThen (require_valid_fee_bps fee_bps) (\<lambda>_.
     Ok (s\<lparr>mp_tier_fee_bps := (mp_tier_fee_bps s)(tier_ordinal tier \<mapsto> fee_bps)\<rparr>))))"

definition get_tier_fee_bps :: "mp_state \<Rightarrow> RiskTier \<Rightarrow> u32 \<times> mp_state" where
  "get_tier_fee_bps s tier =
     (case mp_tier_fee_bps s (tier_ordinal tier) of
        Some fee_bps \<Rightarrow> (fee_bps, s)
      | None \<Rightarrow> (case load_config s of Inl _ \<Rightarrow> (50, s) | Inr (config, s) \<Rightarrow> (mc_fee_bps config, s)))"

definition mp_get_config :: "mp_state \<Rightarrow> (MarketplaceConfig \<times> mp_state) res" where
  "mp_get_config s = load_config s"

definition mp_get_admin :: "mp_state \<Rightarrow> (Address \<times> mp_state) res" where
  "mp_get_admin s = andThen (load_config s) (\<lambda>(config, s). Ok (mc_admin config, s))"

definition mp_whitelist_token :: "env \<Rightarrow> Address \<Rightarrow> Address \<Rightarrow> mp_state \<Rightarrow> mp_state res" where
  "mp_whitelist_token env admin token s =
     andThen (require_auth env admin) (\<lambda>_.
     andThen (mp_load_admin s admin) (\<lambda>(config, s).
     let s = s\<lparr>mp_whitelisted := (mp_whitelisted s)(token \<mapsto> True)\<rparr>
     in Ok (mp_emit (token_whitelisted env admin token) s)))"

definition remove_token_whitelist :: "env \<Rightarrow> Address \<Rightarrow> Address \<Rightarrow> mp_state \<Rightarrow> mp_state res" where
  "remove_token_whitelist env admin token s =
     andThen (require_auth env admin) (\<lambda>_.
     andThen (mp_load_admin s admin) (\<lambda>(config, s).
     if \<not> unwrap_or (mp_whitelisted s token) False then Err TokenNotWhitelisted else
     Ok (s\<lparr>mp_whitelisted := (mp_whitelisted s)(token := None)\<rparr>)))"

definition mp_is_token_whitelisted :: "mp_state \<Rightarrow> Address \<Rightarrow> bool" where
  "mp_is_token_whitelisted s token = unwrap_or (mp_whitelisted s token) False"

section \<open>Listing\<close>

text \<open>The part of \<open>list_invoice\<close> that runs with the reentrancy lock held.\<close>

definition mp_list_locked ::
    "env \<Rightarrow> Address \<Rightarrow> u64 \<Rightarrow> i128 \<Rightarrow> i128 \<Rightarrow> Address \<Rightarrow> u64 \<Rightarrow> Address option \<Rightarrow>
     mp_state \<times> 'tk mp_world \<Rightarrow> (mp_state \<times> 'tk mp_world) res" where
  "mp_list_locked env seller invoice_id asking_price face_value token funding_deadline referrer = (\<lambda>(s, w).
     andThen (load_config s) (\<lambda>(config, s).
     andThen (case referrer of
                None \<Rightarrow> Ok s
              | Some r \<Rightarrow> if r = seller then Err InvalidAddress
                          else Ok (s\<lparr>mp_referrer := (mp_referrer s)(invoice_id \<mapsto> r)\<rparr>)) (\<lambda>s.
     andThen (deployed (peer_nft w (mc_invoice_nft config))) (\<lambda>nft_client.
     andThen (call (get_invoice nft_client invoice_id)) (\<lambda>invoice.
     if inv_amount invoice \<noteq> face_value then Err InvalidAmount else
     andThen (call (set_listed (peer_ac w) (subcall env (mc_invoice_nft config)) (self env)
                      invoice_id nft_client)) (\<lambda>nft_client.
     let w = w\<lparr>peer_nft := (peer_nft w)(mc_invoice_nft config \<mapsto> nft_client)\<rparr>;
         listing = \<lparr>lst_invoice_id = invoice_id, lst_seller = seller, lst_asking_price = asking_price,
           lst_face_value = face_value, lst_token = token, lst_funded_amount = 0,
           lst_funding_deadline = funding_deadline, lst_is_active = True\<rparr>;
         s = put_listing invoice_id listing s
     in Ok (mp_emit (invoice_listed env invoice_id seller asking_price) s, w)))))))"

definition list_invoice ::
    "env \<Rightarrow> Address \<Rightarrow> u64 \<Rightarrow> i128 \<Rightarrow> i128 \<Rightarrow> Address \<Rightarrow> u64 \<Rightarrow> Address option \<Rightarrow>
     mp_state \<times> 'tk mp_world \<Rightarrow> (mp_state \<times> 'tk mp_world) res" where
  "list_invoice env seller invoice_id asking_price face_value token funding_deadline referrer = (\<lambda>(s, w).
     andThen (require_auth env seller) (\<lambda>_.
     andThen (mp_require_not_paused w s) (\<lambda>_.
     andThen (require_non_zero_amount asking_price) (\<lambda>_.
     andThen (require_non_zero_amount face_value) (\<lambda>_.
     andThen (require_within_max_amount asking_price) (\<lambda>_.
     andThen (require_within_max_amount face_value) (\<lambda>_.
     andThen (require_future_timestamp env funding_deadline) (\<lambda>_.
     if asking_price \<ge> face_value then Err InvalidAmount else
     andThen (mp_require_whitelisted_token s token) (\<lambda>_.
     andThen (require_compliance_attested w seller s) (\<lambda>s.
     if mp_listing s invoice_id \<noteq> None then Err InvoiceAlreadyExists else
     with_guard mp_get_lock mp_put_lock
       (mp_list_locked env seller invoice_id asking_price face_value token funding_deadline referrer)
       (s, w)))))))))))"

section \<open>Funding\<close>

text \<open>The payments of \<open>fund_invoice\<close>: the fee to the treasury, which books it, and the rest to the
  financing pool.\<close>

definition mp_pay ::
    "'tk token_api \<Rightarrow> env \<Rightarrow> MarketplaceConfig \<Rightarrow> Address \<Rightarrow> Address \<Rightarrow> i128 \<Rightarrow> i128 \<Rightarrow> 'tk mp_world \<Rightarrow>
     'tk mp_world res" where
  "mp_pay T env config token investor fee net w =
     andThen (if fee > 0 then
                andThen (token_transfer T env token investor (mc_treasury config) fee (peer_tk w)) (\<lambda>tk.
                andThen (deployed (peer_tr w (mc_treasury config))) (\<lambda>treasury_client.
                andThen (call (collect_fee (subcall env (mc_treasury config)) token fee treasury_client))
                  (\<lambda>treasury_client.
                Ok (w\<lparr>peer_tk := tk, peer_tr := (peer_tr w)(mc_treasury config \<mapsto> treasury_client)\<rparr>))))
              else Ok w) (\<lambda>w.
     if net > 0 then
       andThen (token_transfer T env token investor (mc_financing_pool config) net (peer_tk w)) (\<lambda>tk.
       Ok (w\<lparr>peer_tk := tk\<rparr>))
     else Ok w)"

text \<open>The bookkeeping of \<open>fund_invoice\<close>: the listing, the investor's net contribution, the events.\<close>

definition mp_book_contribution ::
    "env \<Rightarrow> Address \<Rightarrow> u64 \<Rightarrow> i128 \<Rightarrow> i128 \<Rightarrow> i128 \<Rightarrow> Listing \<Rightarrow> mp_state \<Rightarrow> (bool \<times> mp_state) res" where
  "mp_book_contribution env investor invoice_id amount fee net listing s =
     andThen (safe_add (lst_funded_amount listing) amount) (\<lambda>funded_amount.
     let listing = listing\<lparr>lst_funded_amount := funded_amount\<rparr>;
         prev_contrib = unwrap_or (mp_contribution s (invoice_id, investor)) 0 in
     andThen (safe_add prev_contrib net) (\<lambda>contrib.
     let s = s\<lparr>mp_contribution := (mp_contribution s)((invoice_id, investor) \<mapsto> contrib)\<rparr>;
         fully_funded = lst_funded_amount listing \<ge> lst_asking_price listing;
         listing = (if fully_funded then listing\<lparr>lst_is_active := False\<rparr> else listing);
         s = put_listing invoice_id listing s;
         s = mp_emit (invoice_funded env invoice_id investor amount) s;
         s = (if fee > 0 then mp_emit (fee_collected env investor invoice_id fee (lst_token listing)) s
              else s)
     in Ok (fully_funded, s)))"

text \<open>The call of the financing pool that opens the pool of a listing that is fully funded.\<close>

definition mp_release ::
    "env \<Rightarrow> MarketplaceConfig \<Rightarrow> u64 \<Rightarrow> Address \<Rightarrow> 'tk mp_world \<Rightarrow> 'tk mp_world res" where
  "mp_release env config invoice_id token w =
     andThen (deployed (peer_fp w (mc_financing_pool config))) (\<lambda>pool_client.
     andThen (call (release_funds (subcall env (mc_financing_pool config)) (self env) invoice_id token
                      (pool_client, w))) (\<lambda>(pool_client, w).
     Ok (w\<lparr>peer_fp := (peer_fp w)(mc_financing_pool config \<mapsto> pool_client)\<rparr>)))"

definition fund_invoice ::
    "'tk token_api \<Rightarrow> env \<Rightarrow> Address \<Rightarrow> u64 \<Rightarrow> i128 \<Rightarrow> mp_state \<times> 'tk mp_world \<Rightarrow>
     (mp_state \<times> 'tk mp_world) res" where
  "fund_invoice T env investor invoice_id amount = (\<lambda>(s, w).
     andThen (require_auth env investor) (\<lambda>_.
     andThen (mp_require_not_paused w s) (\<lambda>_.
     andThen (require_non_zero_amount amount) (\<lambda>_.
     andThen (require_within_max_amount amount) (\<lambda>_.
     andThen (ok_or (mp_listing s invoice_id) ListingNotFound) (\<lambda>listing.
     if \<not> lst_is_active listing then Err ListingAlreadyCancelled else
     if timestamp env > lst_funding_deadline listing then Err FundingDeadlinePassed else
     andThen (safe_sub (lst_asking_price listing) (lst_funded_amount listing)) (\<lambda>remaining.
     if amount > remaining then Err ExceedsFundingTarget else
     andThen (load_config s) (\<lambda>(config, s).
     andThen (deployed (peer_nft w (mc_invoice_nft config))) (\<lambda>nft_client.
     if is_invoice_frozen nft_client invoice_id then Err InvoiceFrozen else
     let token_decimals = tk_decimals T (lst_token listing) (peer_tk w) in
     andThen (call (get_invoice nft_client invoice_id)) (\<lambda>invoice.
     let effective_fee_bps =
           unwrap_or (mp_tier_fee_bps s (tier_ordinal (inv_risk_tier invoice))) (mc_fee_bps config) in
     andThen (bps_of_normalized amount effective_fee_bps token_decimals) (\<lambda>fee.
     andThen (ok_or (checked_sub amount fee) ArithmeticOverflow) (\<lambda>net.
     andThen (mp_pay T env config (lst_token listing) investor fee net w) (\<lambda>w.
     andThen (mp_book_contribution env investor invoice_id amount fee net listing s) (\<lambda>(fully_funded, s).
     if fully_funded then
       andThen (mp_release env config invoice_id (lst_token listing) w) (\<lambda>w. Ok (s, w))
     else Ok (s, w)))))))))))))))"

section \<open>Cancellation and refunds\<close>

definition cancel_listing :: "env \<Rightarrow> Address \<Rightarrow> u64 \<Rightarrow> mp_state \<Rightarrow> mp_state res" where
  "cancel_listing env caller invoice_id s =
     andThen (require_auth env caller) (\<lambda>_.
     andThen (ok_or (mp_listing s invoice_id) ListingNotFound) (\<lambda>listing.
     if \<not> lst_is_active listing then Err ListingAlreadyCancelled else
     andThen (load_config s) (\<lambda>(config, s).
     if caller \<noteq> lst_seller listing \<and> caller \<noteq> mc_admin config then Err Unauthorized else
     let s = put_listing invoice_id (listing\<lparr>lst_is_active := False\<rparr>) s
     in Ok (mp_emit (listing_cancelled env invoice_id (lst_seller listing)) s))))"

definition request_cancellation :: "env \<Rightarrow> Address \<Rightarrow> u64 \<Rightarrow> mp_state \<Rightarrow> mp_state res" where
  "request_cancellation env caller invoice_id s =
     andThen (require_auth env caller) (\<lambda>_.
     andThen (ok_or (mp_listing s invoice_id) ListingNotFound) (\<lambda>listing.
     if \<not> lst_is_active listing then Err ListingAlreadyCancelled else
     andThen (load_config s) (\<lambda>(config, s).
     if caller \<noteq> lst_seller listing \<and> caller \<noteq> mc_admin config then Err Unauthorized else
     if lst_funded_amount listing = 0 then
       let s = put_listing invoice_id (listing\<lparr>lst_is_active := False\<rparr>) s
       in Ok (mp_emit (listing_cancelled env invoice_id (lst_seller listing)) s)
     else if mp_cancellation_request s invoice_id \<noteq> None then Err CancellationPending else
       let s = s\<lparr>mp_cancellation_request := (mp_cancellation_request s)(invoice_id \<mapsto> caller)\<rparr>
       in Ok (mp_emit (cancellation_requested env invoice_id caller) s))))"

definition admin_confirm_cancellation :: "env \<Rightarrow> Address \<Rightarrow> u64 \<Rightarrow> mp_state \<Rightarrow> mp_state res" where
  "admin_confirm_cancellation env admin invoice_id s =
     andThen (require_auth env admin) (\<lambda>_.
     andThen (mp_load_admin s admin) (\<lambda>(config, s).
     if mp_cancellation_request s invoice_id = None then Err NoCancellationPending else
     andThen (ok_or (mp_listing s invoice_id) ListingNotFound) (\<lambda>listing.
     if \<not> lst_is_active listing then Err ListingAlreadyCancelled else
     let s = put_listing invoice_id (listing\<lparr>lst_is_active := False\<rparr>) s;
         s = s\<lparr>mp_cancellation_request := (mp_cancellation_request s)(invoice_id := None),
               mp_cancellation_confirmed := (mp_cancellation_confirmed s)(invoice_id \<mapsto> True)\<rparr>
     in Ok (mp_emit (listing_cancelled env invoice_id (lst_seller listing)) s))))"

definition claim_refund ::
    "'tk token_api \<Rightarrow> env \<Rightarrow> Address \<Rightarrow> u64 \<Rightarrow> mp_state \<times> 'tk mp_world \<Rightarrow> (mp_state \<times> 'tk mp_world) res" where
  "claim_refund T env investor invoice_id = (\<lambda>(s, w).
     andThen (require_auth env investor) (\<lambda>_.
     andThen (ok_or (mp_listing s invoice_id) ListingNotFound) (\<lambda>listing.
     if lst_funded_amount listing \<ge> lst_asking_price listing then Err ListingFullyFunded else
     let cancellation_confirmed = unwrap_or (mp_cancellation_confirmed s invoice_id) False in
     if \<not> cancellation_confirmed \<and> timestamp env \<le> lst_funding_deadline listing
       then Err FundingNotExpired else
     if unwrap_or (mp_refund_claimed s (invoice_id, investor)) False then Err RefundAlreadyClaimed else
     let net_contributed = unwrap_or (mp_contribution s (invoice_id, investor)) 0 in
     if net_contributed \<le> 0 then Err NoContribution else
     let s = s\<lparr>mp_refund_claimed := (mp_refund_claimed s)((invoice_id, investor) \<mapsto> True)\<rparr> in
     andThen (load_config s) (\<lambda>(config, s).
     andThen (token_transfer T env (lst_token listing) (mc_financing_pool config) investor
                net_contributed (peer_tk w)) (\<lambda>tk.
     Ok (mp_emit (refund_claimed env invoice_id investor net_contributed) s, w\<lparr>peer_tk := tk\<rparr>))))))"

definition get_listing :: "mp_state \<Rightarrow> u64 \<Rightarrow> Listing res" where
  "get_listing s invoice_id = ok_or (mp_listing s invoice_id) ListingNotFound"

section \<open>Upgrade\<close>

definition mp_propose_upgrade :: "env \<Rightarrow> Address \<Rightarrow> BytesN32 \<Rightarrow> mp_state \<Rightarrow> mp_state res" where
  "mp_propose_upgrade env admin new_wasm_hash s =
     andThen (require_auth env admin) (\<lambda>_.
     andThen (mp_load_admin s admin) (\<lambda>(config, s).
     let s = s\<lparr>mp_upgrade_proposal := Some (new_wasm_hash, timestamp env)\<rparr>
     in Ok (mp_emit (upgrade_proposed env admin new_wasm_hash) s)))"

definition mp_execute_upgrade :: "env \<Rightarrow> Address \<Rightarrow> mp_state \<Rightarrow> mp_state res" where
  "mp_execute_upgrade env admin s =
     andThen (require_auth env admin) (\<lambda>_.
     andThen (mp_load_admin s admin) (\<lambda>(config, s).
     andThen (ok_or (mp_upgrade_proposal s) NoUpgradeProposed) (\<lambda>(wasm_hash, proposed_at).
     andThen (timelock_elapsed env proposed_at UpgradeTimelockNotElapsed) (\<lambda>_.
     let s = s\<lparr>mp_upgrade_proposal := None\<rparr>;
         s = mp_emit (upgrade_executed env admin wasm_hash) s
     in Ok (s\<lparr>mp_code := Some wasm_hash\<rparr>)))))"

section \<open>Facts on the helpers\<close>

text \<open>Loading the configuration changes nothing but the stored configuration, which is then the
  result.\<close>

lemma load_config_effect:
  "load_config s = Ok (c, s') \<Longrightarrow> s' = s\<lparr>mp_config := Some c\<rparr>"
  by (auto simp: load_config_def Let_def split: option.splits)

lemma mp_load_admin_effect:
  "mp_load_admin s a = Ok (c, s') \<Longrightarrow>
     load_config s = Ok (c, s') \<and> mc_admin c = a \<and> s' = s\<lparr>mp_config := Some c\<rparr>"
  by (auto simp: mp_load_admin_def dest: load_config_effect)

lemma mp_require_eq_Ok [simp, res_simps]:
  "mp_require_whitelisted_token s token = Ok u \<longleftrightarrow> mp_is_token_whitelisted s token"
  "mp_require_not_paused w s = Ok u \<longleftrightarrow>
     (\<forall>c. mp_access_control s = Some c \<longrightarrow> (\<exists>ac. peer_ac w c = Some ac \<and> \<not> is_paused ac))"
  by (auto simp: mp_require_whitelisted_token_def mp_is_token_whitelisted_def Let_def
      mp_require_not_paused_def split: option.splits)

lemma require_compliance_effect:
  "require_compliance_attested w sme s = Ok s' \<Longrightarrow>
     \<exists>c rr. load_config s = Ok (c, s') \<and> peer_rr w (mc_risk_registry c) = Some rr \<and> is_compliance_attested rr sme"
  by (auto simp: require_compliance_attested_def)

definition mp_admin_of :: "mp_state \<Rightarrow> Address option" where
  "mp_admin_of s = (case load_config s of Inl _ \<Rightarrow> None | Inr (c, _) \<Rightarrow> Some (mc_admin c))"

lemma mp_admin_of_config [simp]: "mp_config s = Some c \<Longrightarrow> mp_admin_of s = Some (mc_admin c)"
  by (simp add: mp_admin_of_def load_config_def)

interpretation mp_upgrade: timelocked_upgrade mp_admin_of mp_upgrade_proposal mp_code
    mp_propose_upgrade mp_execute_upgrade
proof unfold_locales
  fix env a h s s'
  assume "mp_propose_upgrade env a h s = Ok s'"
  then show "authorised env a \<and> mp_admin_of s = Some a \<and> mp_admin_of s' = Some a \<and>
      mp_upgrade_proposal s' = Some (h, timestamp env) \<and> mp_code s' = mp_code s"
    by (auto simp: mp_propose_upgrade_def Let_def dest!: mp_load_admin_effect)
      (simp add: mp_admin_of_def)
next
  fix env a s s'
  assume "mp_execute_upgrade env a s = Ok s'"
  then show "authorised env a \<and> mp_admin_of s = Some a \<and> mp_upgrade_proposal s' = None \<and>
      (\<exists>h t. mp_upgrade_proposal s = Some (h, t) \<and> t + UPGRADE_TIMELOCK_DELAY \<le> timestamp env \<and>
             mp_code s' = Some h)"
    by (auto simp: mp_execute_upgrade_def Let_def dest!: mp_load_admin_effect)
      (simp add: mp_admin_of_def)
qed

interpretation mp_guard: lock_cell mp_get_lock mp_put_lock
  by unfold_locales (auto simp: prod_eq_iff)

section \<open>What the operations change\<close>

lemma mp_list_locked_effect:
  assumes "mp_list_locked env seller k ask face token deadline ref (s, w) = Ok (s', w')"
  shows "\<exists>c n i n'. load_config s = Ok (c, s\<lparr>mp_config := Some c\<rparr>) \<and>
    peer_nft w (mc_invoice_nft c) = Some n \<and> get_invoice n k = Ok i \<and> inv_amount i = face \<and>
    set_listed (peer_ac w) (subcall env (mc_invoice_nft c)) (self env) k n = Ok n' \<and>
    w' = w\<lparr>peer_nft := (peer_nft w)(mc_invoice_nft c \<mapsto> n')\<rparr> \<and> ref \<noteq> Some seller \<and>
    s' = s\<lparr>mp_config := Some c,
      mp_referrer := (case ref of None \<Rightarrow> mp_referrer s | Some r \<Rightarrow> (mp_referrer s)(k \<mapsto> r)),
      mp_listing := (mp_listing s)(k \<mapsto> \<lparr>lst_invoice_id = k, lst_seller = seller,
        lst_asking_price = ask, lst_face_value = face, lst_token = token, lst_funded_amount = 0,
        lst_funding_deadline = deadline, lst_is_active = True\<rparr>),
      mp_events := mp_events s @ [invoice_listed env k seller ask]\<rparr>"
proof -
  from assms obtain c s1 s2 n i n' where
    *: "load_config s = Ok (c, s1)" "peer_nft w (mc_invoice_nft c) = Some n" "get_invoice n k = Ok i"
      "inv_amount i = face" "set_listed (peer_ac w) (subcall env (mc_invoice_nft c)) (self env) k n = Ok n'"
      "w' = w\<lparr>peer_nft := (peer_nft w)(mc_invoice_nft c \<mapsto> n')\<rparr>"
      "(case ref of None \<Rightarrow> Ok s1 | Some r \<Rightarrow> if r = seller then Err InvalidAddress
          else Ok (s1\<lparr>mp_referrer := (mp_referrer s1)(k \<mapsto> r)\<rparr>)) = Ok s2"
      "s' = mp_emit (invoice_listed env k seller ask) (put_listing k \<lparr>lst_invoice_id = k, lst_seller = seller,
        lst_asking_price = ask, lst_face_value = face, lst_token = token, lst_funded_amount = 0,
        lst_funding_deadline = deadline, lst_is_active = True\<rparr> s2)"
    by (auto simp: mp_list_locked_def Let_def)
  have s1: "s1 = s\<lparr>mp_config := Some c\<rparr>" using load_config_effect [OF *(1)] .
  have "s2 = s1\<lparr>mp_referrer := (case ref of None \<Rightarrow> mp_referrer s | Some r \<Rightarrow> (mp_referrer s)(k \<mapsto> r))\<rparr> \<and>
      ref \<noteq> Some seller"
    using *(7) s1 by (cases ref) auto
  with * s1 show ?thesis by (intro exI [of _ c] exI [of _ n] exI [of _ i] exI [of _ n']) simp
qed

text \<open>A successful listing; the last clause is the whole effect on the marketplace.\<close>

lemma list_invoice_effect:
  assumes "list_invoice env seller k ask face token deadline ref (s, w) = Ok (s', w')"
  shows "authorised env seller \<and> 0 < ask \<and> ask < face \<and> face \<le> MAX_AMOUNT \<and> timestamp env < deadline \<and>
    (\<forall>c. mp_access_control s = Some c \<longrightarrow> (\<exists>ac. peer_ac w c = Some ac \<and> \<not> is_paused ac)) \<and>
    mp_is_token_whitelisted s token \<and> mp_listing s k = None \<and> ref \<noteq> Some seller \<and> \<not> mp_lock s \<and>
    (\<exists>c rr n i n'. load_config s = Ok (c, s\<lparr>mp_config := Some c\<rparr>) \<and>
      peer_rr w (mc_risk_registry c) = Some rr \<and> is_compliance_attested rr seller \<and>
      peer_nft w (mc_invoice_nft c) = Some n \<and> get_invoice n k = Ok i \<and> inv_amount i = face \<and>
      set_listed (peer_ac w) (subcall env (mc_invoice_nft c)) (self env) k n = Ok n' \<and>
      w' = w\<lparr>peer_nft := (peer_nft w)(mc_invoice_nft c \<mapsto> n')\<rparr> \<and>
      s' = s\<lparr>mp_config := Some c,
        mp_referrer := (case ref of None \<Rightarrow> mp_referrer s | Some r \<Rightarrow> (mp_referrer s)(k \<mapsto> r)),
        mp_listing := (mp_listing s)(k \<mapsto> \<lparr>lst_invoice_id = k, lst_seller = seller,
          lst_asking_price = ask, lst_face_value = face, lst_token = token, lst_funded_amount = 0,
          lst_funding_deadline = deadline, lst_is_active = True\<rparr>),
        mp_events := mp_events s @ [invoice_listed env k seller ask], mp_lock := False\<rparr>)"
proof -
  from assms obtain s1 s2 where
    *: "authorised env seller" "0 < ask" "ask < face" "face \<le> MAX_AMOUNT" "timestamp env < deadline"
      "\<forall>c. mp_access_control s = Some c \<longrightarrow> (\<exists>ac. peer_ac w c = Some ac \<and> \<not> is_paused ac)"
      "mp_is_token_whitelisted s token" "require_compliance_attested w seller s = Ok s1"
      "mp_listing s1 k = None" "\<not> mp_lock s1"
      "mp_list_locked env seller k ask face token deadline ref (s1\<lparr>mp_lock := True\<rparr>, w) = Ok (s2, w')"
      "s' = s2\<lparr>mp_lock := False\<rparr>"
    by (auto simp: list_invoice_def with_guard_eq_Ok)
  from require_compliance_effect [OF *(8)] obtain c rr where
    c: "load_config s = Ok (c, s1)" "peer_rr w (mc_risk_registry c) = Some rr" "is_compliance_attested rr seller"
    by blast
  note s1 = load_config_effect [OF c(1)]
  from mp_list_locked_effect [OF *(11)] s1 show ?thesis
    using *(1-7,9,10,12) c by (auto simp: load_config_def cong: option.case_cong)
qed

text \<open>The payments change token balances and the treasury's ledger of fees, nothing else.\<close>

lemma mp_pay_effect:
  assumes "mp_pay T env c token investor fee net w = Ok w'" "0 \<le> fee"
  shows "\<exists>tk tr. w' = w\<lparr>peer_tk := tk, peer_tr := tr\<rparr> \<and>
    (if fee = 0 then tr = peer_tr w
     else \<exists>t t'. peer_tr w (mc_treasury c) = Some t \<and> tr = (peer_tr w)(mc_treasury c \<mapsto> t') \<and>
       tr_whitelisted t token = Some True \<and>
       tr_collected t' = (tr_collected t)(token \<mapsto> unwrap_or (tr_collected t token) 0 + fee))"
proof -
  from assms(1) obtain w1 tk where
    1: "(if fee > 0 then
           andThen (token_transfer T env token investor (mc_treasury c) fee (peer_tk w)) (\<lambda>tk.
           andThen (deployed (peer_tr w (mc_treasury c))) (\<lambda>treasury_client.
           andThen (call (collect_fee (subcall env (mc_treasury c)) token fee treasury_client)) (\<lambda>treasury_client.
           Ok (w\<lparr>peer_tk := tk, peer_tr := (peer_tr w)(mc_treasury c \<mapsto> treasury_client)\<rparr>))))
         else Ok w) = Ok w1" and w': "w' = w1\<lparr>peer_tk := tk\<rparr>"
    unfolding mp_pay_def by (auto split: if_splits) (metis peers.surjective peers.update_convs(5))+
  show ?thesis
  proof (cases "fee = 0")
    case True
    with 1 w' show ?thesis by (intro exI [of _ tk] exI [of _ "peer_tr w"]) simp
  next
    case False
    with 1 assms(2) obtain tk1 t t' where "peer_tr w (mc_treasury c) = Some t"
        "collect_fee (subcall env (mc_treasury c)) token fee t = Ok t'"
        "w1 = w\<lparr>peer_tk := tk1, peer_tr := (peer_tr w)(mc_treasury c \<mapsto> t')\<rparr>" by auto
    moreover from this(2) have "tr_whitelisted t token = Some True \<and>
        tr_collected t' = (tr_collected t)(token \<mapsto> unwrap_or (tr_collected t token) 0 + fee)"
      by (auto simp: collect_fee_def Let_def tr_require_whitelisted_token_def unwrap_or_def
          split: option.splits if_splits)
    ultimately show ?thesis
      using False w' by (intro exI [of _ tk] exI [of _ "(peer_tr w)(mc_treasury c \<mapsto> t')"]) auto
  qed
qed

lemma mp_pay_balance:
  assumes "sep41 T" "mp_pay T env c token investor fee net w = Ok w'" "0 \<le> fee" "0 \<le> net"
  shows "tk_balance T token' a (peer_tk w') = tk_balance T token' a (peer_tk w) +
    (if token' = token then (if a = mc_treasury c then fee else 0)
       + (if a = mc_financing_pool c then net else 0) - (if a = investor then fee + net else 0) else 0)"
proof -
  from assms(2) obtain w1 where
    1: "(if fee > 0 then
           andThen (token_transfer T env token investor (mc_treasury c) fee (peer_tk w)) (\<lambda>tk.
           andThen (deployed (peer_tr w (mc_treasury c))) (\<lambda>treasury_client.
           andThen (call (collect_fee (subcall env (mc_treasury c)) token fee treasury_client)) (\<lambda>treasury_client.
           Ok (w\<lparr>peer_tk := tk, peer_tr := (peer_tr w)(mc_treasury c \<mapsto> treasury_client)\<rparr>))))
         else Ok w) = Ok w1"
    and 2: "(if net > 0 then
       andThen (token_transfer T env token investor (mc_financing_pool c) net (peer_tk w1)) (\<lambda>tk.
       Ok (w1\<lparr>peer_tk := tk\<rparr>)) else Ok w1) = Ok w'"
    by (auto simp: mp_pay_def)
  have "tk_balance T token' a (peer_tk w1) = tk_balance T token' a (peer_tk w)
      - (if token' = token \<and> a = investor then fee else 0)
      + (if token' = token \<and> a = mc_treasury c then fee else 0)"
    using 1 assms(3) by (cases "fee = 0") (auto simp: sep41_transfer(3) [OF assms(1)])
  moreover have "tk_balance T token' a (peer_tk w') = tk_balance T token' a (peer_tk w1)
      - (if token' = token \<and> a = investor then net else 0)
      + (if token' = token \<and> a = mc_financing_pool c then net else 0)"
    using 2 assms(4) by (cases "net = 0") (auto simp: sep41_transfer(3) [OF assms(1)])
  ultimately show ?thesis by auto
qed

lemma mp_book_effect:
  assumes "mp_book_contribution env i k x fee net l s = Ok (full, s')"
  shows "\<exists>evs. full = (lst_asking_price l \<le> lst_funded_amount l + x) \<and>
    s' = s\<lparr>mp_contribution := (mp_contribution s)((k, i) \<mapsto> unwrap_or (mp_contribution s (k, i)) 0 + net),
      mp_listing := (mp_listing s)(k \<mapsto> l\<lparr>lst_funded_amount := lst_funded_amount l + x,
        lst_is_active := (lst_is_active l \<and> \<not> full)\<rparr>), mp_events := mp_events s @ evs\<rparr>"
proof -
  let ?evs = "invoice_funded env k i x #
    (if fee > 0 then [fee_collected env i k fee (lst_token l)] else [])"
  show ?thesis using assms by (intro exI [of _ ?evs]) (auto simp: mp_book_contribution_def Let_def)
qed

lemma fund_effect:
  assumes "fund_invoice T env i k x (s, w) = Ok (s', w')"
  shows "\<exists>l c n inv fee net w1 full. authorised env i \<and> 0 < x \<and> x \<le> MAX_AMOUNT \<and>
    (\<forall>c. mp_access_control s = Some c \<longrightarrow> (\<exists>ac. peer_ac w c = Some ac \<and> \<not> is_paused ac)) \<and>
    mp_listing s k = Some l \<and> lst_is_active l \<and> timestamp env \<le> lst_funding_deadline l \<and>
    x \<le> lst_asking_price l - lst_funded_amount l \<and>
    load_config s = Ok (c, s\<lparr>mp_config := Some c\<rparr>) \<and> peer_nft w (mc_invoice_nft c) = Some n \<and>
    \<not> is_invoice_frozen n k \<and> get_invoice n k = Ok inv \<and>
    bps_of_normalized x (unwrap_or (mp_tier_fee_bps s (tier_ordinal (inv_risk_tier inv))) (mc_fee_bps c))
      (tk_decimals T (lst_token l) (peer_tk w)) = Ok fee \<and> net = x - fee \<and>
    mp_pay T env c (lst_token l) i fee net w = Ok w1 \<and>
    mp_book_contribution env i k x fee net l (s\<lparr>mp_config := Some c\<rparr>) = Ok (full, s') \<and>
    (if full then mp_release env c k (lst_token l) w1 = Ok w' else w' = w1)"
proof -
  from assms obtain l c s1 n inv fee w1 full where
    *: "authorised env i" "0 < x" "x \<le> MAX_AMOUNT"
      "\<forall>c. mp_access_control s = Some c \<longrightarrow> (\<exists>ac. peer_ac w c = Some ac \<and> \<not> is_paused ac)"
      "mp_listing s k = Some l" "lst_is_active l" "timestamp env \<le> lst_funding_deadline l"
      "x \<le> lst_asking_price l - lst_funded_amount l" "load_config s = Ok (c, s1)"
      "peer_nft w (mc_invoice_nft c) = Some n" "\<not> is_invoice_frozen n k" "get_invoice n k = Ok inv"
      "bps_of_normalized x (unwrap_or (mp_tier_fee_bps s1 (tier_ordinal (inv_risk_tier inv))) (mc_fee_bps c))
        (tk_decimals T (lst_token l) (peer_tk w)) = Ok fee"
      "mp_pay T env c (lst_token l) i fee (x - fee) w = Ok w1"
      "mp_book_contribution env i k x fee (x - fee) l s1 = Ok (full, s')"
      "if full then mp_release env c k (lst_token l) w1 = Ok w' else w' = w1"
    by (auto simp: fund_invoice_def Let_def split: if_splits)
  have s1: "s1 = s\<lparr>mp_config := Some c\<rparr>" using load_config_effect [OF *(9)] .
  show ?thesis
    using * unfolding s1
    by (intro exI [of _ l] exI [of _ c] exI [of _ n] exI [of _ inv] exI [of _ fee] exI [of _ "x - fee"]
        exI [of _ w1] exI [of _ full]) simp
qed

lemma claim_refund_effect:
  assumes "claim_refund T env i k (s, w) = Ok (s', w')"
  shows "\<exists>l c x tk. authorised env i \<and> mp_listing s k = Some l \<and> lst_funded_amount l < lst_asking_price l \<and>
    (mp_cancellation_confirmed s k = Some True \<or> lst_funding_deadline l < timestamp env) \<and>
    mp_refund_claimed s (k, i) \<noteq> Some True \<and> mp_contribution s (k, i) = Some x \<and> 0 < x \<and>
    mp_config s' = Some c \<and> (\<forall>c'. mp_config s = Some c' \<longrightarrow> c' = c) \<and>
    token_transfer T env (lst_token l) (mc_financing_pool c) i x (peer_tk w) = Ok tk \<and>
    w' = w\<lparr>peer_tk := tk\<rparr> \<and>
    s' = s\<lparr>mp_refund_claimed := (mp_refund_claimed s)((k, i) \<mapsto> True), mp_config := Some c,
      mp_events := mp_events s @ [refund_claimed env k i x]\<rparr>"
proof -
  let ?s = "s\<lparr>mp_refund_claimed := (mp_refund_claimed s)((k, i) \<mapsto> True)\<rparr>"
  from assms obtain l c s1 tk x where
    *: "authorised env i" "mp_listing s k = Some l" "lst_funded_amount l < lst_asking_price l"
      "unwrap_or (mp_cancellation_confirmed s k) False \<or> lst_funding_deadline l < timestamp env"
      "\<not> unwrap_or (mp_refund_claimed s (k, i)) False" "x = unwrap_or (mp_contribution s (k, i)) 0" "0 < x"
      "load_config ?s = Ok (c, s1)"
      "token_transfer T env (lst_token l) (mc_financing_pool c) i x (peer_tk w) = Ok tk"
      "w' = w\<lparr>peer_tk := tk\<rparr>" "s' = mp_emit (refund_claimed env k i x) s1"
    by (auto simp: claim_refund_def Let_def not_le)
  have s1: "s1 = ?s\<lparr>mp_config := Some c\<rparr>" using load_config_effect [OF *(8)] .
  have "\<forall>c'. mp_config s = Some c' \<longrightarrow> c' = c" using *(8) by (auto simp: load_config_def)
  moreover have "mp_contribution s (k, i) = Some x" using *(6,7) by (cases "mp_contribution s (k, i)") auto
  moreover have "mp_cancellation_confirmed s k = Some True \<or> lst_funding_deadline l < timestamp env"
    using *(4) by (cases "mp_cancellation_confirmed s k") auto
  moreover have "mp_refund_claimed s (k, i) \<noteq> Some True" using *(5) by auto
  ultimately show ?thesis
    using *(1-3,7,9-11) by (intro exI [of _ l] exI [of _ c] exI [of _ x] exI [of _ tk]) (simp add: s1)
qed

section \<open>Entry points as steps\<close>

text \<open>A call of an entry point. A step is such a call, or the other contracts and the tokens change in
  any way. Ledger time does not decrease along a run.\<close>

inductive mp_entry ::
    "'tk token_api \<Rightarrow> env \<Rightarrow> mp_state \<times> 'tk mp_world \<Rightarrow> mp_state \<times> 'tk mp_world \<Rightarrow> bool"
  for T :: "'tk token_api" and env :: env where
  mp_init: "mp_initialize a b c d e f n s = Ok s' \<Longrightarrow> mp_entry T env (s, w) (s', w)"
| mp_split: "set_referrer_split_bps env a n s = Ok s' \<Longrightarrow> mp_entry T env (s, w) (s', w)"
| mp_fee: "update_fee_bps env a n s = Ok s' \<Longrightarrow> mp_entry T env (s, w) (s', w)"
| mp_tier: "set_tier_fee_bps env a tier n s = Ok s' \<Longrightarrow> mp_entry T env (s, w) (s', w)"
| mp_load: "load_config s = Ok (conf, s') \<Longrightarrow> mp_entry T env (s, w) (s', w)"
| mp_white: "mp_whitelist_token env a token s = Ok s' \<Longrightarrow> mp_entry T env (s, w) (s', w)"
| mp_unwhite: "remove_token_whitelist env a token s = Ok s' \<Longrightarrow> mp_entry T env (s, w) (s', w)"
| mp_list: "list_invoice env a k x y token deadline r (s, w) = Ok (s', w') \<Longrightarrow> mp_entry T env (s, w) (s', w')"
| mp_fund: "fund_invoice T env a k x (s, w) = Ok (s', w') \<Longrightarrow> mp_entry T env (s, w) (s', w')"
| mp_cancel: "cancel_listing env a k s = Ok s' \<Longrightarrow> mp_entry T env (s, w) (s', w)"
| mp_request: "request_cancellation env a k s = Ok s' \<Longrightarrow> mp_entry T env (s, w) (s', w)"
| mp_confirm: "admin_confirm_cancellation env a k s = Ok s' \<Longrightarrow> mp_entry T env (s, w) (s', w)"
| mp_refund: "claim_refund T env a k (s, w) = Ok (s', w') \<Longrightarrow> mp_entry T env (s, w) (s', w')"
| mp_propose: "mp_propose_upgrade env a h s = Ok s' \<Longrightarrow> mp_entry T env (s, w) (s', w)"
| mp_execute: "mp_execute_upgrade env a s = Ok s' \<Longrightarrow> mp_entry T env (s, w) (s', w)"

inductive mp_step ::
    "'tk token_api \<Rightarrow> env \<Rightarrow> mp_state \<times> 'tk mp_world \<Rightarrow> mp_state \<times> 'tk mp_world \<Rightarrow> bool"
  for T :: "'tk token_api" and env :: env where
  mp_call: "mp_entry T env x y \<Longrightarrow> mp_step T env x y"
| mp_other: "mp_step T env (s, w) (s, w')"

inductive mp_run ::
    "'tk token_api \<Rightarrow> u64 \<Rightarrow> mp_state \<times> 'tk mp_world \<Rightarrow> u64 \<Rightarrow> mp_state \<times> 'tk mp_world \<Rightarrow> bool"
  for T :: "'tk token_api" where
  mp_here: "mp_run T t x t x"
| mp_more: "mp_run T t x u y \<Longrightarrow> u \<le> timestamp env \<Longrightarrow> mp_step T env y z \<Longrightarrow> mp_run T t x (timestamp env) z"

section \<open>Invariants\<close>

text \<open>The net contributions to a listing, by investor.\<close>

definition backers :: "mp_state \<Rightarrow> u64 \<Rightarrow> (Address \<rightharpoonup> i128)" where
  "backers s k = (\<lambda>i. mp_contribution s (k, i))"

definition listing_ok :: "u64 \<Rightarrow> Listing \<Rightarrow> bool" where
  "listing_ok k l \<longleftrightarrow> lst_invoice_id l = k \<and> 0 \<le> lst_funded_amount l \<and>
     lst_funded_amount l \<le> lst_asking_price l \<and> lst_asking_price l < lst_face_value l \<and>
     lst_face_value l \<le> MAX_AMOUNT \<and> (lst_is_active l \<longrightarrow> lst_funded_amount l < lst_asking_price l)"

definition backers_ok :: "mp_state \<Rightarrow> bool" where
  "backers_ok s \<longleftrightarrow> (\<forall>k. finite (dom (backers s k)) \<and> (\<forall>i x. backers s k i = Some x \<longrightarrow> 0 \<le> x) \<and>
     map_total (backers s k) \<le> (case mp_listing s k of None \<Rightarrow> 0 | Some l \<Rightarrow> lst_funded_amount l))"

text \<open>Fee rates are at most 100 percent, in the configuration, its legacy key and the overrides.\<close>

definition rates_ok :: "mp_state \<Rightarrow> bool" where
  "rates_ok s \<longleftrightarrow> (\<forall>c. mp_config s = Some c \<longrightarrow> mc_fee_bps c \<le> 10000) \<and>
     (\<forall>n. mp_fee_bps s = Some n \<longrightarrow> n \<le> 10000) \<and> (\<forall>r n. mp_tier_fee_bps s r = Some n \<longrightarrow> n \<le> 10000)"

text \<open>Where a refund may be or was claimed, no investor can fund the listing any more.\<close>

definition refunds_ok :: "u64 \<Rightarrow> mp_state \<Rightarrow> bool" where
  "refunds_ok t s \<longleftrightarrow>
     (\<forall>k. mp_cancellation_confirmed s k = Some True \<longrightarrow> (\<exists>l. mp_listing s k = Some l \<and> \<not> lst_is_active l)) \<and>
     (\<forall>k i. mp_refund_claimed s (k, i) = Some True \<longrightarrow> (\<exists>l. mp_listing s k = Some l \<and>
        lst_funded_amount l < lst_asking_price l \<and> (\<not> lst_is_active l \<or> lst_funding_deadline l < t)))"

definition mp_inv :: "u64 \<Rightarrow> mp_state \<Rightarrow> bool" where
  "mp_inv t s \<longleftrightarrow> \<not> mp_lock s \<and> (\<forall>k l. mp_listing s k = Some l \<longrightarrow> listing_ok k l) \<and>
     backers_ok s \<and> rates_ok s \<and> refunds_ok t s"

lemmas mp_inv_defs = mp_inv_def backers_ok_def backers_def rates_ok_def refunds_ok_def

lemma mp_empty_inv: "mp_inv t mp_empty"
  by (simp add: mp_inv_defs mp_empty_def)

lemma mp_inv_later: "mp_inv t s \<Longrightarrow> t \<le> u \<Longrightarrow> mp_inv u s"
  by (fastforce simp: mp_inv_def refunds_ok_def)

lemma mp_inv_frame [simp]:
  "mp_inv t (s\<lparr>mp_events := x1\<rparr>) = mp_inv t s"
  "mp_inv t (s\<lparr>mp_referrer := x2\<rparr>) = mp_inv t s"
  "mp_inv t (s\<lparr>mp_whitelisted := x3\<rparr>) = mp_inv t s"
  "mp_inv t (s\<lparr>mp_upgrade_proposal := x4\<rparr>) = mp_inv t s"
  "mp_inv t (s\<lparr>mp_code := x5\<rparr>) = mp_inv t s"
  "mp_inv t (s\<lparr>mp_cancellation_request := x6\<rparr>) = mp_inv t s"
  by (simp_all add: mp_inv_defs)

lemma mp_inv_config: "mp_inv t s \<Longrightarrow> mc_fee_bps c \<le> 10000 \<Longrightarrow> mp_inv t (s\<lparr>mp_config := Some c\<rparr>)"
  by (simp add: mp_inv_defs)

lemma load_config_rate: "load_config s = Ok (c, s') \<Longrightarrow> mp_inv t s \<Longrightarrow> mc_fee_bps c \<le> 10000"
  by (auto simp: load_config_def Let_def mp_inv_def rates_ok_def split: option.splits)

lemma load_config_inv: "load_config s = Ok (c, s') \<Longrightarrow> mp_inv t s \<Longrightarrow> mp_inv t s' \<and> mc_fee_bps c \<le> 10000"
  using load_config_effect [of s c s'] load_config_rate [of s c s' t] mp_inv_config by auto

lemma mp_load_admin_inv: "mp_load_admin s a = Ok (c, s') \<Longrightarrow> mp_inv t s \<Longrightarrow> mp_inv t s' \<and> mc_fee_bps c \<le> 10000"
  using mp_load_admin_effect [of s a c s'] load_config_inv [of s c s' t] by auto

text \<open>Deactivating a listing.\<close>

lemma mp_inv_deactivate:
  assumes "mp_inv t s" "mp_listing s k = Some l"
  shows "mp_inv t (put_listing k (l\<lparr>lst_is_active := False\<rparr>) s)"
  using assms by (auto simp: mp_inv_defs listing_ok_def split: if_splits) (metis option.simps(5))+

text \<open>Changes of one component of the state.\<close>

lemma backers_ok_None:
  assumes "backers_ok s" "mp_listing s k = None" "0 \<le> lst_funded_amount l"
  shows "map_total (backers s k) \<le> lst_funded_amount l"
  using assms(2,3) order_trans [OF _ assms(3)] assms(1) [unfolded backers_ok_def, rule_format, of k] by simp

lemma mp_inv_new_listing:
  assumes "mp_inv t s" "mp_listing s k = None" "listing_ok k l" "lst_is_active l"
  shows "mp_inv t (put_listing k l s)"
proof -
  have b: "backers (put_listing k l s) = backers s" by (simp add: backers_def fun_eq_iff)
  have "backers_ok (put_listing k l s)"
    using assms(1-3) backers_ok_None [of s k l] unfolding backers_ok_def b
    by (auto simp: mp_inv_def backers_ok_def listing_ok_def)
  moreover have "refunds_ok t (put_listing k l s)"
    using assms(1,2) by (fastforce simp: mp_inv_def refunds_ok_def)
  ultimately show ?thesis using assms by (simp add: mp_inv_def rates_ok_def)
qed

lemma list_invoice_inv:
  assumes "list_invoice env a k x y token deadline r (s, w) = Ok (s', w')" "mp_inv t s"
  shows "mp_inv t s'"
proof -
  let ?l = "\<lparr>lst_invoice_id = k, lst_seller = a, lst_asking_price = x, lst_face_value = y,
    lst_token = token, lst_funded_amount = 0, lst_funding_deadline = deadline, lst_is_active = True\<rparr>"
  from list_invoice_effect [OF assms(1)] obtain c ref where
    *: "load_config s = Ok (c, s\<lparr>mp_config := Some c\<rparr>)" "mp_listing s k = None" "0 < x" "x < y" "y \<le> MAX_AMOUNT"
      "\<not> mp_lock s" "s' = s\<lparr>mp_config := Some c, mp_referrer := ref, mp_listing := (mp_listing s)(k \<mapsto> ?l),
         mp_events := mp_events s @ [invoice_listed env k a x], mp_lock := False\<rparr>"
    by blast
  have "mp_inv t (put_listing k ?l (s\<lparr>mp_config := Some c\<rparr>))"
    using load_config_inv [OF *(1) assms(2)] *(2-5)
    by (intro mp_inv_new_listing) (auto simp: listing_ok_def)
  moreover have "s' = (put_listing k ?l (s\<lparr>mp_config := Some c\<rparr>))\<lparr>mp_referrer := ref,
      mp_events := mp_events s @ [invoice_listed env k a x]\<rparr>"
    using *(6,7) by simp
  ultimately show ?thesis by simp
qed

lemma backers_upd:
  "backers (s\<lparr>mp_contribution := (mp_contribution s)((k, i) \<mapsto> x)\<rparr>) j =
     (if j = k then (backers s k)(i \<mapsto> x) else backers s j)"
  by (auto simp: backers_def fun_eq_iff)

lemma mp_inv_contribute:
  assumes "mp_inv t s" "mp_listing s k = Some l" "lst_is_active l" "t \<le> lst_funding_deadline l"
    "0 \<le> net" "net \<le> x" "0 < x" "x \<le> lst_asking_price l - lst_funded_amount l"
    "full = (lst_asking_price l \<le> lst_funded_amount l + x)"
  shows "mp_inv t (s\<lparr>mp_contribution := (mp_contribution s)((k, i) \<mapsto> unwrap_or (mp_contribution s (k, i)) 0 + net),
      mp_listing := (mp_listing s)(k \<mapsto> l\<lparr>lst_funded_amount := lst_funded_amount l + x,
        lst_is_active := (lst_is_active l \<and> \<not> full)\<rparr>)\<rparr>)" (is "mp_inv t ?s")
proof -
  have ok: "listing_ok k l" "backers_ok s" using assms(1,2) by (simp_all add: mp_inv_def)
  have "\<forall>j m. mp_listing ?s j = Some m \<longrightarrow> listing_ok j m"
    using assms ok(1) by (auto simp: mp_inv_def listing_ok_def)
  moreover have "backers_ok ?s"
    unfolding backers_ok_def
  proof (intro allI)
    fix j
    let ?b = "backers s k"
    have b: "backers ?s j = (if j = k then ?b(i \<mapsto> unwrap_or (?b i) 0 + net) else backers s j)"
      using backers_upd [of s k i "unwrap_or (?b i) 0 + net" j] by (simp add: backers_def)
    have "finite (dom ?b)" "map_total ?b \<le> lst_funded_amount l" "\<forall>i x. ?b i = Some x \<longrightarrow> 0 \<le> x"
      using ok(2) assms(2) unfolding backers_ok_def by (metis option.simps(5))+
    moreover from this(3) assms(5) have "0 \<le> unwrap_or (?b i) 0 + net" by (cases "?b i") auto
    ultimately show "finite (dom (backers ?s j)) \<and> (\<forall>i x. backers ?s j i = Some x \<longrightarrow> 0 \<le> x) \<and>
        map_total (backers ?s j) \<le> (case mp_listing ?s j of None \<Rightarrow> 0 | Some l \<Rightarrow> lst_funded_amount l)"
      using ok(2) assms(6) unfolding b by (auto simp: map_total_upd backers_ok_def split: if_splits)
  qed
  moreover have "refunds_ok t ?s"
    using assms(1-4) unfolding mp_inv_def refunds_ok_def by fastforce
  ultimately show ?thesis using assms(1) by (simp add: mp_inv_def rates_ok_def)
qed

text \<open>The fee of a contribution is between nothing and the whole of it.\<close>

lemma fee_bounds:
  assumes "mp_inv t s" "load_config s = Ok (c, s1)" "0 < x"
    "bps_of_normalized x (unwrap_or (mp_tier_fee_bps s r) (mc_fee_bps c)) d = Ok fee"
  shows "0 \<le> fee \<and> fee \<le> x \<and>
    unwrap_or (mp_tier_fee_bps s r) (mc_fee_bps c) \<le> 10000 \<and>
    fee = scaled_share x (unwrap_or (mp_tier_fee_bps s r) (mc_fee_bps c)) d"
proof -
  have "unwrap_or (mp_tier_fee_bps s r) (mc_fee_bps c) \<le> 10000"
    using assms(1) load_config_rate [OF assms(2,1)]
    by (cases "mp_tier_fee_bps s r") (auto simp: mp_inv_def rates_ok_def)
  with bps_of_normalized_bounds [OF assms(4) this] bps_of_normalized_Ok [OF assms(4)] show ?thesis by simp
qed

lemma fund_inv:
  assumes "fund_invoice T env i k x (s, w) = Ok (s', w')" "mp_inv t s" "t \<le> timestamp env"
  shows "mp_inv t s'"
proof -
  from fund_effect [OF assms(1)] obtain l :: Listing and c and inv :: Invoice and fee net full where
    *: "0 < x" "mp_listing s k = Some l" "lst_is_active l" "timestamp env \<le> lst_funding_deadline l"
      "x \<le> lst_asking_price l - lst_funded_amount l" "load_config s = Ok (c, s\<lparr>mp_config := Some c\<rparr>)"
      "bps_of_normalized x (unwrap_or (mp_tier_fee_bps s (tier_ordinal (inv_risk_tier inv))) (mc_fee_bps c))
        (tk_decimals T (lst_token l) (peer_tk w)) = Ok fee" "net = x - fee"
      "mp_book_contribution env i k x fee net l (s\<lparr>mp_config := Some c\<rparr>) = Ok (full, s')"
    by blast
  note fee = fee_bounds [OF assms(2) *(6,1,7)] and inv = conjunct1 [OF load_config_inv [OF *(6) assms(2)]]
  from mp_book_effect [OF *(9)] obtain evs where
    full: "full = (lst_asking_price l \<le> lst_funded_amount l + x)"
    and s': "s' = s\<lparr>mp_config := Some c,
      mp_contribution := (mp_contribution s)((k, i) \<mapsto> unwrap_or (mp_contribution s (k, i)) 0 + net),
      mp_listing := (mp_listing s)(k \<mapsto> l\<lparr>lst_funded_amount := lst_funded_amount l + x,
        lst_is_active := (lst_is_active l \<and> \<not> full)\<rparr>), mp_events := mp_events s @ evs\<rparr>"
    by auto
  have "t \<le> lst_funding_deadline l" using *(4) assms(3) by simp
  from mp_inv_contribute [OF inv _ *(3) this _ _ *(1,5) full, where net = net and i = i] * fee
  show ?thesis by (simp add: s')
qed

lemma claim_refund_inv:
  assumes "claim_refund T env i k (s, w) = Ok (s', w')" "mp_inv (timestamp env) s"
  shows "mp_inv (timestamp env) s'"
proof -
  from claim_refund_effect [OF assms(1)] obtain l c x where
    *: "mp_listing s k = Some l" "lst_funded_amount l < lst_asking_price l"
      "mp_cancellation_confirmed s k = Some True \<or> lst_funding_deadline l < timestamp env"
      "s' = s\<lparr>mp_refund_claimed := (mp_refund_claimed s)((k, i) \<mapsto> True), mp_config := Some c,
         mp_events := mp_events s @ [refund_claimed env k i x]\<rparr>"
    by blast
  let ?s = "s\<lparr>mp_refund_claimed := (mp_refund_claimed s)((k, i) \<mapsto> True)\<rparr>"
  have "refunds_ok (timestamp env) ?s"
    using assms(2) *(1-3) by (auto simp: mp_inv_def refunds_ok_def)
  then have inv: "mp_inv (timestamp env) ?s"
    using assms(2) by (simp add: mp_inv_def backers_ok_def backers_def rates_ok_def)
  from assms(1) obtain c' s1 where ld: "load_config ?s = Ok (c', s1)" and c': "mp_config s1 = mp_config s'"
    by (auto simp: claim_refund_def Let_def)
  have "c' = c" using load_config_effect [OF ld] c' *(4) by simp
  with load_config_inv [OF ld inv] load_config_effect [OF ld] show ?thesis by (simp add: *(4))
qed

text \<open>The three ways of cancelling.\<close>

lemma cancel_listing_effect:
  assumes "cancel_listing env a k s = Ok s'"
  shows "\<exists>l c. authorised env a \<and> mp_listing s k = Some l \<and> lst_is_active l \<and>
    load_config s = Ok (c, s\<lparr>mp_config := Some c\<rparr>) \<and> (a = lst_seller l \<or> a = mc_admin c) \<and>
    s' = mp_emit (listing_cancelled env k (lst_seller l))
      (put_listing k (l\<lparr>lst_is_active := False\<rparr>) (s\<lparr>mp_config := Some c\<rparr>))"
proof -
  from assms obtain l c s1 where
    *: "authorised env a" "mp_listing s k = Some l" "lst_is_active l" "load_config s = Ok (c, s1)"
      "a = lst_seller l \<or> a = mc_admin c"
      "s' = mp_emit (listing_cancelled env k (lst_seller l)) (put_listing k (l\<lparr>lst_is_active := False\<rparr>) s1)"
    by (auto simp: cancel_listing_def Let_def)
  with load_config_effect [OF *(4)] show ?thesis by (intro exI [of _ l] exI [of _ c]) simp
qed

lemma request_cancellation_effect:
  assumes "request_cancellation env a k s = Ok s'"
  shows "\<exists>l c. authorised env a \<and> mp_listing s k = Some l \<and> lst_is_active l \<and>
    load_config s = Ok (c, s\<lparr>mp_config := Some c\<rparr>) \<and> (a = lst_seller l \<or> a = mc_admin c) \<and>
    s' = (if lst_funded_amount l = 0
      then mp_emit (listing_cancelled env k (lst_seller l))
        (put_listing k (l\<lparr>lst_is_active := False\<rparr>) (s\<lparr>mp_config := Some c\<rparr>))
      else mp_emit (cancellation_requested env k a) (s\<lparr>mp_config := Some c,
        mp_cancellation_request := (mp_cancellation_request s)(k \<mapsto> a)\<rparr>)) \<and>
    (lst_funded_amount l = 0 \<or> mp_cancellation_request s k = None)"
proof -
  from assms obtain l c s1 where
    *: "authorised env a" "mp_listing s k = Some l" "lst_is_active l" "load_config s = Ok (c, s1)"
      "a = lst_seller l \<or> a = mc_admin c"
    by (auto simp: request_cancellation_def Let_def)
  then have 2: "(if lst_funded_amount l = 0
        then Ok (mp_emit (listing_cancelled env k (lst_seller l)) (put_listing k (l\<lparr>lst_is_active := False\<rparr>) s1))
        else if mp_cancellation_request s1 k \<noteq> None then Err CancellationPending
        else Ok (mp_emit (cancellation_requested env k a)
          (s1\<lparr>mp_cancellation_request := (mp_cancellation_request s1)(k \<mapsto> a)\<rparr>))) = Ok s'"
    using assms by (simp add: request_cancellation_def Let_def split: if_splits)
  have s1: "s1 = s\<lparr>mp_config := Some c\<rparr>" using load_config_effect [OF *(4)] .
  show ?thesis
    using * 2 unfolding s1
    by (intro exI [of _ l] exI [of _ c]) (auto split: if_splits)
qed

lemma admin_confirm_effect:
  assumes "admin_confirm_cancellation env a k s = Ok s'"
  shows "\<exists>l c. authorised env a \<and> mp_listing s k = Some l \<and> lst_is_active l \<and>
    load_config s = Ok (c, s\<lparr>mp_config := Some c\<rparr>) \<and> a = mc_admin c \<and> mp_cancellation_request s k \<noteq> None \<and>
    s' = s\<lparr>mp_config := Some c, mp_listing := (mp_listing s)(k \<mapsto> l\<lparr>lst_is_active := False\<rparr>),
      mp_cancellation_request := (mp_cancellation_request s)(k := None),
      mp_cancellation_confirmed := (mp_cancellation_confirmed s)(k \<mapsto> True),
      mp_events := mp_events s @ [listing_cancelled env k (lst_seller l)]\<rparr>"
  using assms by (auto simp: admin_confirm_cancellation_def Let_def dest!: mp_load_admin_effect)

lemma cancel_inv:
  assumes "cancel_listing env a k s = Ok s'" "mp_inv t s"
  shows "mp_inv t s'"
proof -
  from cancel_listing_effect [OF assms(1)] obtain l c where
    *: "mp_listing s k = Some l" "load_config s = Ok (c, s\<lparr>mp_config := Some c\<rparr>)"
      "s' = mp_emit (listing_cancelled env k (lst_seller l))
        (put_listing k (l\<lparr>lst_is_active := False\<rparr>) (s\<lparr>mp_config := Some c\<rparr>))" by blast
  from mp_inv_deactivate [OF conjunct1 [OF load_config_inv [OF *(2) assms(2)]], of k l] * show ?thesis by simp
qed

lemma request_inv:
  assumes "request_cancellation env a k s = Ok s'" "mp_inv t s"
  shows "mp_inv t s'"
proof -
  from request_cancellation_effect [OF assms(1)] obtain l c where
    *: "mp_listing s k = Some l" "load_config s = Ok (c, s\<lparr>mp_config := Some c\<rparr>)"
      "s' = (if lst_funded_amount l = 0
        then mp_emit (listing_cancelled env k (lst_seller l))
          (put_listing k (l\<lparr>lst_is_active := False\<rparr>) (s\<lparr>mp_config := Some c\<rparr>))
        else mp_emit (cancellation_requested env k a) (s\<lparr>mp_config := Some c,
          mp_cancellation_request := (mp_cancellation_request s)(k \<mapsto> a)\<rparr>))" by blast
  note inv = conjunct1 [OF load_config_inv [OF *(2) assms(2)]]
  from mp_inv_deactivate [OF inv, of k l] inv * show ?thesis by simp
qed

lemma confirm_inv:
  assumes "admin_confirm_cancellation env a k s = Ok s'" "mp_inv t s"
  shows "mp_inv t s'"
proof -
  from admin_confirm_effect [OF assms(1)] obtain l c where
    *: "mp_listing s k = Some l" "load_config s = Ok (c, s\<lparr>mp_config := Some c\<rparr>)"
      "s' = s\<lparr>mp_config := Some c, mp_listing := (mp_listing s)(k \<mapsto> l\<lparr>lst_is_active := False\<rparr>),
        mp_cancellation_request := (mp_cancellation_request s)(k := None),
        mp_cancellation_confirmed := (mp_cancellation_confirmed s)(k \<mapsto> True),
        mp_events := mp_events s @ [listing_cancelled env k (lst_seller l)]\<rparr>" by blast
  let ?s = "put_listing k (l\<lparr>lst_is_active := False\<rparr>) (s\<lparr>mp_config := Some c\<rparr>)"
  have "mp_inv t ?s"
    using mp_inv_deactivate [OF conjunct1 [OF load_config_inv [OF *(2) assms(2)]], of k l] *(1) by simp
  then have "mp_inv t (?s\<lparr>mp_cancellation_request := (mp_cancellation_request s)(k := None)\<rparr>)"
    by (simp only: mp_inv_frame)
  then show ?thesis
    unfolding *(3) by (auto simp: mp_inv_def rates_ok_def refunds_ok_def backers_ok_def backers_def)
qed

lemma mp_entry_inv: "mp_entry T env x y \<Longrightarrow> mp_inv (timestamp env) (fst x) \<Longrightarrow> mp_inv (timestamp env) (fst y)"
proof (induction rule: mp_entry.induct)
  case (mp_init a b c d e f n s s' w)
  then show ?case
    by (auto simp: mp_initialize_def Let_def mp_inv_def rates_ok_def backers_ok_def backers_def)
      (simp add: refunds_ok_def)
next
  case (mp_tier a tier n s s' w)
  then show ?case
    by (auto simp: set_tier_fee_bps_def dest!: mp_load_admin_inv) (auto simp: mp_inv_defs)
qed (auto simp: set_referrer_split_bps_def update_fee_bps_def mp_set_fee_bps_def mp_whitelist_token_def
    remove_token_whitelist_def mp_propose_upgrade_def mp_execute_upgrade_def Let_def
    intro!: mp_inv_config intro: list_invoice_inv fund_inv claim_refund_inv cancel_inv request_inv confirm_inv
    dest: load_config_inv dest!: mp_load_admin_inv)

lemma mp_step_inv: "mp_step T env x y \<Longrightarrow> mp_inv (timestamp env) (fst x) \<Longrightarrow> mp_inv (timestamp env) (fst y)"
  by (auto elim: mp_step.cases dest: mp_entry_inv)

lemma mp_run_inv: "mp_run T t x u y \<Longrightarrow> mp_inv t (fst x) \<Longrightarrow> mp_inv u (fst y)"
  by (induction rule: mp_run.induct) (auto intro: mp_step_inv mp_inv_later)

end
