(* ===== verification/Pause_Switch.thy ===== *)
theory Pause_Switch
  imports Marketplace
begin

text \<open>
  The pause switch across contracts. The access control contract holds the flag
  (\<^verbatim>\<open>pause\<close>, \<^verbatim>\<open>unpause\<close> and \<^verbatim>\<open>is_paused\<close> of \<^verbatim>\<open>contracts/access_control/src/lib.rs\<close>); the invoice contract,
  the financing pool and the marketplace read it in their \<^verbatim>\<open>require_not_paused\<close>. The locale
  \<open>pause_guard\<close> is the contract between the two sides; it is interpreted on the three guards. The
  properties say what a pause stops and what it leaves alone, the matrix that
  \<^verbatim>\<open>docs/SECURITY.md\<close> tabulates.
\<close>

section \<open>The interface\<close>

text \<open>\<open>addr\<close> is the address of the access control contract that a contract stores, \<open>acs\<close> the access
  control contracts of its world, \<open>guard\<close> its check.\<close>

locale pause_guard =
  fixes addr :: "'s \<Rightarrow> Address option"
    and acs :: "'w \<Rightarrow> Address \<rightharpoonup> ac_state"
    and guard :: "'w \<Rightarrow> 's \<Rightarrow> unit res"
  assumes guard_asks: "addr s = Some a \<Longrightarrow> acs w a = Some ac \<Longrightarrow>
    guard w s = (if is_paused ac then Err ProtocolPaused else Ok ())"
begin

definition knows :: "'w \<Rightarrow> 's \<Rightarrow> ac_state \<Rightarrow> bool" where
  "knows w s ac \<longleftrightarrow> (\<exists>a. addr s = Some a \<and> acs w a = Some ac)"

lemma knowsI: "addr s = Some a \<Longrightarrow> acs w a = Some ac \<Longrightarrow> knows w s ac"
  by (auto simp: knows_def)

lemma stops: "knows w s ac \<Longrightarrow> is_paused ac \<Longrightarrow> guard w s = Err ProtocolPaused"
  by (auto simp: knows_def guard_asks)

lemma lets_through: "knows w s ac \<Longrightarrow> \<not> is_paused ac \<Longrightarrow> guard w s = Ok ()"
  by (auto simp: knows_def guard_asks)

lemma pause_closes: "knows w s ac' \<Longrightarrow> pause env a ac = Ok ac' \<Longrightarrow> guard w s = Err ProtocolPaused"
  by (rule stops) (auto simp: pause_def Let_def with_guard_eq_Ok ac_append_eq_Ok is_paused_def)

lemma unpause_opens: "knows w s ac' \<Longrightarrow> unpause env a ac = Ok ac' \<Longrightarrow> guard w s = Ok ()"
  by (rule lets_through) (auto simp: unpause_def Let_def with_guard_eq_Ok ac_append_eq_Ok is_paused_def)

end

interpretation nft_pause: pause_guard nft_access_control "\<lambda>acs. acs" nft_require_not_paused
  by unfold_locales (simp add: nft_require_not_paused_def)

interpretation fp_pause: pause_guard fp_access_control peer_ac fp_require_not_paused
  by unfold_locales (simp add: fp_require_not_paused_def)

interpretation mp_pause: pause_guard mp_access_control peer_ac mp_require_not_paused
  by unfold_locales (simp add: mp_require_not_paused_def)

lemmas pause_stops = nft_pause.stops fp_pause.stops mp_pause.stops

section \<open>What a pause stops\<close>

lemma pause_stops_invoices:
  assumes "nft_pause.knows acs n ac" "is_paused ac" "authorised env a"
  shows "mint_invoice acs rrs env a h x c d cid r notes n = Err ProtocolPaused"
    "amend_invoice acs env a k h x d cid r n = Err ProtocolPaused"
    "withdraw_invoice acs env a k n = Err ProtocolPaused"
    "commit_metadata_hash acs env a k h n = Err ProtocolPaused"
    "nft_marketplace n = Some a \<Longrightarrow> set_listed acs env a k n = Err ProtocolPaused"
    "nft_financing_pool n = Some a \<Longrightarrow> set_funded acs env a k n = Err ProtocolPaused"
    "nft_financing_pool n = Some a \<Longrightarrow> set_repaid acs env a k n = Err ProtocolPaused"
  using assms pause_stops(1) [OF assms(1,2)]
  by (simp_all add: mint_invoice_def amend_invoice_def withdraw_invoice_def commit_metadata_hash_def
      set_listed_def set_funded_def set_repaid_def require_auth_def nft_require_authorized_caller.simps)

lemma pause_stops_pools:
  assumes "fp_pause.knows w s ac" "is_paused ac" "authorised env a"
  shows "release_funds env a k token (s, w) = Err ProtocolPaused"
    "propose_early_settlement T env a k x (s, w) = Err ProtocolPaused"
    "accept_early_settlement T env a k (s, w) = Err ProtocolPaused"
    "list_position_for_sale env w a k token x s = Err ProtocolPaused"
    "buy_position T env a k b (s, w) = Err ProtocolPaused"
    "fp_admin s = Some a \<Longrightarrow> record_position env w a k b x y s = Err ProtocolPaused"
    "fp_admin s = Some a \<Longrightarrow> mark_default T env a k token (s, w) = Err ProtocolPaused"
  using assms pause_stops(2) [OF assms(1,2)]
  by (simp_all add: release_funds_def propose_early_settlement_def accept_early_settlement_def
      list_position_for_sale_def buy_position_def record_position_def mark_default_def fp_require_admin_def
      require_auth_def)

lemma pause_stops_market:
  assumes "mp_pause.knows w s ac" "is_paused ac" "authorised env a"
  shows "list_invoice env a k x y token d ref (s, w) = Err ProtocolPaused"
    "fund_invoice T env a k x (s, w) = Err ProtocolPaused"
  using assms pause_stops(3) [OF assms(1,2)]
  by (simp_all add: list_invoice_def fund_invoice_def require_auth_def)

section \<open>What a pause leaves alone\<close>

text \<open>The same outcome in a world with other access control contracts.\<close>

definition under_access ::
    "(Address \<rightharpoonup> ac_state) \<Rightarrow> ('s \<times> ('tk, 'z) peers_scheme) res \<Rightarrow> ('s \<times> ('tk, 'z) peers_scheme) res" where
  "under_access acs = map_sum id (\<lambda>(s, w). (s, w\<lparr>peer_ac := acs\<rparr>))"

lemma under_access_simps [simp]:
  "under_access acs (Inl f) = Inl f"
  "under_access acs (Ok (s, w)) = Ok (s, w\<lparr>peer_ac := acs\<rparr>)"
  "under_access acs (andThen m k) = andThen m (\<lambda>x. under_access acs (k x))"
  "under_access acs (if b then r else r') = (if b then under_access acs r else under_access acs r')"
  by (simp_all add: under_access_def andThen_def split: sum.splits)

lemma andThen_under_access:
  "andThen (under_access acs m) k = andThen m (\<lambda>x. k (fst x, snd x\<lparr>peer_ac := acs\<rparr>))"
  by (cases m) (auto simp: under_access_def)

lemma access_after_transfer [simp]: "w\<lparr>peer_ac := acs, peer_tk := tk\<rparr> = w\<lparr>peer_tk := tk, peer_ac := acs\<rparr>"
  by simp

lemma reads_ignore_access [simp]:
  "fp_load_invoice (w\<lparr>peer_ac := acs\<rparr>) s k = fp_load_invoice w s k"
  "convert_if_needed env (w\<lparr>peer_ac := acs\<rparr>) s x c t = convert_if_needed env w s x c t"
  by (simp_all add: fp_load_invoice_def convert_if_needed_def Let_def split: option.split)

lemma cancel_early_settlement_access:
  "cancel_early_settlement T env a k (s, w\<lparr>peer_ac := acs\<rparr>) =
     under_access acs (cancel_early_settlement T env a k (s, w))"
  by (simp add: cancel_early_settlement_def Let_def cong: if_cong)

lemma claim_refund_access:
  "claim_refund T env a k (s, w\<lparr>peer_ac := acs\<rparr>) = under_access acs (claim_refund T env a k (s, w))"
  by (simp add: claim_refund_def Let_def split_def cong: if_cong)

lemma commit_repayment_access:
  assumes "pool_repaid_amount p + eff < pool_total_owed p"
  shows "commit_repayment T env a k token x p eff (s, w\<lparr>peer_ac := acs\<rparr>) =
    under_access acs (commit_repayment T env a k token x p eff (s, w))"
  using assms by (auto simp: commit_repayment_def Let_def checked_add_def intro!: andThen_cong split: if_splits)

lemma repay_access:
  assumes "repay T env a k token x (s, w) = Ok (s', w')" "get_pool s' k = Ok q" "\<not> pool_is_closed q"
  shows "repay T env a k token x (s, w\<lparr>peer_ac := acs\<rparr>) = Ok (s', w'\<lparr>peer_ac := acs\<rparr>)"
proof -
  from repay_effect [OF assms(1)] obtain p i eff p1 evs where
    p: "fp_pool s k = Some p" "fp_load_invoice w s k = Ok i"
      "convert_if_needed env w s x (inv_currency i) (pool_token p) = Ok eff"
      "apply_late_penalty env k i p = Ok (p1, evs)"
      "fp_pool s' = (fp_pool s)(k \<mapsto> p1\<lparr>pool_repaid_amount := pool_repaid_amount p1 + eff,
        pool_is_closed := (pool_total_owed p1 \<le> pool_repaid_amount p1 + eff \<or> pool_is_closed p1)\<rparr>)"
    unfolding Let_def by blast
  then have "pool_repaid_amount p1 + eff < pool_total_owed p1"
    using assms(2,3) by (auto simp: get_pool_def)
  note c = commit_repayment_access [OF this]
  have lock: "fp_load_invoice w (s\<lparr>fp_repayment_lock := l\<rparr>) j = fp_load_invoice w s j"
    "convert_if_needed env w (s\<lparr>fp_repayment_lock := l\<rparr>) y g t = convert_if_needed env w s y g t" for l j y g t
    by (simp_all add: fp_load_invoice_def convert_if_needed_def)
  have "repay T env a k token x (s, w\<lparr>peer_ac := acs\<rparr>) = under_access acs (repay T env a k token x (s, w))"
    by (simp add: repay_def Let_def p lock c split_def andThen_under_access cong: if_cong)
  then show ?thesis by (simp add: assms(1))
qed

lemma paused_repay_open:
  assumes "repay T env a k token x (s, w) = Ok (s', w')" "fp_invoice_nft s = Some c" "peer_nft w c = Some n"
    "nft_pause.knows (peer_ac w) n ac" "is_paused ac"
  shows "\<exists>q. get_pool s' k = Ok q \<and> \<not> pool_is_closed q"
proof -
  from repay_effect [OF assms(1)] obtain p i p1 evs tk eff where
    p: "\<not> pool_is_closed p" "apply_late_penalty env k i p = Ok (p1, evs)"
      "fp_pool s' = (fp_pool s)(k \<mapsto> p1\<lparr>pool_repaid_amount := pool_repaid_amount p1 + eff,
        pool_is_closed := (pool_total_owed p1 \<le> pool_repaid_amount p1 + eff \<or> pool_is_closed p1)\<rparr>)"
      "if pool_total_owed p1 \<le> pool_repaid_amount p1 + eff
       then settled T env k token (pool_repaid_amount p1 + eff) s (w\<lparr>peer_tk := tk\<rparr>) w'
       else w' = w\<lparr>peer_tk := tk\<rparr>"
    unfolding Let_def by blast
  have "\<not> pool_is_closed p1" using apply_late_penalty_effect [OF p(2)] p(1) by auto
  moreover have "\<not> pool_total_owed p1 \<le> pool_repaid_amount p1 + eff"
    using p(4) assms(2,3) nft_pause.stops [OF assms(4,5)]
    by (auto simp: settled_def dest!: set_repaid_effect split: if_splits)
  ultimately show ?thesis using p(3) by (simp add: get_pool_def)
qed

section \<open>Properties\<close>

text \<open>
  C15: a pause stops new activity. While the access control contract that the invoice contract, the
  financing pool and the marketplace refer to is paused, every authorised call of an operation that
  creates or moves value is refused with \<open>ProtocolPaused\<close>, whatever its arguments and the rest of the
  state: minting, amending, withdrawing, committing metadata, the listing, funding and repayment
  marks of the registered contracts, opening a pool, recording positions and marking defaults by
  the admin, proposing and accepting an early settlement, trading positions, listing and funding.
\<close>

theorem pause_blocks_activity:
  assumes "is_paused ac" "peer_ac w b = Some ac" "authorised env a"
    "nft_access_control n = Some b" "fp_access_control s = Some b" "mp_access_control m = Some b"
  shows "mint_invoice (peer_ac w) rrs env a h x c d cid r notes n = Err ProtocolPaused \<and>
    amend_invoice (peer_ac w) env a k h x d cid r n = Err ProtocolPaused \<and>
    withdraw_invoice (peer_ac w) env a k n = Err ProtocolPaused \<and>
    commit_metadata_hash (peer_ac w) env a k h n = Err ProtocolPaused \<and>
    (nft_marketplace n = Some a \<longrightarrow> set_listed (peer_ac w) env a k n = Err ProtocolPaused) \<and>
    (nft_financing_pool n = Some a \<longrightarrow> set_funded (peer_ac w) env a k n = Err ProtocolPaused \<and>
       set_repaid (peer_ac w) env a k n = Err ProtocolPaused) \<and>
    release_funds env a k token (s, w) = Err ProtocolPaused \<and>
    propose_early_settlement T env a k x (s, w) = Err ProtocolPaused \<and>
    accept_early_settlement T env a k (s, w) = Err ProtocolPaused \<and>
    list_position_for_sale env w a k token x s = Err ProtocolPaused \<and>
    buy_position T env a k i (s, w) = Err ProtocolPaused \<and>
    (fp_admin s = Some a \<longrightarrow> record_position env w a k i x y s = Err ProtocolPaused \<and>
       mark_default T env a k token (s, w) = Err ProtocolPaused) \<and>
    list_invoice env a k x y token d ref (m, w) = Err ProtocolPaused \<and>
    fund_invoice T env a k x (m, w) = Err ProtocolPaused"
  using pause_stops_invoices [OF nft_pause.knowsI [where w = "peer_ac w", OF assms(4,2)] assms(1,3)]
    pause_stops_pools [OF fp_pause.knowsI [OF assms(5,2)] assms(1,3)]
    pause_stops_market [OF mp_pause.knowsI [OF assms(6,2)] assms(1,3)]
  by simp

text \<open>A paused access control contract, and a world that has it at the address of the demonstrations.\<close>

definition paused_demo_ac :: "Address \<rightharpoonup> ac_state" where
  "paused_demo_ac = [100 \<mapsto> ac_empty\<lparr>ac_admin := Some 1, ac_paused := Some True\<rparr>]"

definition paused_demo_world :: "(Address \<Rightarrow> Address \<Rightarrow> i128) mp_world" where
  "paused_demo_world = \<lparr>peer_ac = paused_demo_ac, peer_rr = Map.empty, peer_or = Map.empty,
     peer_nft = Map.empty, peer_tk = (\<lambda>_ _. 0), peer_tr = Map.empty, peer_fp = Map.empty\<rparr>"

theorem pause_blocks_activity_witness:
  "mint_invoice paused_demo_ac Map.empty (open_env 300 30) 8 [1] 1000 ''USDC'' 9000 ''Qm'' 35 None
     (nft_empty\<lparr>nft_access_control := Some 100\<rparr>) = Err ProtocolPaused \<and>
   mark_default plain_token (open_env 500 30) 1 1 50
     (fp_empty\<lparr>fp_admin := Some 1, fp_access_control := Some 100\<rparr>, paused_demo_world) = Err ProtocolPaused \<and>
   fund_invoice plain_token (open_env 400 30) 8 1 500
     (mp_empty\<lparr>mp_access_control := Some 100\<rparr>, paused_demo_world) = Err ProtocolPaused"
proof -
  let ?ac = "ac_empty\<lparr>ac_admin := Some 1, ac_paused := Some True\<rparr>"
  let ?n = "nft_empty\<lparr>nft_access_control := Some 100\<rparr>"
  let ?s = "fp_empty\<lparr>fp_admin := Some 1, fp_access_control := Some 100\<rparr>"
  let ?m = "mp_empty\<lparr>mp_access_control := Some 100\<rparr>"
  have w: "is_paused ?ac" "peer_ac paused_demo_world = paused_demo_ac" "paused_demo_ac 100 = Some ?ac"
    by (simp_all add: is_paused_def paused_demo_world_def paused_demo_ac_def)
  have "authorised (open_env c t) a" for c t a by (simp add: authorised_def open_env_def)
  note * = pause_blocks_activity [of ?ac paused_demo_world 100, where n = ?n and s = ?s and m = ?m, OF w(1) _ this]
  show ?thesis
    using * [where rrs = Map.empty and T = plain_token] w by simp
qed

text \<open>
  C16: a pause spares the exits. The result of cancelling an early settlement and of claiming a
  refund does not depend on the access control contracts at all, and neither does a repayment that
  leaves the pool open; but while the invoice contract sees a paused access control contract, no
  repayment that closes its pool succeeds.
\<close>

theorem pause_spares_exits:
  "cancel_early_settlement T env a k (s, w\<lparr>peer_ac := acs\<rparr>) =
     under_access acs (cancel_early_settlement T env a k (s, w)) \<and>
   claim_refund T env a k (m, v\<lparr>peer_ac := acs\<rparr>) = under_access acs (claim_refund T env a k (m, v)) \<and>
   (repay T env a k token x (s, w) = Ok (s', w') \<and> get_pool s' k = Ok q \<and> \<not> pool_is_closed q \<longrightarrow>
     repay T env a k token x (s, w\<lparr>peer_ac := acs\<rparr>) = Ok (s', w'\<lparr>peer_ac := acs\<rparr>)) \<and>
   (repay T env a k token x (s, w) = Ok (s', w') \<and> fp_invoice_nft s = Some c \<and> peer_nft w c = Some n \<and>
      nft_access_control n = Some b \<and> peer_ac w b = Some ac \<and> is_paused ac \<longrightarrow>
     (\<exists>q. get_pool s' k = Ok q \<and> \<not> pool_is_closed q))"
  using paused_repay_open [OF _ _ _ nft_pause.knowsI]
  by (auto simp: cancel_early_settlement_access claim_refund_access dest: repay_access)

lemma paused_demo_repays:
  "\<exists>s w s' w' p. fp_demo_open = Ok (s, w) \<and> repay plain_token (open_env 500 70) 8 1 50 400 (s, w) = Ok (s', w') \<and>
     get_pool s' 1 = Ok p \<and> \<not> pool_is_closed p \<and> pool_repaid_amount p = 400"
  by (simp add: fp_eval get_pool_def cong: andThen_weak_cong del: andThen_eq_Ok)

theorem pause_spares_exits_witness:
  "\<exists>s w s' w' p. fp_demo_open = Ok (s, w) \<and>
     repay plain_token (open_env 500 70) 8 1 50 400 (s, w\<lparr>peer_ac := paused_demo_ac\<rparr>) = Ok (s', w') \<and>
     get_pool s' 1 = Ok p \<and> \<not> pool_is_closed p \<and> pool_repaid_amount p = 400"
proof -
  obtain s w s' w' p where d: "fp_demo_open = Ok (s, w)" "get_pool s' 1 = Ok p" "\<not> pool_is_closed p"
      "repay plain_token (open_env 500 70) 8 1 50 400 (s, w) = Ok (s', w')" "pool_repaid_amount p = 400"
    using paused_demo_repays by blast
  with pause_spares_exits [where T = plain_token and acs = paused_demo_ac and s = s and w = w and
      s' = s' and w' = w' and q = p and k = 1 and x = 400 and token = 50 and a = 8 and env = "open_env 500 70"]
  show ?thesis by blast
qed

end
