(* ===== verification/Funding_Flow.thy ===== *)
theory Funding_Flow
  imports Marketplace
begin

text \<open>
  The life of a listing (\<^verbatim>\<open>contracts/marketplace/src/lib.rs\<close>) together with the contracts it calls:
  listing an invoice, contributions and their split, the opening of the pool, cancellation and
  refunds. The model of the contract and the effect of each operation are in \<open>Marketplace\<close>.
\<close>

section \<open>What no step undoes\<close>

text \<open>A listing that is not active any more never changes, and its cancellation is not confirmed
  afterwards; a refund that was claimed stays claimed.\<close>

definition mp_forward :: "u64 \<Rightarrow> mp_state \<Rightarrow> mp_state \<Rightarrow> bool" where
  "mp_forward k s s' \<longleftrightarrow>
     (\<forall>l. mp_listing s k = Some l \<and> \<not> lst_is_active l \<longrightarrow> mp_listing s' k = Some l \<and>
        (mp_cancellation_confirmed s k \<noteq> Some True \<longrightarrow> mp_cancellation_confirmed s' k \<noteq> Some True)) \<and>
     (\<forall>i. mp_refund_claimed s (k, i) = Some True \<longrightarrow> mp_refund_claimed s' (k, i) = Some True)"

lemma mp_forward_refl: "mp_forward k s s"
  by (simp add: mp_forward_def)

lemma mp_forward_trans: "mp_forward k s s' \<Longrightarrow> mp_forward k s' s'' \<Longrightarrow> mp_forward k s s''"
  unfolding mp_forward_def by blast

lemma mp_entry_forward: "mp_entry T env x y \<Longrightarrow> mp_forward k (fst x) (fst y)"
proof (induction rule: mp_entry.induct)
  case (mp_list a j x y token deadline r s w s' w')
  from list_invoice_effect [OF mp_list(1)] show ?case by (auto simp: mp_forward_def)
next
  case (mp_fund a j x s w s' w')
  from fund_effect [OF mp_fund(1)] show ?case by (auto simp: mp_forward_def dest!: mp_book_effect)
next
  case (mp_cancel a j s s' w)
  from cancel_listing_effect [OF mp_cancel(1)] show ?case by (auto simp: mp_forward_def)
next
  case (mp_request a j s s' w)
  from request_cancellation_effect [OF mp_request(1)] obtain l c where
    *: "mp_listing s j = Some l" "lst_is_active l"
      "s' = (if lst_funded_amount l = 0
        then mp_emit (listing_cancelled env j (lst_seller l))
          (put_listing j (l\<lparr>lst_is_active := False\<rparr>) (s\<lparr>mp_config := Some c\<rparr>))
        else mp_emit (cancellation_requested env j a) (s\<lparr>mp_config := Some c,
          mp_cancellation_request := (mp_cancellation_request s)(j \<mapsto> a)\<rparr>))" by blast
  then show ?case by (cases "lst_funded_amount l = 0") (auto simp: mp_forward_def)
next
  case (mp_confirm a j s s' w)
  from admin_confirm_effect [OF mp_confirm(1)] show ?case by (auto simp: mp_forward_def split: if_splits)
next
  case (mp_refund a j s w s' w')
  from claim_refund_effect [OF mp_refund(1)] show ?case by (auto simp: mp_forward_def)
qed (auto simp: mp_forward_def mp_initialize_def set_referrer_split_bps_def update_fee_bps_def
    mp_set_fee_bps_def set_tier_fee_bps_def mp_whitelist_token_def remove_token_whitelist_def
    mp_propose_upgrade_def mp_execute_upgrade_def Let_def split: if_splits
    dest!: mp_load_admin_effect load_config_effect)

lemma mp_step_forward: "mp_step T env x y \<Longrightarrow> mp_forward k (fst x) (fst y)"
  by (auto elim!: mp_step.cases intro: mp_entry_forward mp_forward_refl)

lemma mp_run_forward: "mp_run T t x u y \<Longrightarrow> mp_forward k (fst x) (fst y) \<and> t \<le> u"
  by (induction rule: mp_run.induct) (auto intro: mp_forward_refl mp_forward_trans mp_step_forward)

lemma bps_of_normalized_nonneg: "bps_of_normalized x n d = Ok v \<Longrightarrow> 0 \<le> v"
  by (drule bps_of_normalized_Ok) (auto simp: scaled_share_def pos_imp_zdiv_nonneg_iff)

text \<open>The call that opens the pool of a full listing.\<close>

lemma mp_release_effect:
  assumes "mp_release env c k token w = Ok w'"
  shows "\<exists>f f' m. peer_fp w (mc_financing_pool c) = Some f \<and>
    release_funds (subcall env (mc_financing_pool c)) (self env) k token (f, w) = Ok (f', w\<lparr>peer_nft := m\<rparr>) \<and>
    w' = w\<lparr>peer_nft := m, peer_fp := (peer_fp w)(mc_financing_pool c \<mapsto> f')\<rparr>"
proof -
  from assms obtain f f' w1 where
    *: "peer_fp w (mc_financing_pool c) = Some f"
      "release_funds (subcall env (mc_financing_pool c)) (self env) k token (f, w) = Ok (f', w1)"
      "w' = w1\<lparr>peer_fp := (peer_fp w1)(mc_financing_pool c \<mapsto> f')\<rparr>"
    by (auto simp: mp_release_def)
  from release_funds_effect [OF *(2)] obtain m where "w1 = w\<lparr>peer_nft := m\<rparr>" by auto
  with * show ?thesis by auto
qed

lemma mp_release_opens:
  assumes "mp_release env c k token w = Ok w'"
  shows "\<exists>f f' p i. peer_fp w (mc_financing_pool c) = Some f \<and> get_pool f k = Err PoolNotFound \<and>
    peer_fp w' (mc_financing_pool c) = Some f' \<and> get_pool f' k = Ok p \<and> \<not> pool_is_closed p \<and>
    pool_token p = token \<and> pool_repaid_amount p = 0 \<and> fp_load_invoice w f k = Ok i \<and> inv_status i = Listed \<and>
    pool_total_owed p = inv_amount i \<and>
    fp_load_invoice w' f' k = Ok (i\<lparr>inv_status := Funded, inv_funded_at := Some (timestamp env)\<rparr>)"
proof -
  from mp_release_effect [OF assms] obtain f f' m where
    *: "peer_fp w (mc_financing_pool c) = Some f"
      "release_funds (subcall env (mc_financing_pool c)) (self env) k token (f, w) = Ok (f', w\<lparr>peer_nft := m\<rparr>)"
      "w' = w\<lparr>peer_nft := m, peer_fp := (peer_fp w)(mc_financing_pool c \<mapsto> f')\<rparr>" by blast
  from release_funds_effect [OF *(2)] obtain i b a n n' where
    r: "fp_pool f k = None" "fp_load_invoice w f k = Ok i"
      "fp_pool f' = (fp_pool f)(k \<mapsto> \<lparr>pool_invoice_id = k, pool_token = token, pool_total_funded = 0,
        pool_face_value = inv_amount i, pool_repaid_amount = 0, pool_is_closed = False,
        pool_late_penalty_bps = b, pool_total_owed = inv_amount i, pool_penalty_applied = False\<rparr>)"
      "fp_book f' = fp_book f" "fp_invoice_nft f = Some a" "peer_nft w a = Some n"
      "set_funded (peer_ac w) (subcall (subcall env (mc_financing_pool c)) a) (mc_financing_pool c) k n = Ok n'"
      "w\<lparr>peer_nft := m\<rparr> = w\<lparr>peer_nft := (peer_nft w)(a \<mapsto> n')\<rparr>"
    by auto
  have m: "m = (peer_nft w)(a \<mapsto> n')" using arg_cong [OF r(8), of peer_nft] by simp
  have "inv_status i = Listed \<and> get_invoice n' k = Ok (i\<lparr>inv_status := Funded, inv_funded_at := Some (timestamp env)\<rparr>)"
    using set_funded_effect [OF r(7)] r(2,5,6)
    by (auto simp: fp_load_invoice_def get_invoice_def nft_load_invoice_def)
  with *(1,3) r m fp_book_fields(3) [OF r(4)] show ?thesis by (simp add: get_pool_def fp_load_invoice_def)
qed

text \<open>Every single contribution is part of the funded amount, and a refund uses the configuration the
  contract had before.\<close>

lemma backer_bound:
  assumes "mp_inv t s" "mp_listing s k = Some l" "mp_contribution s (k, i) = Some x"
  shows "x \<le> lst_funded_amount l"
proof -
  let ?b = "backers s k"
  have b: "finite (dom ?b)" "\<forall>i x. ?b i = Some x \<longrightarrow> 0 \<le> x" "map_total ?b \<le> lst_funded_amount l"
    using assms(1,2) unfolding mp_inv_def backers_ok_def by (metis option.simps(5))+
  have x: "?b i = Some x" using assms(3) by (simp add: backers_def)
  have "the (?b i) \<le> (\<Sum>j\<in>dom ?b. the (?b j))"
    using b(1,2) x by (intro member_le_sum) auto
  with x b(3) show ?thesis by (simp add: map_total_def)
qed

lemma claim_refund_config:
  assumes "claim_refund T env i k (s, w) = Ok (s', w')"
  shows "\<exists>c s1. load_config s = Ok (c, s1) \<and> mp_config s' = Some c"
proof -
  have "load_config (s\<lparr>mp_refund_claimed := m\<rparr>) =
      andThen (load_config s) (\<lambda>(c, s). Ok (c, s\<lparr>mp_refund_claimed := m\<rparr>))" for m
    by (cases "mp_config s"; cases "mp_admin s"; cases "mp_invoice_nft s"; cases "mp_financing_pool s";
        cases "mp_treasury s"; cases "mp_access_control s"; cases "mp_fee_bps s"; cases "mp_risk_registry s")
      (simp_all add: load_config_def Let_def)
  with assms show ?thesis
    by (fastforce simp: claim_refund_def Let_def dest: load_config_effect)
qed

section \<open>A run for the witnesses\<close>

text \<open>The invoice of 1000 of the NFT demonstration, not listed yet, is listed for 900 by address 9,
  which is not the SME, and funded by the investors 21 and 22.\<close>

definition ff_minted :: "nft_state res" where
  "ff_minted =
     andThen (nft_initialize (open_env 300 10) 1 100 nft_empty) (\<lambda>s.
     andThen (set_authorized_callers (open_env 300 20) 1 400 500 s) (\<lambda>s.
     andThen (mint_invoice nft_demo_ac Map.empty (open_env 300 30) 8 [1] 1000 ''USDC'' 9000 ''Qm'' 35 None s) (\<lambda>(k, s).
     Ok s)))"

definition ff_registry :: rr_state where
  "ff_registry = rr_empty\<lparr>rr_sme := [9 \<mapsto> \<lparr>sme_address = 9, sme_verified = True, sme_verifier = 2,
     sme_risk_score = 10, sme_total_invoices = 0, sme_defaults = 0, sme_registered_at = 5,
     sme_compliance_attested = True, sme_credit_limit = 0\<rparr>]\<rparr>"

definition ff_world :: "(Address \<Rightarrow> Address \<Rightarrow> i128) mp_world res" where
  "ff_world = andThen ff_minted (\<lambda>n.
     andThen (fp_initialize (open_env 500 5) 1 300 200 600 100 500 700 5000 fp_empty) (\<lambda>f.
     Ok \<lparr>peer_ac = nft_demo_ac, peer_rr = [200 \<mapsto> ff_registry], peer_or = [700 \<mapsto> or_empty],
         peer_nft = [300 \<mapsto> n], peer_tk = (\<lambda>_ a. if a = 21 \<or> a = 22 then 1000 else 0),
         peer_tr = [600 \<mapsto> tr_demo], peer_fp = [500 \<mapsto> f]\<rparr>))"

definition ff_ready :: "mp_state res" where
  "ff_ready =
     andThen (mp_initialize 1 300 500 600 100 200 50 mp_empty) (\<lambda>s.
     mp_whitelist_token (open_env 400 35) 1 50 s)"

definition ff_listed :: "(mp_state \<times> (Address \<Rightarrow> Address \<Rightarrow> i128) mp_world) res" where
  "ff_listed = andThen ff_world (\<lambda>w. andThen ff_ready (\<lambda>s.
     list_invoice (open_env 400 40) 9 1 900 1000 50 5000 None (s, w)))"

definition ff_partly :: "(mp_state \<times> (Address \<Rightarrow> Address \<Rightarrow> i128) mp_world) res" where
  "ff_partly = andThen ff_listed (fund_invoice plain_token (open_env 400 50) 21 1 600)"

lemmas ff_eval =
  ff_minted_def ff_registry_def ff_world_def ff_ready_def ff_listed_def ff_partly_def fp_eval tr_eval
  mp_initialize_def mp_whitelist_token_def mp_load_admin_def load_config_def mp_empty_def rr_empty_def
  list_invoice_def mp_list_locked_def require_compliance_attested_def is_compliance_attested_def
  mp_require_not_paused_def mp_require_whitelisted_token_def require_within_max_amount_def
  fund_invoice_def mp_pay_def mp_book_contribution_def mp_release_def collect_fee_def safe_add_def
  safe_sub_def claim_refund_def cancel_listing_def request_cancellation_def admin_confirm_cancellation_def

lemma ff_runs:
  "\<exists>s0 s w0 w s1 w1. ff_world = Ok w0 \<and> ff_ready = Ok s0 \<and>
     list_invoice (open_env 400 40) 9 1 900 1000 50 5000 None (s0, w0) = Ok (s, w) \<and> ff_listed = Ok (s, w) \<and>
     fund_invoice plain_token (open_env 400 50) 21 1 600 (s, w) = Ok (s1, w1) \<and> ff_partly = Ok (s1, w1)"
  by (simp add: ff_eval cong: andThen_weak_cong del: andThen_eq_Ok)

lemma ff_sme:
  "\<exists>s0 s w0 w n i. ff_world = Ok w0 \<and> ff_ready = Ok s0 \<and>
     list_invoice (open_env 400 40) 9 1 900 1000 50 5000 None (s0, w0) = Ok (s, w) \<and>
     peer_nft w0 300 = Some n \<and> get_invoice n 1 = Ok i \<and> inv_sme i = 8 \<and> inv_amount i = 1000"
  by (simp add: ff_eval cong: andThen_weak_cong del: andThen_eq_Ok)

lemma ff_partly_state:
  "\<exists>s w l. ff_partly = Ok (s, w) \<and> get_listing s 1 = Ok l \<and> lst_is_active l \<and> lst_funded_amount l = 600 \<and>
     lst_funding_deadline l = 5000 \<and> lst_token l = 50 \<and> mp_contribution s (1, 21) = Some 597"
  by (simp add: ff_eval get_listing_def cong: andThen_weak_cong del: andThen_eq_Ok)

lemma ff_fills:
  "\<exists>s w s' w' l c s1. ff_partly = Ok (s, w) \<and>
     fund_invoice plain_token (open_env 400 60) 22 1 300 (s, w) = Ok (s', w') \<and>
     get_listing s 1 = Ok l \<and> lst_token l = 50 \<and> lst_funded_amount l = 600 \<and> lst_asking_price l = 900 \<and>
     mp_get_config s = Ok (c, s1) \<and> mc_treasury c = 600 \<and> mc_financing_pool c = 500"
  by (simp add: ff_eval get_listing_def mp_get_config_def cong: andThen_weak_cong del: andThen_eq_Ok)

lemma ff_refunds:
  "\<exists>s w s1 w1 l c. ff_partly = Ok (s, w) \<and>
     claim_refund plain_token (open_env 400 6000) 21 1 (s, w) = Ok (s1, w1) \<and>
     mp_contribution s (1, 21) = Some 597 \<and> get_listing s 1 = Ok l \<and> lst_token l = 50 \<and>
     mp_config s1 = Some c \<and> mc_financing_pool c = 500"
  by (simp add: ff_eval get_listing_def cong: andThen_weak_cong del: andThen_eq_Ok)

lemma ff_cancels:
  "\<exists>s w s1 l m. ff_partly = Ok (s, w) \<and> cancel_listing (open_env 400 60) 9 1 s = Ok s1 \<and>
     get_listing s 1 = Ok l \<and> lst_funding_deadline l = 5000 \<and> mp_contribution s (1, 21) = Some 597 \<and>
     get_listing s1 1 = Ok m \<and> \<not> lst_is_active m"
  by (simp add: ff_eval get_listing_def cong: andThen_weak_cong del: andThen_eq_Ok)

lemma ff_partly_run:
  assumes "ff_partly = Ok (s, w)"
  shows "\<exists>w0. mp_run plain_token 0 (mp_empty, w0) 50 (s, w)"
proof -
  from assms [unfolded ff_partly_def ff_listed_def] obtain s0 w0 sl wl where
    r: "ff_ready = Ok s0" "list_invoice (open_env 400 40) 9 1 900 1000 50 5000 None (s0, w0) = Ok (sl, wl)"
      "fund_invoice plain_token (open_env 400 50) 21 1 600 (sl, wl) = Ok (s, w)"
    by auto
  from r(1) obtain si where
    i: "mp_initialize 1 300 500 600 100 200 50 mp_empty = Ok si"
      "mp_whitelist_token (open_env 400 35) 1 50 si = Ok s0"
    by (auto simp: ff_ready_def)
  have "mp_run plain_token 0 (mp_empty, w0) (timestamp (open_env 400 50)) (s, w)"
    by (rule mp_more [OF mp_more [OF mp_more [OF mp_more [OF mp_here _ mp_call [OF mp_init [OF i(1), where env = "open_env 400 30"]]]
            _ mp_call [OF mp_white [OF i(2)]]] _ mp_call [OF mp_list [OF r(2)]]] _ mp_call [OF mp_fund [OF r(3)]]]) simp_all
  then show ?thesis by auto
qed

section \<open>Properties\<close>

text \<open>
  C30: what a listing requires, and what it does. The seller authorised it and is attested as
  compliant, the token is whitelisted, the protocol is not paused, the price is positive and below
  the face value, which is the amount of the invoice, the deadline lies in the future, and the
  invoice was neither listed before nor in another status than \<open>Created\<close>. The new listing is active
  and not funded, and the invoice becomes \<open>Listed\<close> with its other data unchanged.
\<close>

theorem listing_checked:
  assumes "list_invoice env seller k ask face token deadline ref (s, w) = Ok (s', w')"
  shows "\<exists>c s1 rr n n' i. mp_get_config s = Ok (c, s1) \<and> authorised env seller \<and> 0 < ask \<and> ask < face \<and>
    face \<le> MAX_AMOUNT \<and> timestamp env < deadline \<and> mp_is_token_whitelisted s token \<and>
    (\<forall>a. mp_access_control s = Some a \<longrightarrow> (\<exists>ac. peer_ac w a = Some ac \<and> \<not> is_paused ac)) \<and>
    peer_rr w (mc_risk_registry c) = Some rr \<and> is_compliance_attested rr seller \<and>
    get_listing s k = Err ListingNotFound \<and>
    get_listing s' k = Ok \<lparr>lst_invoice_id = k, lst_seller = seller, lst_asking_price = ask,
      lst_face_value = face, lst_token = token, lst_funded_amount = 0,
      lst_funding_deadline = deadline, lst_is_active = True\<rparr> \<and>
    peer_nft w (mc_invoice_nft c) = Some n \<and> peer_nft w' (mc_invoice_nft c) = Some n' \<and>
    get_invoice n k = Ok i \<and> inv_status i = Created \<and> inv_amount i = face \<and>
    get_invoice n' k = Ok (i\<lparr>inv_status := Listed\<rparr>)"
proof -
  from list_invoice_effect [OF assms] obtain c rr n i n' where
    *: "load_config s = Ok (c, s\<lparr>mp_config := Some c\<rparr>)" "peer_rr w (mc_risk_registry c) = Some rr"
      "is_compliance_attested rr seller" "peer_nft w (mc_invoice_nft c) = Some n" "get_invoice n k = Ok i"
      "inv_amount i = face" "set_listed (peer_ac w) (subcall env (mc_invoice_nft c)) (self env) k n = Ok n'"
      "w' = w\<lparr>peer_nft := (peer_nft w)(mc_invoice_nft c \<mapsto> n')\<rparr>" by blast
  have "inv_status i = Created \<and> get_invoice n' k = Ok (i\<lparr>inv_status := Listed\<rparr>)"
    using set_listed_effect [OF *(7)] *(5) by (auto simp: get_invoice_def nft_load_invoice_def)
  with list_invoice_effect [OF assms] * show ?thesis
    by (intro exI [of _ c] exI [of _ "s\<lparr>mp_config := Some c\<rparr>"] exI [of _ rr] exI [of _ n] exI [of _ n'] exI [of _ i])
      (auto simp: mp_get_config_def get_listing_def)
qed

theorem listing_checked_witness:
  "\<exists>s w s' w' i n. list_invoice (open_env 400 40) 9 1 900 1000 50 5000 None
       (s, w :: (Address \<Rightarrow> Address \<Rightarrow> i128) mp_world) = Ok (s', w') \<and>
     peer_nft w 300 = Some n \<and> get_invoice n 1 = Ok i \<and> inv_sme i = 8 \<and> inv_amount i = 1000 \<and>
     (\<exists>l. get_listing s' 1 = Ok l \<and> lst_seller l = 9)"
proof -
  obtain s w s' w' n i where d: "list_invoice (open_env 400 40) 9 1 900 1000 50 5000 None
       (s, w :: (Address \<Rightarrow> Address \<Rightarrow> i128) mp_world) = Ok (s', w')" "peer_nft w 300 = Some n"
      "get_invoice n 1 = Ok i" "inv_sme i = 8" "inv_amount i = 1000"
    using ff_sme by blast
  from listing_checked [OF d(1)] have "\<exists>l. get_listing s' 1 = Ok l \<and> lst_seller l = 9" by force
  with d show ?thesis by blast
qed

text \<open>
  C8: in every reachable state a listing is funded by at most its asking price, which is below the
  face value, an active listing still lacks something, and the net contributions recorded for all
  its investors together do not exceed what it was funded with.
\<close>

theorem funding_bounded:
  assumes "mp_run T t (mp_empty, w0) u (s, w)" "get_listing s k = Ok l"
  shows "0 \<le> lst_funded_amount l \<and> lst_funded_amount l \<le> lst_asking_price l \<and>
    lst_asking_price l < lst_face_value l \<and> lst_face_value l \<le> MAX_AMOUNT \<and>
    (lst_is_active l \<longrightarrow> lst_funded_amount l < lst_asking_price l) \<and>
    finite (dom (backers s k)) \<and> (\<forall>i x. backers s k i = Some x \<longrightarrow> 0 \<le> x) \<and>
    map_total (backers s k) \<le> lst_funded_amount l"
proof -
  have inv: "mp_inv u s" using mp_run_inv [OF assms(1)] mp_empty_inv by simp
  have l: "mp_listing s k = Some l" using assms(2) by (simp add: get_listing_def)
  with inv have "listing_ok k l" "backers_ok s" by (simp_all add: mp_inv_def)
  then show ?thesis
    using l unfolding listing_ok_def backers_ok_def by (metis option.simps(5))
qed

theorem funding_bounded_witness:
  "\<exists>s w w0 l. mp_run plain_token 0 (mp_empty, w0) 50 (s, w :: (Address \<Rightarrow> Address \<Rightarrow> i128) mp_world) \<and>
     get_listing s 1 = Ok l \<and> lst_is_active l \<and> lst_funded_amount l < lst_asking_price l"
proof -
  obtain s w l where d: "ff_partly = Ok (s, w)" "get_listing s 1 = Ok l" "lst_is_active l"
    using ff_partly_state by blast
  then obtain w0 where r: "mp_run plain_token 0 (mp_empty, w0) 50 (s, w)" using ff_partly_run by blast
  from funding_bounded [OF r d(2)] r d(2,3) show ?thesis by blast
qed

text \<open>
  C5: a contribution is split without loss. The investor authorised it and it fits into what the
  active listing still lacks, before the deadline. The fee is the rate of the invoice's risk tier
  (or the default rate), at most 100 percent, rounded down; the treasury receives and books it, the
  financing pool receives the rest, the investor pays both, and no other balance of any token
  changes. The listing grows by the whole contribution, the investor's record by the rest.
\<close>

theorem contribution_split:
  assumes "sep41 T" "mp_run T t (mp_empty, w0) u (s, w)" "u \<le> timestamp env"
    "fund_invoice T env i k x (s, w) = Ok (s', w')"
  shows "\<exists>l l' c s1 n inv bps fee. mp_get_config s = Ok (c, s1) \<and> get_listing s k = Ok l \<and> lst_is_active l \<and>
    authorised env i \<and> 0 < x \<and> x \<le> lst_asking_price l - lst_funded_amount l \<and>
    timestamp env \<le> lst_funding_deadline l \<and> peer_nft w (mc_invoice_nft c) = Some n \<and>
    \<not> is_invoice_frozen n k \<and> get_invoice n k = Ok inv \<and>
    bps = fst (get_tier_fee_bps s (inv_risk_tier inv)) \<and> bps \<le> 10000 \<and>
    fee = scaled_share x bps (tk_decimals T (lst_token l) (peer_tk w)) \<and> 0 \<le> fee \<and> fee \<le> x \<and>
    (\<forall>token a. tk_balance T token a (peer_tk w') = tk_balance T token a (peer_tk w) +
      (if token = lst_token l then (if a = mc_treasury c then fee else 0)
         + (if a = mc_financing_pool c then x - fee else 0) - (if a = i then x else 0) else 0)) \<and>
    (0 < fee \<longrightarrow> (\<exists>tr tr'. peer_tr w (mc_treasury c) = Some tr \<and> peer_tr w' (mc_treasury c) = Some tr' \<and>
      get_collected tr' (lst_token l) = get_collected tr (lst_token l) + fee)) \<and>
    get_listing s' k = Ok l' \<and> lst_funded_amount l' = lst_funded_amount l + x \<and>
    unwrap_or (mp_contribution s' (k, i)) 0 = unwrap_or (mp_contribution s (k, i)) 0 + (x - fee)"
proof -
  have inv: "mp_inv u s" using mp_run_inv [OF assms(2)] mp_empty_inv by simp
  from fund_effect [OF assms(4)] obtain l :: Listing and c n and iv :: Invoice and fee w1 full where
    *: "authorised env i" "0 < x" "mp_listing s k = Some l" "lst_is_active l"
      "timestamp env \<le> lst_funding_deadline l" "x \<le> lst_asking_price l - lst_funded_amount l"
      "load_config s = Ok (c, s\<lparr>mp_config := Some c\<rparr>)" "peer_nft w (mc_invoice_nft c) = Some n"
      "\<not> is_invoice_frozen n k" "get_invoice n k = Ok iv"
      "bps_of_normalized x (unwrap_or (mp_tier_fee_bps s (tier_ordinal (inv_risk_tier iv))) (mc_fee_bps c))
        (tk_decimals T (lst_token l) (peer_tk w)) = Ok fee"
      "mp_pay T env c (lst_token l) i fee (x - fee) w = Ok w1"
      "mp_book_contribution env i k x fee (x - fee) l (s\<lparr>mp_config := Some c\<rparr>) = Ok (full, s')"
      "if full then mp_release env c k (lst_token l) w1 = Ok w' else w' = w1"
    by blast
  have bps: "fst (get_tier_fee_bps s (inv_risk_tier iv)) =
      unwrap_or (mp_tier_fee_bps s (tier_ordinal (inv_risk_tier iv))) (mc_fee_bps c)"
    using *(7) by (simp add: get_tier_fee_bps_def split: option.split)
  note fee = fee_bounds [OF inv *(7,2,11), folded bps]
  have w': "peer_tk w' = peer_tk w1 \<and> peer_tr w' = peer_tr w1"
    using *(14) by (auto split: if_splits dest!: mp_release_effect)
  have "0 < fee \<longrightarrow> (\<exists>tr tr'. peer_tr w (mc_treasury c) = Some tr \<and> peer_tr w' (mc_treasury c) = Some tr' \<and>
      get_collected tr' (lst_token l) = get_collected tr (lst_token l) + fee)"
    using mp_pay_effect [OF *(12)] fee w' by (auto simp: get_collected_def)
  moreover have "tk_balance T token a (peer_tk w') = tk_balance T token a (peer_tk w) +
      (if token = lst_token l then (if a = mc_treasury c then fee else 0)
         + (if a = mc_financing_pool c then x - fee else 0) - (if a = i then x else 0) else 0)" for token a
    using mp_pay_balance [OF assms(1) *(12)] fee w' by simp
  moreover from mp_book_effect [OF *(13)] obtain evs where
    "s' = s\<lparr>mp_config := Some c,
      mp_contribution := (mp_contribution s)((k, i) \<mapsto> unwrap_or (mp_contribution s (k, i)) 0 + (x - fee)),
      mp_listing := (mp_listing s)(k \<mapsto> l\<lparr>lst_funded_amount := lst_funded_amount l + x,
        lst_is_active := (lst_is_active l \<and> \<not> full)\<rparr>), mp_events := mp_events s @ evs\<rparr>"
    by auto
  ultimately show ?thesis
    using * fee
    by (intro exI [of _ l] exI [of _ "l\<lparr>lst_funded_amount := lst_funded_amount l + x,
          lst_is_active := (lst_is_active l \<and> \<not> full)\<rparr>"] exI [of _ c] exI [of _ "s\<lparr>mp_config := Some c\<rparr>"]
          exI [of _ n] exI [of _ iv] exI [of _ "fst (get_tier_fee_bps s (inv_risk_tier iv))"] exI [of _ fee])
      (simp add: mp_get_config_def get_listing_def)
qed

theorem contribution_split_witness:
  "\<exists>s w s' w'. fund_invoice plain_token (open_env 400 60) 22 1 300 (s, w) = Ok (s', w') \<and>
     peer_tk (w' :: (Address \<Rightarrow> Address \<Rightarrow> i128) mp_world) 50 22 = peer_tk w 50 22 - 300"
proof -
  obtain s w s' w' where d: "ff_partly = Ok (s, w)"
      "fund_invoice plain_token (open_env 400 60) 22 1 300 (s, w) = Ok (s', w')"
      "\<exists>l. get_listing s 1 = Ok l \<and> lst_token l = 50"
      "\<exists>c s1. mp_get_config s = Ok (c, s1) \<and> mc_treasury c = 600 \<and> mc_financing_pool c = 500"
    using ff_fills by blast
  then obtain w0 where r: "mp_run plain_token 0 (mp_empty, w0) 50 (s, w)" using ff_partly_run by blast
  have "50 \<le> timestamp (open_env 400 60)" by simp
  from contribution_split [OF sep41_plain_token r this d(2)] d(3,4)
  have "peer_tk w' 50 22 = peer_tk w 50 22 - 300" by (auto simp: plain_token_def)
  with d(2) show ?thesis by blast
qed

text \<open>
  C12: the contribution that fills a listing opens the pool, and no other contribution does. In that
  call the listing becomes inactive, the financing pool, which had no pool for the invoice, gets an
  open one that owes the invoice's amount in the token of the listing, and the invoice goes from
  \<open>Listed\<close> to \<open>Funded\<close>. Any smaller contribution leaves the pools and the invoices alone and the
  listing active.
\<close>

theorem full_funding_opens_pool:
  assumes "fund_invoice T env i k x (s, w) = Ok (s', w')" "get_listing s k = Ok l"
  shows "\<exists>c s1 l'. mp_get_config s = Ok (c, s1) \<and> get_listing s' k = Ok l' \<and>
    (lst_is_active l' \<longleftrightarrow> lst_funded_amount l + x < lst_asking_price l) \<and>
    (if lst_is_active l' then peer_fp w' = peer_fp w \<and> peer_nft w' = peer_nft w
     else \<exists>f f' p iv. peer_fp w (mc_financing_pool c) = Some f \<and> get_pool f k = Err PoolNotFound \<and>
       peer_fp w' (mc_financing_pool c) = Some f' \<and> get_pool f' k = Ok p \<and> \<not> pool_is_closed p \<and>
       pool_token p = lst_token l \<and> pool_repaid_amount p = 0 \<and>
       fp_load_invoice w f k = Ok iv \<and> inv_status iv = Listed \<and> pool_total_owed p = inv_amount iv \<and>
       fp_load_invoice w' f' k = Ok (iv\<lparr>inv_status := Funded, inv_funded_at := Some (timestamp env)\<rparr>))"
proof -
  from fund_effect [OF assms(1)] assms(2) obtain c fee w1 full where
    *: "lst_is_active l" "load_config s = Ok (c, s\<lparr>mp_config := Some c\<rparr>)"
      "mp_pay T env c (lst_token l) i fee (x - fee) w = Ok w1" "0 \<le> fee"
      "mp_book_contribution env i k x fee (x - fee) l (s\<lparr>mp_config := Some c\<rparr>) = Ok (full, s')"
      "if full then mp_release env c k (lst_token l) w1 = Ok w' else w' = w1"
    by (fastforce simp: get_listing_def dest: bps_of_normalized_nonneg)
  let ?l = "l\<lparr>lst_funded_amount := lst_funded_amount l + x, lst_is_active := (lst_is_active l \<and> \<not> full)\<rparr>"
  have s': "get_listing s' k = Ok ?l" "full = (lst_asking_price l \<le> lst_funded_amount l + x)"
    using mp_book_effect [OF *(5)] by (auto simp: get_listing_def)
  from mp_pay_effect [OF *(3,4)] obtain tk tr where w1: "w1 = w\<lparr>peer_tk := tk, peer_tr := tr\<rparr>" by blast
  have "\<exists>f f' p iv. peer_fp w (mc_financing_pool c) = Some f \<and> get_pool f k = Err PoolNotFound \<and>
       peer_fp w' (mc_financing_pool c) = Some f' \<and> get_pool f' k = Ok p \<and> \<not> pool_is_closed p \<and>
       pool_token p = lst_token l \<and> pool_repaid_amount p = 0 \<and>
       fp_load_invoice w f k = Ok iv \<and> inv_status iv = Listed \<and> pool_total_owed p = inv_amount iv \<and>
       fp_load_invoice w' f' k = Ok (iv\<lparr>inv_status := Funded, inv_funded_at := Some (timestamp env)\<rparr>)"
    if full
    using *(6) that mp_release_opens [of env c k "lst_token l" w1 w'] by (simp add: w1 fp_load_invoice_def)
  with *(1,2,6) s' w1 show ?thesis
    by (intro exI [of _ c] exI [of _ "s\<lparr>mp_config := Some c\<rparr>"] exI [of _ ?l]) (auto simp: mp_get_config_def)
qed

theorem full_funding_opens_pool_witness:
  "\<exists>s w s' w' f p. fund_invoice plain_token (open_env 400 60) 22 1 300
       (s, w :: (Address \<Rightarrow> Address \<Rightarrow> i128) mp_world) = Ok (s', w') \<and>
     peer_fp w' 500 = Some f \<and> get_pool f 1 = Ok p \<and> \<not> pool_is_closed p"
proof -
  obtain s w s' w' l c s1 where d: "ff_partly = Ok (s, w)"
      "fund_invoice plain_token (open_env 400 60) 22 1 300 (s, w) = Ok (s', w')"
      "get_listing s 1 = Ok l" "lst_funded_amount l = 600" "lst_asking_price l = 900"
      "mp_get_config s = Ok (c, s1)" "mc_financing_pool c = 500"
    using ff_fills by blast
  from full_funding_opens_pool [OF d(2,3)] d(4-7) have "\<exists>f p. peer_fp w' 500 = Some f \<and>
      get_pool f 1 = Ok p \<and> \<not> pool_is_closed p" by fastforce
  with d(2) show ?thesis by blast
qed

text \<open>
  C14: a refund pays the investor exactly the recorded net contribution, out of the pool's balance, and
  only for a listing that missed its price and whose deadline passed or whose cancellation was
  confirmed. Whatever happens later, the same investor is not refunded a second time for that
  listing, and nobody can fund it any more.
\<close>

theorem refund_once:
  assumes "sep41 T" "mp_run T t (mp_empty, w0) u (s, w)" "u \<le> timestamp env"
    "claim_refund T env i k (s, w) = Ok (s1, w1)" "mp_run T (timestamp env) (s1, w1) v (s2, w2)"
    "v \<le> timestamp env'"
  shows "(\<exists>l c x. get_listing s k = Ok l \<and> authorised env i \<and> lst_funded_amount l < lst_asking_price l \<and>
      (mp_cancellation_confirmed s k = Some True \<or> lst_funding_deadline l < timestamp env) \<and>
      mp_contribution s (k, i) = Some x \<and> 0 < x \<and> x \<le> lst_funded_amount l \<and> mp_config s1 = Some c \<and>
      (\<forall>token a. tk_balance T token a (peer_tk w1) = tk_balance T token a (peer_tk w) +
        (if token = lst_token l then (if a = i then x else 0) - (if a = mc_financing_pool c then x else 0)
         else 0))) \<and>
    claim_refund T env' i k (s2, w2) \<noteq> Ok y \<and> fund_invoice T env' j k z (s2, w2) \<noteq> Ok y"
proof -
  have inv: "mp_inv u s" using mp_run_inv [OF assms(2)] mp_empty_inv by simp
  from claim_refund_effect [OF assms(4)] obtain l c x tk where
    *: "authorised env i" "mp_listing s k = Some l" "lst_funded_amount l < lst_asking_price l"
      "mp_cancellation_confirmed s k = Some True \<or> lst_funding_deadline l < timestamp env"
      "mp_contribution s (k, i) = Some x" "0 < x" "mp_config s1 = Some c"
      "token_transfer T env (lst_token l) (mc_financing_pool c) i x (peer_tk w) = Ok tk" "w1 = w\<lparr>peer_tk := tk\<rparr>"
      "mp_refund_claimed s1 = (mp_refund_claimed s)((k, i) \<mapsto> True)"
    by auto
  have "x \<le> lst_funded_amount l" using backer_bound [OF inv *(2,5)] .
  then have pays: "\<exists>l c x. get_listing s k = Ok l \<and> authorised env i \<and> lst_funded_amount l < lst_asking_price l \<and>
      (mp_cancellation_confirmed s k = Some True \<or> lst_funding_deadline l < timestamp env) \<and>
      mp_contribution s (k, i) = Some x \<and> 0 < x \<and> x \<le> lst_funded_amount l \<and> mp_config s1 = Some c \<and>
      (\<forall>token a. tk_balance T token a (peer_tk w1) = tk_balance T token a (peer_tk w) +
        (if token = lst_token l then (if a = i then x else 0) - (if a = mc_financing_pool c then x else 0)
         else 0))"
    using * sep41_transfer(3) [OF assms(1) *(8)]
    by (intro exI [of _ l] exI [of _ c] exI [of _ x]) (auto simp: get_listing_def)
  have "mp_inv (timestamp env) s1"
    using claim_refund_inv [OF assms(4) mp_inv_later [OF inv assms(3)]] .
  then have inv2: "mp_inv v s2" using mp_run_inv [OF assms(5)] by simp
  have claimed: "mp_refund_claimed s2 (k, i) = Some True"
    using mp_run_forward [OF assms(5), of k] *(10) by (auto simp: mp_forward_def)
  then obtain m where "mp_listing s2 k = Some m" "\<not> lst_is_active m \<or> lst_funding_deadline m < timestamp env'"
    using inv2 assms(6) unfolding mp_inv_def refunds_ok_def by (meson order_less_le_trans)
  then have "fund_invoice T env' j k z (s2, w2) \<noteq> Ok y"
    by (cases y) (auto dest!: fund_effect)
  moreover have "claim_refund T env' i k (s2, w2) \<noteq> Ok y"
    using claimed by (cases y) (auto dest!: claim_refund_effect)
  ultimately show ?thesis using pays by blast
qed

theorem refund_once_witness:
  "\<exists>s w s1 w1. claim_refund plain_token (open_env 400 6000) 21 1 (s, w) = Ok (s1, w1) \<and>
     mp_contribution s (1, 21) = Some 597 \<and>
     peer_tk (w1 :: (Address \<Rightarrow> Address \<Rightarrow> i128) mp_world) 50 21 = peer_tk w 50 21 + 597 \<and>
     (\<forall>y. claim_refund plain_token (open_env 400 6001) 21 1 (s1, w1) \<noteq> Ok y)"
proof -
  obtain s w s1 w1 where d: "ff_partly = Ok (s, w)"
      "claim_refund plain_token (open_env 400 6000) 21 1 (s, w) = Ok (s1, w1)"
      "mp_contribution s (1, 21) = Some 597" "\<exists>l. get_listing s 1 = Ok l \<and> lst_token l = 50"
      "\<exists>c. mp_config s1 = Some c \<and> mc_financing_pool c = 500"
    using ff_refunds by blast
  then obtain w0 where r: "mp_run plain_token 0 (mp_empty, w0) 50 (s, w)" using ff_partly_run by blast
  have le: "50 \<le> timestamp (open_env 400 6000)" "timestamp (open_env 400 6000) \<le> timestamp (open_env 400 6001)"
    by simp_all
  note once = refund_once [OF sep41_plain_token r le(1) d(2) mp_here le(2)]
  have "peer_tk w1 50 21 = peer_tk w 50 21 + 597"
    using once d(3-5) by (auto simp: plain_token_def)
  moreover have "\<forall>y. claim_refund plain_token (open_env 400 6001) 21 1 (s1, w1) \<noteq> Ok y" using once by blast
  ultimately show ?thesis using d(2,3) by blast
qed

text \<open>
  C31: a refund needs the authorisation of the financing pool's address, from whose balance it is paid.
  The marketplace does not act for that address (it is another contract, which does not sign
  transactions and is not called), so that without such an authorisation no claim succeeds.
\<close>

theorem refund_needs_pool_authorisation:
  assumes "sep41 T" "mp_get_config s = Ok (c, s1)" "get_listing s k = Ok l"
    "self env \<noteq> mc_financing_pool c" "\<not> auth env (lst_token l) (mc_financing_pool c)"
  shows "claim_refund T env i k (s, w) \<noteq> Ok y"
proof
  assume ok: "claim_refund T env i k (s, w) = Ok y"
  obtain s' w' where y: "y = (s', w')" by fastforce
  from claim_refund_effect [OF ok [unfolded y]] assms(3) obtain c' x tk where
    *: "mp_config s' = Some c'" "token_transfer T env (lst_token l) (mc_financing_pool c') i x (peer_tk w) = Ok tk"
    by (auto simp: get_listing_def)
  have "c' = c" using claim_refund_config [OF ok [unfolded y]] *(1) assms(2) by (auto simp: mp_get_config_def)
  with sep41_transfer(2) [OF assms(1) *(2)] assms(4,5) show False by (simp add: authorised_def)
qed

theorem refund_needs_pool_authorisation_witness:
  "\<exists>s w. (\<exists>x. mp_contribution s (1, 21) = Some x \<and> 0 < x) \<and>
     (\<forall>y. claim_refund plain_token \<lparr>self = 400, invoker = None, timestamp = 6000, auth = (\<lambda>_ a. a = 21)\<rparr> 21 1
        (s, w :: (Address \<Rightarrow> Address \<Rightarrow> i128) mp_world) \<noteq> Ok y)"
proof -
  obtain s w l c s1 where d: "ff_partly = Ok (s, w)" "get_listing s 1 = Ok l" "mp_get_config s = Ok (c, s1)"
      "mc_financing_pool c = 500"
    using ff_fills by blast
  have "mp_contribution s (1, 21) = Some 597" using ff_partly_state unfolding d(1) by auto
  moreover have "claim_refund plain_token \<lparr>self = 400, invoker = None, timestamp = 6000, auth = (\<lambda>_ a. a = 21)\<rparr> 21 1
        (s, w) \<noteq> Ok y" for y
    using refund_needs_pool_authorisation [OF sep41_plain_token d(3,2)] d(4) by simp
  ultimately show ?thesis by (intro exI [of _ s] exI [of _ w]) auto
qed

text \<open>
  A listing that is not active any more (full or cancelled) is final: along every run its record
  does not change, and it cannot be funded, cancelled, requested or confirmed for cancellation, nor
  can the invoice be listed again.
\<close>

theorem inactive_listing_final:
  assumes "mp_run T t (s, w) u (s', w')" "get_listing s k = Ok l" "\<not> lst_is_active l"
  shows "get_listing s' k = Ok l \<and> fund_invoice T env i k x (s', w') \<noteq> Ok y \<and>
    list_invoice env i k x z token deadline ref (s', w') \<noteq> Ok y \<and> cancel_listing env i k s' \<noteq> Ok r \<and>
    request_cancellation env i k s' \<noteq> Ok r \<and> admin_confirm_cancellation env i k s' \<noteq> Ok r"
proof -
  have "mp_listing s' k = Some l"
    using mp_run_forward [OF assms(1), of k] assms(2,3) by (auto simp: mp_forward_def get_listing_def)
  with assms(3) show ?thesis
    by (cases y) (auto simp: get_listing_def dest!: fund_effect list_invoice_effect cancel_listing_effect
        request_cancellation_effect admin_confirm_effect)
qed

theorem inactive_listing_final_witness:
  "\<exists>s s' l. cancel_listing (open_env 400 60) 9 1 s = Ok s' \<and> get_listing s' 1 = Ok l \<and> \<not> lst_is_active l \<and>
     (\<forall>y w. list_invoice (open_env 400 70) 9 1 900 1000 50 5000 None
        (s', w :: (Address \<Rightarrow> Address \<Rightarrow> i128) mp_world) \<noteq> Ok y)"
proof -
  obtain s w s' l where d: "ff_partly = Ok (s, w)" "cancel_listing (open_env 400 60) 9 1 s = Ok s'"
      "get_listing s' 1 = Ok l" "\<not> lst_is_active l"
    using ff_cancels by blast
  have "list_invoice (open_env 400 70) 9 1 900 1000 50 5000 None
        (s', w :: (Address \<Rightarrow> Address \<Rightarrow> i128) mp_world) \<noteq> Ok y" for w y
    using inactive_listing_final [OF mp_here [of plain_token 60 "(s', w)"] d(3,4)] by blast
  with d show ?thesis by blast
qed

text \<open>
  Cancelling in one step keeps the investors waiting. After a \<open>cancel_listing\<close>, which seller or
  admin may call on a partly funded listing as well, no refund of that listing succeeds before its
  funding deadline has passed, whatever else is called: the confirmation that would allow it can
  no longer be given.
\<close>

theorem one_step_cancellation_waits:
  assumes "mp_run T t (mp_empty, w0) u (s, w)" "cancel_listing env a k s = Ok s1" "get_listing s k = Ok l"
    "mp_run T t' (s1, w1) v (s2, w2)" "timestamp env' \<le> lst_funding_deadline l"
  shows "claim_refund T env' i k (s2, w2) \<noteq> Ok y"
proof -
  have inv: "mp_inv u s" using mp_run_inv [OF assms(1)] mp_empty_inv by simp
  from cancel_listing_effect [OF assms(2)] assms(3) obtain c where
    *: "lst_is_active l" "mp_listing s k = Some l" "s1 = mp_emit (listing_cancelled env k (lst_seller l))
      (put_listing k (l\<lparr>lst_is_active := False\<rparr>) (s\<lparr>mp_config := Some c\<rparr>))"
    by (auto simp: get_listing_def)
  have "mp_cancellation_confirmed s k \<noteq> Some True"
    using inv *(1,2) by (auto simp: mp_inv_def refunds_ok_def)
  with *(3) mp_run_forward [OF assms(4), of k]
  have "mp_listing s2 k = Some (l\<lparr>lst_is_active := False\<rparr>)" "mp_cancellation_confirmed s2 k \<noteq> Some True"
    by (auto simp: mp_forward_def)
  with assms(5) show ?thesis by (cases y) (auto dest!: claim_refund_effect)
qed

theorem one_step_cancellation_waits_witness:
  "\<exists>s w s1. cancel_listing (open_env 400 60) 9 1 s = Ok s1 \<and> (\<exists>x. mp_contribution s (1, 21) = Some x \<and> 0 < x) \<and>
     (\<forall>y. claim_refund plain_token (open_env 400 70) 21 1
        (s1, w :: (Address \<Rightarrow> Address \<Rightarrow> i128) mp_world) \<noteq> Ok y)"
proof -
  obtain s w s1 l where d: "ff_partly = Ok (s, w)" "cancel_listing (open_env 400 60) 9 1 s = Ok s1"
      "get_listing s 1 = Ok l" "lst_funding_deadline l = 5000" "mp_contribution s (1, 21) = Some 597"
    using ff_cancels by blast
  then obtain w0 where r: "mp_run plain_token 0 (mp_empty, w0) 50 (s, w)" using ff_partly_run by blast
  have "claim_refund plain_token (open_env 400 70) 21 1 (s1, w) \<noteq> Ok y" for y
    using one_step_cancellation_waits [OF r d(2,3) mp_here [of plain_token 60 "(s1, w)"]] d(4) by simp
  with d(2,5) show ?thesis by (intro exI [of _ s] exI [of _ w] exI [of _ s1]) auto
qed

end
