(* ===== verification/Kora_Protocol.thy ===== *)
theory Kora_Protocol
  imports Funding_Flow
begin

text \<open>
  The three contracts that hold the life of an invoice together: the marketplace, the financing pool
  and the invoice contract, deployed at fixed addresses that know each other
  (\<^verbatim>\<open>docs/TESTNET_GUIDE.md\<close>). A step of the protocol is a call of one entry point of one of the three,
  with all the calls it makes, or any change of the rest of the world. The lemmas show that every step
  keeps what the three contracts agree on about an invoice (\<open>agree\<close>), and that a run of the protocol is,
  seen from each contract, a run of that contract.
\<close>

section \<open>The deployed protocol\<close>

record deployment =
  dp_marketplace :: Address
  dp_pool :: Address
  dp_nft :: Address

text \<open>A contract has no key: it authorises a call only by making it. An invocation from outside the
  protocol is thus neither made nor signed by one of the three.\<close>

definition outside :: "deployment \<Rightarrow> env \<Rightarrow> bool" where
  "outside D env \<longleftrightarrow> (\<forall>c\<in>{dp_marketplace D, dp_pool D, dp_nft D}.
     invoker env \<noteq> Some c \<and> (\<forall>x. \<not> auth env x c))"

lemma outside_authorised:
  "outside D env \<Longrightarrow> \<not> authorised env (dp_marketplace D) \<and> \<not> authorised env (dp_pool D)"
  by (auto simp: outside_def authorised_def)

text \<open>The addresses that the contracts store, once they are set.\<close>

definition wired :: "deployment \<Rightarrow> mp_state \<times> 'tk mp_world \<Rightarrow> bool" where
  "wired D x \<longleftrightarrow>
     (\<forall>c s. load_config (fst x) = Ok (c, s) \<longrightarrow>
        mc_invoice_nft c = dp_nft D \<and> mc_financing_pool c = dp_pool D) \<and>
     (\<forall>f. peer_fp (snd x) (dp_pool D) = Some f \<longrightarrow> fp_invoice_nft f \<in> {None, Some (dp_nft D)}) \<and>
     (\<forall>n. peer_nft (snd x) (dp_nft D) = Some n \<longrightarrow>
        nft_marketplace n \<in> {None, Some (dp_marketplace D)} \<and>
        nft_financing_pool n \<in> {None, Some (dp_pool D)})"

definition deployed_new :: "deployment \<Rightarrow> mp_state \<times> 'tk mp_world \<Rightarrow> bool" where
  "deployed_new D x \<longleftrightarrow> fst x = mp_empty \<and> peer_fp (snd x) (dp_pool D) = Some fp_empty \<and>
     peer_nft (snd x) (dp_nft D) = Some nft_empty"

inductive kora_step ::
    "'tk token_api \<Rightarrow> deployment \<Rightarrow> env \<Rightarrow> mp_state \<times> 'tk mp_world \<Rightarrow> mp_state \<times> 'tk mp_world \<Rightarrow> bool"
  for T :: "'tk token_api" and D :: deployment and env :: env where
  ks_marketplace: "self env = dp_marketplace D \<Longrightarrow> mp_entry T env (s, w) (s', w') \<Longrightarrow>
    kora_step T D env (s, w) (s', w')"
| ks_pool: "self env = dp_pool D \<Longrightarrow> peer_fp w (dp_pool D) = Some f \<Longrightarrow> fp_entry T env (f, w) (f', w') \<Longrightarrow>
    kora_step T D env (s, w) (s, w'\<lparr>peer_fp := (peer_fp w')(dp_pool D \<mapsto> f')\<rparr>)"
| ks_nft: "self env = dp_nft D \<Longrightarrow> peer_nft w (dp_nft D) = Some n \<Longrightarrow>
    nft_entry (peer_ac w) (peer_rr w) env n n' \<Longrightarrow>
    kora_step T D env (s, w) (s, w\<lparr>peer_nft := (peer_nft w)(dp_nft D \<mapsto> n')\<rparr>)"
| ks_other: "peer_nft w' (dp_nft D) = peer_nft w (dp_nft D) \<Longrightarrow>
    peer_fp w' (dp_pool D) = peer_fp w (dp_pool D) \<Longrightarrow> kora_step T D env (s, w) (s, w')"

text \<open>Ledger time does not decrease along a run, and the wiring holds in each of its states.\<close>

inductive kora_run ::
    "'tk token_api \<Rightarrow> deployment \<Rightarrow> u64 \<Rightarrow> mp_state \<times> 'tk mp_world \<Rightarrow> u64 \<Rightarrow> mp_state \<times> 'tk mp_world \<Rightarrow> bool"
  for T :: "'tk token_api" and D :: deployment where
  kr_here: "wired D x \<Longrightarrow> kora_run T D t x t x"
| kr_more: "kora_run T D t x u y \<Longrightarrow> u \<le> timestamp env \<Longrightarrow> outside D env \<Longrightarrow> kora_step T D env y z \<Longrightarrow>
    wired D z \<Longrightarrow> kora_run T D t x (timestamp env) z"

section \<open>What the contracts agree on\<close>

text \<open>The pool that belongs to a status: none, an open one or a closed one.\<close>

fun pool_phase :: "InvoiceStatus \<Rightarrow> bool option" where
  "pool_phase Created = None"
| "pool_phase Listed = None"
| "pool_phase Funded = Some False"
| "pool_phase Repaid = Some True"
| "pool_phase Defaulted = Some False"

definition agree :: "Listing option \<Rightarrow> StoredInvoice option \<Rightarrow> Pool option \<Rightarrow> bool" where
  "agree l x p =
     (case x of
        None \<Rightarrow> l = None \<and> p = None
      | Some (StoredV1 _) \<Rightarrow> False
      | Some (StoredV2 i) \<Rightarrow> (l = None \<longleftrightarrow> inv_status i = Created) \<and>
          map_option pool_is_closed p = pool_phase (inv_status i) \<and>
          (\<forall>q. p = Some q \<longrightarrow> pool_face_value q = inv_amount i) \<and>
          (\<forall>m. l = Some m \<longrightarrow> lst_face_value m = inv_amount i \<and>
             (lst_asking_price m \<le> lst_funded_amount m \<longrightarrow> p \<noteq> None)))"

lemma agree_None [simp]: "agree l None p \<longleftrightarrow> l = None \<and> p = None"
  by (simp add: agree_def)

lemma agree_V2:
  "agree l (Some (StoredV2 i)) p \<longleftrightarrow> (l = None \<longleftrightarrow> inv_status i = Created) \<and>
     map_option pool_is_closed p = pool_phase (inv_status i) \<and>
     (\<forall>q. p = Some q \<longrightarrow> pool_face_value q = inv_amount i) \<and>
     (\<forall>m. l = Some m \<longrightarrow> lst_face_value m = inv_amount i \<and>
        (lst_asking_price m \<le> lst_funded_amount m \<longrightarrow> p \<noteq> None))"
  by (simp add: agree_def)

definition coherent :: "mp_state \<Rightarrow> fp_state \<Rightarrow> nft_state \<Rightarrow> bool" where
  "coherent s f n \<longleftrightarrow> nft_inv n \<and> (\<forall>k. agree (mp_listing s k) (nft_invoice n k) (fp_pool f k))"

lemma coherentD: "coherent s f n \<Longrightarrow> agree (mp_listing s k) (nft_invoice n k) (fp_pool f k)"
  by (simp add: coherent_def)

lemma coherent_empty: "coherent mp_empty fp_empty nft_empty"
  using nft_empty_inv by (simp add: coherent_def mp_empty_def fp_empty_def nft_empty_def)

section \<open>Every step keeps the agreement\<close>

subsection \<open>Calls of the invoice contract\<close>

text \<open>From outside the protocol only invoices in status \<open>Created\<close> can be changed, and funded ones
  defaulted by the admin.\<close>

lemma nft_entry_agree:
  assumes "nft_entry acs rrs env n n'" "nft_inv n"
    "\<forall>a. nft_marketplace n = Some a \<or> nft_financing_pool n = Some a \<longrightarrow> \<not> authorised env a"
    "agree l (nft_invoice n k) p"
  shows "agree l (nft_invoice n' k) p"
  using assms
proof (induction rule: nft_entry.induct)
  case (4 a h x cur due cid r memo s j s')
  have "nft_invoice s (next_id s) = None"
    using 4(2) by (cases "nft_invoice s (next_id s)") (auto simp: nft_inv_def)
  with 4 show ?case by (auto simp: mint_invoice_eq_Ok minted_def agree_V2)
next
  case (18 D a s s')
  from migrate_effect(5) [OF 18(1,2)] nft_inv_migrated [OF 18(3)] 18(5) show ?case by simp
next
  case (5 a j h x due cid r s s')
  from amend_invoice_effect [OF 5(1)] 5(4) show ?case by (auto simp: agree_V2)
next
  case (6 a j s s')
  from withdraw_invoice_effect [OF 6(1)] 6(4) show ?case
    by (auto simp: agree_V2 nft_release_exposure_def)
next
  case (7 a j s s')
  from set_listed_effect [OF 7(1)] 7(3) show ?case by auto
next
  case (8 a j s s')
  from set_funded_effect [OF 8(1)] 8(3) show ?case by auto
next
  case (9 a j s s')
  from set_repaid_effect [OF 9(1)] 9(3) show ?case by auto
next
  case (10 a j s s')
  from set_defaulted_effect [OF 10(1)] 10(4) show ?case
    by (auto simp: agree_V2 nft_release_exposure_def)
next
  case (11 a j h s s')
  from commit_metadata_hash_effect [OF 11(1)] 11(4) show ?case by (auto simp: agree_V2)
qed (auto simp: nft_initialize_def set_risk_registry_def set_authorized_callers_def freeze_invoice_def
    unfreeze_invoice_def add_allowed_currency_def remove_allowed_currency_def nft_propose_upgrade_def
    nft_execute_upgrade_def Let_def split: if_splits)

subsection \<open>Calls of the pool\<close>

text \<open>The calls of the pool that change the status of an invoice, and how a pool follows it.\<close>

lemma agree_funded:
  assumes "set_funded acs env a k n = Ok n'" "agree l (nft_invoice n k) p" "get_invoice n k = Ok i"
    "\<not> pool_is_closed q" "pool_face_value q = inv_amount i"
  shows "agree l (nft_invoice n' k) (Some q)"
  using set_funded_effect [OF assms(1)] assms(2-5) by (auto simp: agree_V2 get_invoice_def)

lemma agree_repaid:
  assumes "set_repaid acs env a k n = Ok n'" "agree l (nft_invoice n k) (Some p)"
    "pool_is_closed q" "pool_face_value q = pool_face_value p"
  shows "agree l (nft_invoice n' k) (Some q)"
  using set_repaid_effect [OF assms(1)] assms(2-4) by (auto simp: agree_V2 nft_release_exposure_def)

lemma agree_defaulted:
  assumes "set_defaulted env a k n = Ok n'" "agree l (nft_invoice n k) p"
  shows "agree l (nft_invoice n' k) p"
  using set_defaulted_effect [OF assms(1)] assms(2) by (auto simp: agree_V2 nft_release_exposure_def)

lemma agree_same_phase:
  "agree l x (Some p) \<Longrightarrow> pool_is_closed q = pool_is_closed p \<Longrightarrow> pool_face_value q = pool_face_value p \<Longrightarrow>
     agree l x (Some q)"
  by (auto simp: agree_def split: option.splits StoredInvoice.splits)

text \<open>The other slots of the table.\<close>

lemma status_calls_elsewhere:
  "set_listed acs env a k n = Ok n' \<Longrightarrow> j \<noteq> k \<Longrightarrow> nft_invoice n' j = nft_invoice n j"
  "set_funded acs env a k n = Ok n' \<Longrightarrow> j \<noteq> k \<Longrightarrow> nft_invoice n' j = nft_invoice n j"
  "set_repaid acs env a k n = Ok n' \<Longrightarrow> j \<noteq> k \<Longrightarrow> nft_invoice n' j = nft_invoice n j"
  "set_defaulted env a k n = Ok n' \<Longrightarrow> j \<noteq> k \<Longrightarrow> nft_invoice n' j = nft_invoice n j"
  by (auto simp: nft_release_exposure_def dest!: nft_effects)

lemma status_calls_inv:
  "set_listed acs env a k n = Ok n' \<Longrightarrow> nft_inv n \<Longrightarrow> nft_inv n'"
  "set_funded acs env a k n = Ok n' \<Longrightarrow> nft_inv n \<Longrightarrow> nft_inv n'"
  "set_repaid acs env a k n = Ok n' \<Longrightarrow> nft_inv n \<Longrightarrow> nft_inv n'"
  "set_defaulted env a k n = Ok n' \<Longrightarrow> nft_inv n \<Longrightarrow> nft_inv n'"
  by (blast intro: nft_entry_inv nft_entry.intros(7-10))+

text \<open>What happens to the invoice contract in one step: nothing, or one call.\<close>

definition nft_moves :: "u64 \<Rightarrow> nft_state \<Rightarrow> nft_state \<Rightarrow> bool" where
  "nft_moves t n n' \<longleftrightarrow> n' = n \<or> nft_step t n n'"

lemma nft_moves_refl [simp]: "nft_moves t n n"
  by (simp add: nft_moves_def)

lemma status_calls_move:
  "set_listed acs env a k n = Ok n' \<Longrightarrow> nft_moves (timestamp env) n n'"
  "set_funded acs env a k n = Ok n' \<Longrightarrow> nft_moves (timestamp env) n n'"
  "set_repaid acs env a k n = Ok n' \<Longrightarrow> nft_moves (timestamp env) n n'"
  "set_defaulted env a k n = Ok n' \<Longrightarrow> nft_moves (timestamp env) n n'"
  unfolding nft_moves_def by (blast intro: nft_call nft_entry.intros(7-10))+

lemma coherent_slot:
  assumes "coherent s f n" "nft_inv n'" "\<And>j. j \<noteq> k \<Longrightarrow> nft_invoice n' j = nft_invoice n j"
    "\<And>j. j \<noteq> k \<Longrightarrow> fp_pool f' j = fp_pool f j" "\<And>j. j \<noteq> k \<Longrightarrow> mp_listing s' j = mp_listing s j"
    "agree (mp_listing s' k) (nft_invoice n' k) (fp_pool f' k)"
  shows "coherent s' f' n'"
  unfolding coherent_def
proof (intro conjI allI)
  fix j
  show "agree (mp_listing s' j) (nft_invoice n' j) (fp_pool f' j)"
    using assms(3-6) coherentD [OF assms(1), of j] by (cases "j = k") auto
qed (rule assms(2))

lemma coherent_same:
  "coherent s f n \<Longrightarrow> fp_pool f' = fp_pool f \<Longrightarrow> mp_listing s' = mp_listing s \<Longrightarrow> coherent s' f' n"
  by (simp add: coherent_def)

lemma coherent_frame [simp]:
  "coherent (s\<lparr>mp_config := x1\<rparr>) f n = coherent s f n"
  "coherent (s\<lparr>mp_events := x2\<rparr>) f n = coherent s f n"
  "coherent (s\<lparr>mp_refund_claimed := x3\<rparr>) f n = coherent s f n"
  "coherent (s\<lparr>mp_whitelisted := x4\<rparr>) f n = coherent s f n"
  "coherent (s\<lparr>mp_tier_fee_bps := x5\<rparr>) f n = coherent s f n"
  "coherent (s\<lparr>mp_upgrade_proposal := x6\<rparr>) f n = coherent s f n"
  "coherent (s\<lparr>mp_code := x7\<rparr>) f n = coherent s f n"
  "coherent (s\<lparr>mp_cancellation_request := x8\<rparr>) f n = coherent s f n"
  "coherent (s\<lparr>mp_cancellation_confirmed := x9\<rparr>) f n = coherent s f n"
  "coherent (s\<lparr>mp_admin := b1, mp_invoice_nft := b2, mp_financing_pool := b3, mp_treasury := b4,
     mp_fee_bps := b5, mp_access_control := b6, mp_risk_registry := b7\<rparr>) f n = coherent s f n"
  by (simp_all add: coherent_def)

text \<open>A settlement closes the pool and turns the invoice to \<open>Repaid\<close> in the same call.\<close>

lemma settled_coherent:
  assumes "settled T env k token r f w w'" "fp_invoice_nft f = Some a" "peer_nft w a = Some n"
    "coherent s f n" "fp_pool f k = Some p" "fp_pool f' = (fp_pool f)(k \<mapsto> q)" "pool_is_closed q"
    "pool_face_value q = pool_face_value p"
  shows "\<exists>n'. peer_nft w' a = Some n' \<and> coherent s f' n' \<and> nft_moves (timestamp env) n n'"
proof -
  from assms(1-3) obtain n' where n': "set_repaid (peer_ac w) (subcall env a) (self env) k n = Ok n'"
      "peer_nft w' a = Some n'"
    by (auto simp: settled_def)
  have "nft_inv n" using assms(4) by (simp add: coherent_def)
  moreover have "agree (mp_listing s k) (nft_invoice n' k) (fp_pool f' k)"
    using agree_repaid [OF n'(1) _ assms(7,8)] coherentD [OF assms(4), of k] assms(5,6) by simp
  ultimately have "coherent s f' n'"
    using n'(1) assms(6) status_calls_inv(3) status_calls_elsewhere(3)
    by (intro coherent_slot [OF assms(4), where k = k]) auto
  with n'(2) status_calls_move(3) [OF n'(1)] show ?thesis by simp
qed

lemma release_coherent:
  assumes "release_funds env m k token (f, w) = Ok (f', w')" "fp_invoice_nft f \<in> {None, Some a}"
    "peer_nft w a = Some n" "coherent s f n"
  shows "\<exists>n'. peer_nft w' a = Some n' \<and> coherent s f' n' \<and> nft_moves (timestamp env) n n'"
proof -
  from release_funds_effect [OF assms(1)] assms(2,3) obtain i q n' where
    *: "fp_load_invoice w f k = Ok i" "fp_pool f' = (fp_pool f)(k \<mapsto> q)" "pool_face_value q = inv_amount i"
      "\<not> pool_is_closed q" "set_funded (peer_ac w) (subcall env a) (self env) k n = Ok n'"
      "peer_nft w' a = Some n'" "fp_invoice_nft f = Some a"
    by fastforce
  have "get_invoice n k = Ok i" using *(1,7) assms(3) by (simp add: fp_load_invoice_def)
  from agree_funded [OF *(5) coherentD [OF assms(4)] this *(4,3)]
  have "coherent s f' n'"
    using *(2,5) status_calls_inv(2) status_calls_elsewhere(2) assms(4)
    by (intro coherent_slot [OF assms(4), where k = k]) (auto simp: coherent_def)
  with *(6) status_calls_move(2) [OF *(5)] show ?thesis by simp
qed

lemma repay_coherent:
  assumes "repay T env payer k token x (f, w) = Ok (f', w')" "fp_invoice_nft f \<in> {None, Some a}"
    "peer_nft w a = Some n" "coherent s f n"
  shows "\<exists>n'. peer_nft w' a = Some n' \<and> coherent s f' n' \<and> nft_moves (timestamp env) n n'"
proof -
  from repay_effect [OF assms(1)] assms(2) obtain p i eff p1 evs tk where
    *: "fp_pool f k = Some p" "\<not> pool_is_closed p" "apply_late_penalty env k i p = Ok (p1, evs)"
      "fp_pool f' = (fp_pool f)(k \<mapsto> p1\<lparr>pool_repaid_amount := pool_repaid_amount p1 + eff,
        pool_is_closed := (pool_total_owed p1 \<le> pool_repaid_amount p1 + eff \<or> pool_is_closed p1)\<rparr>)"
      "if pool_total_owed p1 \<le> pool_repaid_amount p1 + eff
       then settled T env k token (pool_repaid_amount p1 + eff) f (w\<lparr>peer_tk := tk\<rparr>) w'
       else w' = w\<lparr>peer_tk := tk\<rparr>"
      "fp_invoice_nft f = Some a"
    unfolding Let_def by (metis insertE option.distinct(1) singletonD)
  have p1: "pool_face_value p1 = pool_face_value p" "\<not> pool_is_closed p1"
    using apply_late_penalty_effect [OF *(3)] *(2) by auto
  show ?thesis
  proof (cases "pool_total_owed p1 \<le> pool_repaid_amount p1 + eff")
    case True
    with *(5) have "settled T env k token (pool_repaid_amount p1 + eff) f (w\<lparr>peer_tk := tk\<rparr>) w'" by simp
    from settled_coherent [OF this *(6) _ assms(4) *(1,4)] True p1 assms(3) show ?thesis by simp
  next
    case False
    have "agree (mp_listing s k) (nft_invoice n k) (fp_pool f' k)"
      using coherentD [OF assms(4), of k] *(1,2,4) p1 False
      by (auto elim!: agree_same_phase)
    then have "coherent s f' n"
      using *(4) assms(4) by (intro coherent_slot [OF assms(4), where k = k]) (auto simp: coherent_def)
    with False *(5) assms(3) show ?thesis by simp
  qed
qed

lemma accept_coherent:
  assumes "accept_early_settlement T env ivr k (f, w) = Ok (f', w')" "fp_invoice_nft f \<in> {None, Some a}"
    "peer_nft w a = Some n" "coherent s f n"
  shows "\<exists>n'. peer_nft w' a = Some n' \<and> coherent s f' n' \<and> nft_moves (timestamp env) n n'"
proof -
  from accept_effect [OF assms(1)] obtain off p and b :: u32 where p: "fp_pool f k = Some p" and
    *: "if 10000 \<le> b then
         fp_pool f' = (fp_pool f)(k \<mapsto> p\<lparr>pool_repaid_amount := eso_amount off, pool_is_closed := True\<rparr>) \<and>
         settled T env k (pool_token p) (eso_amount off) f w w' \<and>
         fp_early_settlement f' = (fp_early_settlement f)(k := None)
       else fp_pool f' = fp_pool f \<and> w' = w \<and> fp_early_settlement f' = (fp_early_settlement f)(k \<mapsto>
         off\<lparr>eso_accepted := eso_accepted off @ [ivr], eso_accepted_bps := b\<rparr>)"
    by blast
  show ?thesis
  proof (cases "10000 \<le> b")
    case True
    with * have q: "settled T env k (pool_token p) (eso_amount off) f w w'"
        "fp_pool f' = (fp_pool f)(k \<mapsto> p\<lparr>pool_repaid_amount := eso_amount off, pool_is_closed := True\<rparr>)"
      by simp_all
    moreover from q(1) assms(2) have "fp_invoice_nft f = Some a" by (auto simp: settled_def)
    ultimately show ?thesis using settled_coherent [OF q(1) _ assms(3,4) p q(2)] by simp
  next
    case False
    with * have "fp_pool f' = fp_pool f" "w' = w" by simp_all
    with coherent_same [OF assms(4)] assms(3) show ?thesis by auto
  qed
qed

lemma mark_default_coherent:
  assumes "mark_default T env ad k token (f, w) = Ok (f', w')" "fp_invoice_nft f \<in> {None, Some a}"
    "peer_nft w a = Some n" "coherent s f n"
  shows "\<exists>n'. peer_nft w' a = Some n' \<and> coherent s f' n' \<and> nft_moves (timestamp env) n n'"
proof -
  from mark_default_effect [OF assms(1)] assms(2,3) obtain n' where
    *: "set_defaulted (subcall env a) ad k n = Ok n'" "peer_nft w' a = Some n'" "fp_pool f' = fp_pool f"
    by auto
  from agree_defaulted [OF *(1) coherentD [OF assms(4)]] have "coherent s f' n'"
    using *(1,3) status_calls_inv(4) status_calls_elsewhere(4) assms(4)
    by (intro coherent_slot [OF assms(4), where k = k]) (auto simp: coherent_def)
  with *(2) status_calls_move(4) [OF *(1)] show ?thesis by simp
qed

lemma fp_entry_coherent:
  assumes "fp_entry T env x y" "fp_invoice_nft (fst x) \<in> {None, Some a}" "peer_nft (snd x) a = Some n"
    "coherent s (fst x) n"
  shows "\<exists>n'. peer_nft (snd y) a = Some n' \<and> coherent s (fst y) n' \<and> nft_moves (timestamp env) n n'"
  using assms
proof (induction rule: fp_entry.induct)
  case (2 m k token f w f' w')
  then show ?case using release_coherent by simp
next
  case (5 b k token x f w f' w')
  then show ?case using repay_coherent by simp
next
  case (6 b k token f w f' w')
  then show ?case using mark_default_coherent by simp
next
  case (8 b k f w f' w')
  then show ?case using accept_coherent by simp
next
  case (4 w b k i c m f f')
  from record_position_effect [OF 4(1)] 4(3,4) show ?case by (auto elim!: coherent_same)
next
  case (7 b k x f w f' w')
  from propose_early_settlement_effect [OF 7(1)] 7(3,4) show ?case by (auto elim!: coherent_same)
next
  case (9 b k f w f' w')
  from cancel_early_settlement_effect [OF 9(1)] 9(3,4) show ?case by (auto elim!: coherent_same)
next
  case (11 b k c f w f' w')
  from buy_position_effect [OF 11(1)] 11(3,4) show ?case by (auto elim!: coherent_same)
qed (auto simp: fp_initialize_def set_max_position_bps_def list_position_for_sale_def
    fp_propose_upgrade_def fp_execute_upgrade_def Let_def elim!: coherent_same split: if_splits)

subsection \<open>Calls of the marketplace\<close>

text \<open>Seen from the pool, a call of the marketplace is a run: calls of the pool, and changes around it.\<close>

lemma fp_run_entry: "fp_entry T env x y \<Longrightarrow> fp_run T x y"
  by (rule fp_more [OF fp_here fp_call])

lemma fp_run_other: "fp_run T (f, w) (f, w')"
  by (rule fp_more [OF fp_here fp_other])

lemma fp_run_trans: "fp_run T y z \<Longrightarrow> fp_run T x y \<Longrightarrow> fp_run T x z"
  by (induction rule: fp_run.induct) (auto intro: fp_more)

lemma agree_listing:
  "agree (Some m) x p \<Longrightarrow> lst_face_value m' = lst_face_value m \<Longrightarrow>
     (lst_asking_price m' \<le> lst_funded_amount m' \<Longrightarrow> lst_asking_price m \<le> lst_funded_amount m \<or> p \<noteq> None) \<Longrightarrow>
     agree (Some m') x p"
  by (auto simp: agree_def split: option.splits StoredInvoice.splits)

lemma coherent_listing:
  assumes "coherent s f n" "mp_listing s k = Some m" "mp_listing s' = (mp_listing s)(k \<mapsto> m')"
    "lst_face_value m' = lst_face_value m"
    "lst_asking_price m' \<le> lst_funded_amount m' \<Longrightarrow>
       lst_asking_price m \<le> lst_funded_amount m \<or> fp_pool f k \<noteq> None"
  shows "coherent s' f n"
proof (rule coherent_slot [OF assms(1)])
  show "agree (mp_listing s' k) (nft_invoice n k) (fp_pool f k)"
    using agree_listing [OF _ assms(4,5)] coherentD [OF assms(1), of k] assms(2,3) by simp
qed (use assms in \<open>auto simp: coherent_def\<close>)

lemma list_coherent:
  assumes "list_invoice env seller k ask face token deadline ref (s, w) = Ok (s', w')"
    "\<forall>c s1. load_config s = Ok (c, s1) \<longrightarrow> mc_invoice_nft c = a" "peer_nft w a = Some n" "coherent s f n"
  shows "\<exists>n'. peer_nft w' a = Some n' \<and> coherent s' f n' \<and> nft_moves (timestamp env) n n' \<and>
    peer_fp w' = peer_fp w"
proof -
  from list_invoice_effect [OF assms(1)] obtain c n0 i n' l where
    *: "load_config s = Ok (c, s\<lparr>mp_config := Some c\<rparr>)" "peer_nft w (mc_invoice_nft c) = Some n0"
      "get_invoice n0 k = Ok i" "inv_amount i = face"
      "set_listed (peer_ac w) (subcall env (mc_invoice_nft c)) (self env) k n0 = Ok n'"
      "w' = w\<lparr>peer_nft := (peer_nft w)(mc_invoice_nft c \<mapsto> n')\<rparr>" "mp_listing s' = (mp_listing s)(k \<mapsto> l)"
      "lst_face_value l = face" "lst_funded_amount l = 0" "0 < lst_asking_price l" "mp_listing s k = None"
    by fastforce
  have a: "mc_invoice_nft c = a" "n0 = n" using *(1,2) assms(2,3) by auto
  have "agree (mp_listing s' k) (nft_invoice n' k) (fp_pool f k)"
    using set_listed_effect [OF *(5)] coherentD [OF assms(4), of k] *(3,4,7-11) a
    by (auto simp: agree_V2 get_invoice_def)
  then have "coherent s' f n'"
    using *(5,7) a status_calls_inv(1) status_calls_elsewhere(1) assms(4)
    by (intro coherent_slot [OF assms(4), where k = k]) (auto simp: coherent_def)
  with *(6) a status_calls_move(1) [OF *(5)] show ?thesis by simp
qed

lemma fund_coherent:
  assumes "fund_invoice T env i k x (s, w) = Ok (s', w')"
    "\<forall>c s1. load_config s = Ok (c, s1) \<longrightarrow> mc_invoice_nft c = a \<and> mc_financing_pool c = b"
    "peer_nft w a = Some n" "peer_fp w b = Some f" "fp_invoice_nft f \<in> {None, Some a}" "coherent s f n"
  shows "\<exists>n' f'. peer_nft w' a = Some n' \<and> peer_fp w' b = Some f' \<and> coherent s' f' n' \<and>
    nft_moves (timestamp env) n n' \<and> fp_run T (f, w) (f', w')"
proof -
  from fund_effect [OF assms(1)] obtain l c inv fee w1 full where
    *: "mp_listing s k = Some l" "load_config s = Ok (c, s\<lparr>mp_config := Some c\<rparr>)"
      "bps_of_normalized x (unwrap_or (mp_tier_fee_bps s (tier_ordinal (inv_risk_tier (inv :: Invoice)))) (mc_fee_bps c))
        (tk_decimals T (lst_token l) (peer_tk w)) = Ok fee"
      "mp_pay T env c (lst_token l) i fee (x - fee) w = Ok w1"
      "mp_book_contribution env i k x fee (x - fee) l (s\<lparr>mp_config := Some c\<rparr>) = Ok (full, s')"
      "if full then mp_release env c k (lst_token l) w1 = Ok w' else w' = w1"
    by blast
  from mp_pay_effect [OF *(4) bps_of_normalized_nonneg [OF *(3)]] obtain tk tr where
    w1: "w1 = w\<lparr>peer_tk := tk, peer_tr := tr\<rparr>" by blast
  from mp_book_effect [OF *(5)] obtain l' where
    l': "mp_listing s' = (mp_listing s)(k \<mapsto> l')" "lst_face_value l' = lst_face_value l"
      "full = (lst_asking_price l' \<le> lst_funded_amount l')" by auto
  show ?thesis
  proof (cases full)
    case True
    with *(6) have "mp_release env c k (lst_token l) w1 = Ok w'" by simp
    from mp_release_effect [OF this] *(2) assms(2,4) w1 obtain f' m where
      r: "release_funds (subcall env b) (self env) k (lst_token l) (f, w1) = Ok (f', w1\<lparr>peer_nft := m\<rparr>)"
        "w' = w1\<lparr>peer_nft := m, peer_fp := (peer_fp w1)(b \<mapsto> f')\<rparr>" by auto
    from release_coherent [OF r(1) assms(5) _ assms(6)] w1 assms(3) obtain n' where
      n': "m a = Some n'" "coherent s f' n'" "nft_moves (timestamp env) n n'" by auto
    have "fp_pool f' k \<noteq> None" using release_funds_effect [OF r(1)] by auto
    with coherent_listing [OF n'(2) *(1) l'(1,2)] have "coherent s' f' n'" by simp
    moreover have "fp_run T (f, w) (f', w')"
      using fp_run_trans [OF fp_run_other fp_run_trans [OF fp_run_entry [OF fp_entry.intros(2) [OF r(1)]]
          fp_run_other]] .
    ultimately show ?thesis using n'(1,3) r(2) by simp
  next
    case False
    with coherent_listing [OF assms(6) *(1) l'(1,2)] l'(3) have "coherent s' f n" by simp
    with False *(6) w1 assms(3,4) fp_run_other show ?thesis by simp
  qed
qed

text \<open>The calls that cancel a listing keep its terms.\<close>

lemma coherent_deactivate:
  "coherent s f n \<Longrightarrow> mp_listing s k = Some l \<Longrightarrow> coherent (put_listing k (l\<lparr>lst_is_active := False\<rparr>) s) f n"
  by (rule coherent_listing [of s f n k l _ "l\<lparr>lst_is_active := False\<rparr>"]) auto

lemma cancel_coherent:
  "cancel_listing env a k s = Ok s' \<Longrightarrow> coherent s f n \<Longrightarrow> coherent s' f n"
  "request_cancellation env a k s = Ok s' \<Longrightarrow> coherent s f n \<Longrightarrow> coherent s' f n"
  "admin_confirm_cancellation env a k s = Ok s' \<Longrightarrow> coherent s f n \<Longrightarrow> coherent s' f n"
  using coherent_deactivate [of "s\<lparr>mp_config := c\<rparr>" f n k for c]
  by (auto dest!: cancel_listing_effect request_cancellation_effect admin_confirm_effect)

lemma mp_entry_coherent:
  assumes "mp_entry T env x y"
    "\<forall>c s1. load_config (fst x) = Ok (c, s1) \<longrightarrow> mc_invoice_nft c = a \<and> mc_financing_pool c = b"
    "peer_nft (snd x) a = Some n" "peer_fp (snd x) b = Some f" "fp_invoice_nft f \<in> {None, Some a}"
    "coherent (fst x) f n"
  shows "\<exists>n' f'. peer_nft (snd y) a = Some n' \<and> peer_fp (snd y) b = Some f' \<and> coherent (fst y) f' n' \<and>
    nft_moves (timestamp env) n n' \<and> fp_run T (f, snd x) (f', snd y)"
  using assms
proof (induction rule: mp_entry.induct)
  case (mp_list e k x y token deadline r s w s' w')
  from list_coherent [OF mp_list(1), of a n f] mp_list(2-6) fp_run_other show ?case by fastforce
next
  case (mp_fund e k x s w s' w')
  from fund_coherent [OF mp_fund(1), of a b n f] mp_fund(2-6) show ?case by simp
next
  case (mp_refund e k s w s' w')
  from claim_refund_effect [OF mp_refund(1)] mp_refund(3-6) fp_run_other show ?case by fastforce
qed (auto simp: mp_initialize_def set_referrer_split_bps_def update_fee_bps_def
    mp_set_fee_bps_def set_tier_fee_bps_def mp_whitelist_token_def remove_token_whitelist_def
    mp_propose_upgrade_def mp_execute_upgrade_def Let_def
    dest!: mp_load_admin_effect load_config_effect intro: fp_here elim: cancel_coherent)

subsection \<open>Steps and runs\<close>

lemma kora_step_coherent:
  assumes "kora_step T D env x y" "outside D env" "wired D x" "peer_fp (snd x) (dp_pool D) = Some f"
    "peer_nft (snd x) (dp_nft D) = Some n" "coherent (fst x) f n"
  shows "\<exists>n' f'. peer_nft (snd y) (dp_nft D) = Some n' \<and> peer_fp (snd y) (dp_pool D) = Some f' \<and>
    coherent (fst y) f' n' \<and> nft_moves (timestamp env) n n' \<and> fp_run T (f, snd x) (f', snd y)"
  using assms
proof (induction rule: kora_step.induct)
  case (ks_marketplace s w s' w')
  from mp_entry_coherent [OF ks_marketplace(2), of "dp_nft D" "dp_pool D" n f] ks_marketplace(4-7)
  show ?case by (simp add: wired_def)
next
  case (ks_pool w g f' w' s)
  with fp_entry_coherent [OF ks_pool(3), of "dp_nft D" n s] obtain n' where
    "peer_nft w' (dp_nft D) = Some n'" "coherent s f' n'" "nft_moves (timestamp env) n n'"
    by (auto simp: wired_def)
  moreover have "fp_run T (f, w) (f', w'\<lparr>peer_fp := (peer_fp w')(dp_pool D \<mapsto> f')\<rparr>)"
    using fp_run_trans [OF fp_run_other fp_run_entry [OF ks_pool(3)]] ks_pool(2,6) by simp
  ultimately show ?case by simp
next
  case (ks_nft w m n' s)
  have "\<forall>a. nft_marketplace n = Some a \<or> nft_financing_pool n = Some a \<longrightarrow> \<not> authorised env a"
    using ks_nft(5,7) outside_authorised [OF ks_nft(4)] by (auto simp: wired_def)
  moreover have e: "nft_entry (peer_ac w) (peer_rr w) env n n'" using ks_nft(2,3,7) by simp
  ultimately have "coherent s f n'"
    using nft_entry_agree [OF e] nft_entry_inv [OF e] ks_nft(8) by (simp add: coherent_def)
  with ks_nft(6) nft_call [OF e] fp_run_other show ?case by (simp add: nft_moves_def)
next
  case (ks_other w' w s)
  with fp_run_other show ?case by simp
qed

lemma kora_step_mp: "kora_step T D env x y \<Longrightarrow> mp_step T env x y"
  by (auto elim!: kora_step.cases intro: mp_step.intros)

text \<open>Seen from each of its contracts, a run of the protocol is a run of that contract.\<close>

lemma kora_run_projects:
  assumes "kora_run T D t x u y" "peer_fp (snd x) (dp_pool D) = Some f"
    "peer_nft (snd x) (dp_nft D) = Some n" "coherent (fst x) f n"
  shows "\<exists>n' f'. peer_nft (snd y) (dp_nft D) = Some n' \<and> peer_fp (snd y) (dp_pool D) = Some f' \<and>
    coherent (fst y) f' n' \<and> (\<exists>v\<le>u. nft_run t n v n') \<and> fp_run T (f, snd x) (f', snd y) \<and>
    mp_run T t x u y \<and> wired D y"
  using assms
proof (induction rule: kora_run.induct)
  case (kr_here x t)
  then show ?case by (auto intro: nft_here fp_here mp_here)
next
  case (kr_more t x u y env z)
  then obtain n1 f1 v where
    1: "peer_nft (snd y) (dp_nft D) = Some n1" "peer_fp (snd y) (dp_pool D) = Some f1" "coherent (fst y) f1 n1"
      "nft_run t n v n1" "fp_run T (f, snd x) (f1, snd y)" "mp_run T t x u y" "wired D y" "v \<le> u"
    by blast
  from kora_step_coherent [OF kr_more(4,3) 1(7,2,1,3)] obtain n2 f2 where
    2: "peer_nft (snd z) (dp_nft D) = Some n2" "peer_fp (snd z) (dp_pool D) = Some f2" "coherent (fst z) f2 n2"
      "nft_moves (timestamp env) n1 n2" "fp_run T (f1, snd y) (f2, snd z)"
    by blast
  have "\<exists>v\<le>timestamp env. nft_run t n v n2"
    using 2(4) 1(4,8) kr_more(2) nft_more [OF 1(4)] order_trans by (fastforce simp: nft_moves_def)
  with 2 fp_run_trans [OF 2(5) 1(5)] mp_more [OF 1(6) kr_more(2) kora_step_mp [OF kr_more(4)]] kr_more(5)
  show ?case by blast
qed

lemma deployed_new_runs:
  assumes "kora_run T D t x u y" "deployed_new D x"
  shows "\<exists>n f. peer_nft (snd y) (dp_nft D) = Some n \<and> peer_fp (snd y) (dp_pool D) = Some f \<and>
    coherent (fst y) f n \<and> (\<exists>v\<le>u. nft_run t nft_empty v n) \<and> fp_run T (fp_empty, snd x) (f, snd y) \<and>
    mp_run T t x u y \<and> wired D y"
  using kora_run_projects [OF assms(1)] assms(2) coherent_empty by (simp add: deployed_new_def)

end
