(* ===== verification/Pool_Economics.thy ===== *)
theory Pool_Economics
  imports Financing_Pool
begin

text \<open>
  What the financing pool pays to whom (\<^verbatim>\<open>contracts/financing_pool/src/lib.rs\<close>): the payouts of the
  repayment that closes a pool, the shares of positions that were recorded against one total, the
  sale of a position, and the consent an early settlement needs; and concrete runs for what the
  contract does not prevent. The model of the contract and the
  effect of each operation are in \<open>Financing_Pool\<close>.
\<close>

section \<open>Payouts\<close>

lemma received_conv:
  assumes "smap_ok ps"
  shows "received a r d ps = (case smap_get ps a of None \<Rightarrow> 0 | Some q \<Rightarrow> scaled_share r (pos_share_bps q) d)"
proof (cases "smap_get ps a")
  case None
  then have "a \<notin> fst ` set ps" by (simp add: smap_get_def map_of_eq_None_iff)
  with None show ?thesis by (simp add: received_other)
next
  case (Some p)
  with received_get [OF assms] show ?thesis by (simp add: payout_def)
qed

text \<open>The balances after the payouts, by investor.\<close>

lemma settled_balance:
  assumes "sep41 T" "settled T env k token r s w w'" "smap_ok (fp_positions_of s k)"
  shows "tk_balance T token' a (peer_tk w') = tk_balance T token' a (peer_tk w) +
    (if token' = token then (case smap_get (fp_positions_of s k) a of None \<Rightarrow> 0
        | Some q \<Rightarrow> scaled_share r (pos_share_bps q) (tk_decimals T token (peer_tk w)))
      - (if a = self env then paid_out r (tk_decimals T token (peer_tk w)) (fp_positions_of s k) else 0)
     else 0)"
proof -
  let ?d = "tk_decimals T token (peer_tk w)" and ?ps = "fp_positions_of s k"
  from assms(2) obtain c evs where "pay_positions T env k token r ?d ?ps 0 [] (peer_tk w)
      = Ok (c, evs, peer_tk w')" by (auto simp: settled_def)
  from pay_positions_balance [OF assms(1) this, of token' a] show ?thesis
    by (simp add: received_conv [OF assms(3)])
qed

lemma paid_out_shares:
  assumes "0 \<le> r" "positions_ok ps"
  shows "0 \<le> paid_out r d ps \<and> paid_out r d ps * 10000 \<le> r * shares ps"
  using assms(2) by (intro paid_out_le [OF assms(1)]) (auto simp: positions_ok_def)

lemma repay_closing:
  assumes "repay T env payer k token x (s, w) = Ok (s', w')" "fp_pool s' k = Some q" "pool_is_closed q"
  shows "\<exists>tk. token_transfer T env token payer (self env) x (peer_tk w) = Ok tk \<and>
    settled T env k token (pool_repaid_amount q) s (w\<lparr>peer_tk := tk\<rparr>) w'"
proof -
  from repay_effect [OF assms(1)] obtain p i eff p1 evs tk where
    *: "\<not> pool_is_closed p" "apply_late_penalty env k i p = Ok (p1, evs)"
      "token_transfer T env token payer (self env) x (peer_tk w) = Ok tk"
      "fp_pool s' = (fp_pool s)(k \<mapsto> p1\<lparr>pool_repaid_amount := pool_repaid_amount p1 + eff,
        pool_is_closed := (pool_total_owed p1 \<le> pool_repaid_amount p1 + eff \<or> pool_is_closed p1)\<rparr>)"
      "if pool_total_owed p1 \<le> pool_repaid_amount p1 + eff
       then settled T env k token (pool_repaid_amount p1 + eff) s (w\<lparr>peer_tk := tk\<rparr>) w'
       else w' = w\<lparr>peer_tk := tk\<rparr>"
    unfolding Let_def by blast
  have "\<not> pool_is_closed p1" using apply_late_penalty_effect [OF *(2)] *(1) by auto
  with * assms(2,3) show ?thesis by auto
qed

section \<open>Runs with one total\<close>

text \<open>
  A run in which every position of pool \<open>k\<close> is recorded against the total \<open>n\<close>. Positions of the
  pool may be sold, and every other call that does not touch them may happen in between.
\<close>

inductive fp_course ::
    "'tk token_api \<Rightarrow> u64 \<Rightarrow> i128 \<Rightarrow> fp_state \<times> ('tk, 'z) peers_scheme \<Rightarrow> fp_state \<times> ('tk, 'z) peers_scheme \<Rightarrow> bool"
  for T :: "'tk token_api" and k :: u64 and n :: i128 where
  fc_here: "fp_course T k n x x"
| fc_record: "fp_course T k n x (s, w) \<Longrightarrow> record_position env w a k i c n s = Ok s' \<Longrightarrow>
    fp_course T k n x (s', w)"
| fc_sale: "fp_course T k n x (s, w) \<Longrightarrow> buy_position T env b k sl (s, w) = Ok (s', w') \<Longrightarrow>
    fp_course T k n x (s', w')"
| fc_other: "fp_course T k n x y \<Longrightarrow> fp_step T env y z \<Longrightarrow>
    fp_positions_of (fst z) k = fp_positions_of (fst y) k \<Longrightarrow> fp_course T k n x z"

lemma fp_course_run: "fp_course T k n x y \<Longrightarrow> fp_run T x y"
  by (induction rule: fp_course.induct) (blast intro: fp_run.intros fp_step.intros fp_entry.intros)+

lemma positions_of_upd [simp]:
  "fp_positions_of (s\<lparr>fp_positions := m\<^sub>p(k \<mapsto> ps)\<rparr>) k = ps"
  "fp_positions_of (s\<lparr>fp_events := e\<rparr>) = fp_positions_of s"
  "fp_positions_of (s\<lparr>fp_aggregate_funded := g\<rparr>) = fp_positions_of s"
  "fp_positions_of (s\<lparr>fp_sale_offer := m\<rparr>) = fp_positions_of s"
  by (auto simp: fp_positions_of_def)

lemma shares_for_remove: "shares_for n ps \<Longrightarrow> shares_for n (smap_remove i ps)"
  using set_smap_remove [of i ps] by (auto simp: shares_for_def)

lemma shares_for_get:
  "shares_for n ps \<Longrightarrow> smap_get ps i = Some q \<Longrightarrow> pos_share_bps q = nat (pos_contributed q * 10000 div n)"
  by (auto simp: shares_for_def smap_get_def dest: map_of_SomeD)

lemma shares_for_bounds:
  assumes "shares_for n ps" "0 < n" "positions_ok ps"
  shows "shares ps * n \<le> contributions ps * 10000 \<and>
    contributions ps * 10000 \<le> (shares ps + int (length ps)) * n"
proof
  have pos: "\<forall>(i, q)\<in>set ps. 0 < pos_contributed q" using assms(3) by (auto simp: positions_ok_def)
  from shares_for_bound [OF assms(1,2) this] show "shares ps * n \<le> contributions ps * 10000" .
  show "contributions ps * 10000 \<le> (shares ps + int (length ps)) * n"
    using assms(1) pos
  proof (induction ps)
    case (Cons iq ps)
    obtain i q where iq: "iq = (i, q)" by fastforce
    with Cons.prems have "int (pos_share_bps q) = pos_contributed q * 10000 div n"
      using assms(2) by (auto simp: shares_for_def pos_imp_zdiv_nonneg_iff)
    moreover have "pos_contributed q * 10000 \<le> (pos_contributed q * 10000 div n + 1) * n"
      using minus_div_mult_eq_mod [of "pos_contributed q * 10000" n]
        pos_mod_bound [OF assms(2), of "pos_contributed q * 10000"]
      unfolding distrib_right mult_1 by linarith
    moreover have "contributions ps * 10000 \<le> (shares ps + int (length ps)) * n"
      using Cons by (auto simp: shares_for_def)
    ultimately show ?case by (simp add: iq algebra_simps)
  qed simp
qed

lemma fp_course_shares:
  assumes "fp_course T k n x y" "shares_for n (fp_positions_of (fst x) k)"
  shows "shares_for n (fp_positions_of (fst y) k)"
  using assms
proof (induction rule: fp_course.induct)
  case (fc_record x s w env a i c s')
  then have "shares_for n (fp_positions_of s k)" by simp
  with record_position_effect [OF fc_record(2)] show ?case by (auto intro!: shares_for_set)
next
  case (fc_sale x s w env b sl s' w')
  then have sf: "shares_for n (fp_positions_of s k)" by simp
  have "pos_share_bps q = nat (pos_contributed q * 10000 div n)"
    if "smap_get (fp_positions_of s k) sl = Some q" for q using shares_for_get [OF sf that] .
  with buy_position_effect [OF fc_sale(2)] sf show ?case
    by (auto intro!: shares_for_set shares_for_remove)
qed simp_all

section \<open>Consent to a settlement\<close>

text \<open>A run in which the positions of pool \<open>k\<close> stay as they are; any other call may happen, in any
  order: offers are made, accepted and withdrawn, repayments come in, other pools change.\<close>

inductive steady_run ::
    "'tk token_api \<Rightarrow> u64 \<Rightarrow> fp_state \<times> ('tk, 'z) peers_scheme \<Rightarrow> fp_state \<times> ('tk, 'z) peers_scheme \<Rightarrow> bool"
  for T :: "'tk token_api" and k :: u64 where
  st_here: "steady_run T k x x"
| st_more: "steady_run T k x y \<Longrightarrow> fp_step T env y z \<Longrightarrow>
    fp_positions_of (fst z) k = fp_positions_of (fst y) k \<Longrightarrow> steady_run T k x z"

lemma steady_run_run: "steady_run T k x y \<Longrightarrow> fp_run T x y"
  by (induction rule: steady_run.induct) (blast intro: fp_run.intros)+

definition share_of :: "(Address, Position) smap \<Rightarrow> Address \<Rightarrow> nat" where
  "share_of ps a = (case smap_get ps a of None \<Rightarrow> 0 | Some q \<Rightarrow> pos_share_bps q)"

lemma share_of_sum:
  assumes "smap_ok ps" "distinct as"
  shows "int (\<Sum>a\<leftarrow>as. share_of ps a) \<le> shares ps"
proof -
  let ?g = "\<lambda>a. int (pos_share_bps (the (smap_get ps a)))"
  have "int (\<Sum>a\<leftarrow>as. share_of ps a) = (\<Sum>a\<in>set as. int (share_of ps a))"
    using assms(2) by (simp add: sum_list_distinct_conv_sum_set)
  also have "\<dots> = (\<Sum>a\<in>set as \<inter> dom (smap_get ps). ?g a)"
    by (intro sum.mono_neutral_cong_right) (auto simp: share_of_def split: option.splits)
  also have "\<dots> \<le> (\<Sum>a\<in>dom (smap_get ps). ?g a)"
    using smap.dom_finite [OF assms(1)] by (intro sum_mono2) auto
  also have "\<dots> = shares ps"
    unfolding shares_def by (rule smap.total_conv [OF assms(1), symmetric])
  finally show ?thesis .
qed

text \<open>An open offer counts the shares of those who accepted it, each once.\<close>

definition consent_ok :: "u64 \<Rightarrow> fp_state \<Rightarrow> bool" where
  "consent_ok k s \<longleftrightarrow> (\<forall>off. fp_early_settlement s k = Some off \<longrightarrow> distinct (eso_accepted off) \<and>
     eso_accepted_bps off = (\<Sum>a\<leftarrow>eso_accepted off. share_of (fp_positions_of s k) a))"

lemma consent_ok_same:
  "consent_ok k s \<Longrightarrow> fp_early_settlement s' k = fp_early_settlement s k \<Longrightarrow>
     fp_positions_of s' k = fp_positions_of s k \<Longrightarrow> consent_ok k s'"
  by (simp add: consent_ok_def)

lemma consent_ok_none: "fp_early_settlement s k = None \<Longrightarrow> consent_ok k s"
  by (simp add: consent_ok_def)

lemma accept_offers:
  assumes "accept_early_settlement T env i j (s, w) = Ok (s', w')"
  shows "\<exists>off q v. fp_early_settlement s j = Some off \<and> smap_get (fp_positions_of s j) i = Some q \<and>
    i \<notin> set (eso_accepted off) \<and> fp_positions_of s' = fp_positions_of s \<and>
    fp_early_settlement s' = (fp_early_settlement s)(j := v) \<and>
    (v = None \<or> v = Some (off\<lparr>eso_accepted := eso_accepted off @ [i],
       eso_accepted_bps := eso_accepted_bps off + pos_share_bps q\<rparr>))"
proof -
  from accept_effect [OF assms] obtain off q where
    *: "fp_early_settlement s j = Some off" "smap_get (fp_positions_of s j) i = Some q" "i \<notin> set (eso_accepted off)"
      "fp_early_settlement s' = (fp_early_settlement s)(j := None) \<or> fp_early_settlement s' = (fp_early_settlement s)(j \<mapsto>
         off\<lparr>eso_accepted := eso_accepted off @ [i], eso_accepted_bps := eso_accepted_bps off + pos_share_bps q\<rparr>)"
      "fp_book s' = fp_book s"
    by metis
  with fp_book_fields(10) [OF *(5)] show ?thesis by blast
qed

lemma accept_consent:
  assumes "accept_early_settlement T env i j (s, w) = Ok (s', w')" "consent_ok k s"
  shows "consent_ok k s'"
  using accept_offers [OF assms(1)] assms(2) by (auto simp: consent_ok_def share_of_def split: if_splits)

lemma fp_entry_consent:
  assumes "fp_entry T env x y" "fp_positions_of (fst y) k = fp_positions_of (fst x) k" "consent_ok k (fst x)"
  shows "consent_ok k (fst y)"
  using assms
proof (induction rule: fp_entry.induct)
  case (2 m j token s w s' w')
  with release_funds_effect [OF 2(1)] show ?case by (auto intro: consent_ok_same dest: fp_book_fields)
next
  case (4 w a j i c n s s')
  with record_position_effect [OF 4(1)] show ?case by (auto intro: consent_ok_same)
next
  case (5 a j token x s w s' w')
  with repay_effect [OF 5(1)] show ?case by (auto intro: consent_ok_same)
next
  case (6 a j token s w s' w')
  with mark_default_effect [OF 6(1)] show ?case by (auto intro: consent_ok_same)
next
  case (7 a j x s w s' w')
  with propose_early_settlement_effect [OF 7(1)] show ?case by (auto simp: consent_ok_def split: if_splits)
next
  case (8 a j s w s' w')
  with accept_consent [OF 8(1)] show ?case by simp
next
  case (9 a j s w s' w')
  with cancel_early_settlement_effect [OF 9(1)] show ?case by (auto simp: consent_ok_def split: if_splits)
next
  case (11 a j b s w s' w')
  with buy_position_effect [OF 11(1)] show ?case by (auto intro: consent_ok_same)
qed (auto simp: fp_initialize_def set_max_position_bps_def list_position_for_sale_def consent_ok_def
    fp_propose_upgrade_def fp_execute_upgrade_def Let_def split: if_splits)

lemma steady_run_consent:
  "steady_run T k x y \<Longrightarrow> consent_ok k (fst x) \<Longrightarrow> consent_ok k (fst y)"
  by (induction rule: steady_run.induct) (auto elim!: fp_step.cases dest: fp_entry_consent)

lemma sold_position: "q\<lparr>pos_investor := b, pos_invoice_id := k\<rparr> = \<lparr>pos_investor = b, pos_invoice_id = k,
    pos_contributed = pos_contributed q, pos_share_bps = pos_share_bps q,
    pos_yield_claimed = pos_yield_claimed q\<rparr>"
  by (cases q) simp

section \<open>Properties\<close>

text \<open>The further runs of the witnesses, from the pool with two halves: a settlement for 900, and the
  sale of a position for 300.\<close>

lemmas pe_eval = fp_eval propose_early_settlement_def accept_early_settlement_def
  cancel_early_settlement_def get_pool_def checked_add_u32_def U32_MAX_def list_position_for_sale_def
  buy_position_def

lemma fp_demo_cancels:
  "\<exists>s w s1 w1 s2 w2. fp_demo_open = Ok (s, w) \<and>
     propose_early_settlement plain_token (open_env 500 70) 8 1 900 (s, w) = Ok (s1, w1) \<and>
     cancel_early_settlement plain_token (open_env 500 71) 8 1 (s1, w1) = Ok (s2, w2)"
  by (simp add: pe_eval cong: andThen_weak_cong del: andThen_eq_Ok)

lemma fp_demo_settles:
  "\<exists>s w s1 w1 s2 w2 s3 w3 p. fp_demo_open = Ok (s, w) \<and>
     propose_early_settlement plain_token (open_env 500 70) 8 1 900 (s, w) = Ok (s1, w1) \<and>
     accept_early_settlement plain_token (open_env 500 71) 22 1 (s1, w1) = Ok (s2, w2) \<and>
     accept_early_settlement plain_token (open_env 500 72) 21 1 (s2, w2) = Ok (s3, w3) \<and>
     fp_early_settlement s 1 = None \<and> fp_positions_of s1 1 = fp_positions_of s 1 \<and>
     fp_positions_of s2 1 = fp_positions_of s 1 \<and> get_pool s3 1 = Ok p \<and> pool_is_closed p"
  by (simp add: pe_eval cong: andThen_weak_cong del: andThen_eq_Ok)

lemma fp_demo_sale:
  "\<exists>s w s1. fp_demo_open = Ok (s, w) \<and> list_position_for_sale (open_env 500 71) w 21 1 50 300 s = Ok s1 \<and>
     (\<exists>s' w'. buy_position plain_token (open_env 500 72) 8 1 21 (s1, w) = Ok (s', w')) \<and>
     fp_sale_offer s1 (1, 21) = Some \<lparr>sale_seller = 21, sale_invoice_id = 1, sale_token = 50, sale_price = 300\<rparr> \<and>
     share_of (fp_positions_of s1 1) 8 = 0"
  by (simp add: pe_eval share_of_def cong: andThen_weak_cong del: andThen_eq_Ok)

text \<open>
  C1: the repayment that closes a pool pays every investor exactly the holder's share of the repaid
  total (rounded down), takes the payment from the payer, and touches no other balance of any token.
  The pool's contract pays out the sum of these shares: at most the repaid total times the sum of the
  shares, so that it is at most the repaid total if the shares add up to at most 10000 basis points.
  The contract does not enforce this last condition; a pool with more pays more than was repaid
  (\<open>oversubscribed_pool_overpays\<close>).
\<close>

theorem closing_repayment_pays_shares:
  assumes "sep41 T" "fp_run T (fp_empty, w0) (s, w)" "repay T env payer k token x (s, w) = Ok (s', w')"
    "get_pool s' k = Ok q" "pool_is_closed q"
  shows "(\<forall>token' a. tk_balance T token' a (peer_tk w') = tk_balance T token' a (peer_tk w) +
      (if token' = token then
         (case smap_get (fp_positions_of s k) a of None \<Rightarrow> 0
          | Some p \<Rightarrow> scaled_share (pool_repaid_amount q) (pos_share_bps p) (tk_decimals T token (peer_tk w)))
         - (if a = payer then x else 0)
         + (if a = self env then x - paid_out (pool_repaid_amount q) (tk_decimals T token (peer_tk w))
              (fp_positions_of s k) else 0)
       else 0)) \<and>
    0 \<le> paid_out (pool_repaid_amount q) (tk_decimals T token (peer_tk w)) (fp_positions_of s k) \<and>
    paid_out (pool_repaid_amount q) (tk_decimals T token (peer_tk w)) (fp_positions_of s k) * 10000
      \<le> pool_repaid_amount q * shares (fp_positions_of s k) \<and>
    (shares (fp_positions_of s k) \<le> 10000 \<longrightarrow>
      paid_out (pool_repaid_amount q) (tk_decimals T token (peer_tk w)) (fp_positions_of s k)
        \<le> pool_repaid_amount q)"
proof -
  have inv: "fp_inv s" "fp_inv s'"
    using fp_run_inv [OF assms(2)] fp_empty_inv repay_inv [OF assms(3)] by simp_all
  note pos = positions_ok_of [OF inv(1), of k]
  have ok: "smap_ok (fp_positions_of s k)" using pos by (simp add: positions_ok_def)
  from repay_closing [OF assms(3)] assms(4,5) obtain tk where
    tk: "token_transfer T env token payer (self env) x (peer_tk w) = Ok tk"
    and st: "settled T env k token (pool_repaid_amount q) s (w\<lparr>peer_tk := tk\<rparr>) w'"
    by (auto simp: get_pool_def)
  have d: "tk_decimals T token (peer_tk (w\<lparr>peer_tk := tk\<rparr>)) = tk_decimals T token (peer_tk w)"
    using sep41_transfer(4) [OF assms(1) tk] by simp
  note settled_balance [OF assms(1) st ok, unfolded d] sep41_transfer(3) [OF assms(1) tk]
  moreover have "0 \<le> pool_repaid_amount q" using inv(2) assms(4) by (auto simp: fp_inv_def get_pool_def pool_ok_def)
  ultimately show ?thesis using paid_out_bound paid_out_shares [OF _ pos] by auto
qed

theorem closing_repayment_pays_shares_witness:
  "\<exists>s w s' w'. repay plain_token (open_env 500 70) 8 1 50 1000 (s, w) = Ok (s', w') \<and>
     shares (fp_positions_of s 1) = 10000 \<and>
     peer_tk (w' :: (Address \<Rightarrow> Address \<Rightarrow> i128) peers) 50 21 = peer_tk w 50 21 + 500"
proof -
  obtain s w s' w' p where d: "fp_demo_open = Ok (s, w)"
      "repay plain_token (open_env 500 70) 8 1 50 1000 (s, w) = Ok (s', w')"
      "get_pool s' 1 = Ok p" "pool_is_closed p"
    using fp_demo_repays by blast
  then obtain w0 where r: "fp_run plain_token (fp_empty, w0) (s, w)" using fp_demo_run by blast
  have v: "map (\<lambda>(i, q). (i, pos_share_bps q)) (fp_positions_of s 1) = [(21, 5000), (22, 5000)]"
      "pool_repaid_amount p = 1000"
    using d by (auto simp: fp_eval get_pool_def cong: andThen_weak_cong simp del: andThen_eq_Ok)
  then obtain q q' where q: "fp_positions_of s 1 = [(21, q), (22, q')]"
      "pos_share_bps q = 5000" "pos_share_bps q' = 5000"
    by (auto simp: map_eq_Cons_conv)
  from closing_repayment_pays_shares [OF sep41_plain_token r d(2-4)]
  have "peer_tk w' 50 21 = peer_tk w 50 21 + 500"
    using q v(2) by (auto simp: plain_token_def smap_get_def scaled_share_def STANDARD_DECIMALS_def
        dest!: conjunct1 spec [of _ 50] spec [of _ 21])
  moreover have "shares (fp_positions_of s 1) = 10000" using q by simp
  ultimately show ?thesis using d(2) by blast
qed

text \<open>
  C26: positions recorded against one total. If all positions of a pool that starts with none are
  recorded against the same total \<open>n\<close> (they may be sold in between), then every position has exactly
  the share \<open>contributed * 10000 / n\<close>, rounded down, and the shares add up to the same fraction of the
  contributions, less than one basis point per position below it. So they are at most 10000
  basis points, and a distribution pays at most its amount, if the contributions add up to at most \<open>n\<close>;
  if the contributions exceed \<open>n\<close> by a basis point per position or more, which no call checks, they
  exceed 10000.
\<close>

theorem shares_of_one_total:
  assumes "fp_run T (fp_empty, w0) (s, w)" "fp_positions_of s k = []" "fp_course T k n (s, w) (s', w')" "0 < n"
  shows "(\<forall>i q. smap_get (fp_positions_of s' k) i = Some q \<longrightarrow>
      pos_share_bps q = nat (pos_contributed q * 10000 div n)) \<and>
    shares (fp_positions_of s' k) * n \<le> contributions (fp_positions_of s' k) * 10000 \<and>
    contributions (fp_positions_of s' k) * 10000
      \<le> (shares (fp_positions_of s' k) + int (length (fp_positions_of s' k))) * n \<and>
    (contributions (fp_positions_of s' k) \<le> n \<longrightarrow> shares (fp_positions_of s' k) \<le> 10000 \<and>
      (\<forall>r d. 0 \<le> r \<longrightarrow> paid_out r d (fp_positions_of s' k) \<le> r)) \<and>
    ((10000 + int (length (fp_positions_of s' k))) * n < contributions (fp_positions_of s' k) * 10000 \<longrightarrow>
      10000 < shares (fp_positions_of s' k))"
proof -
  have "fp_inv s'"
    using fp_run_inv [OF fp_course_run [OF assms(3)]] fp_run_inv [OF assms(1)] fp_empty_inv by simp
  then have ok: "positions_ok (fp_positions_of s' k)" by (rule positions_ok_of)
  have sf: "shares_for n (fp_positions_of s' k)"
    using fp_course_shares [OF assms(3)] assms(2) by (simp add: shares_for_def)
  note b = shares_for_bounds [OF sf assms(4) ok]
  have "10000 < shares (fp_positions_of s' k)"
    if "(10000 + int (length (fp_positions_of s' k))) * n < contributions (fp_positions_of s' k) * 10000"
    using less_le_trans [OF that conjunct2 [OF b]] assms(4) by (simp add: mult_less_cancel_right)
  then show ?thesis
    using shares_for_get [OF sf] shares_for_10000 [OF sf assms(4) ok] paid_out_bound b by blast
qed

theorem shares_of_one_total_witness:
  "\<exists>s w s' w'. fp_course plain_token 1 1000 (s, w) (s', w' :: (Address \<Rightarrow> Address \<Rightarrow> i128) peers) \<and>
     contributions (fp_positions_of s' 1) = 1000 \<and> shares (fp_positions_of s' 1) \<le> 10000"
proof -
  obtain s w where d: "fp_demo_open = Ok (s, w)" using fp_demo_opens by blast
  then obtain w0 s1 s2 s3 where
      st: "fp_initialize (open_env 500 5) 1 300 200 600 100 500 700 5000 fp_empty = Ok s1"
      "release_funds (open_env 500 50) 400 1 50 (s1, w0) = Ok (s2, w)"
      "record_position (open_env 500 60) w 1 1 21 500 1000 s2 = Ok s3"
      "record_position (open_env 500 61) w 1 1 22 500 1000 s3 = Ok s"
    by (auto simp: fp_demo_open_def)
  have r: "fp_run plain_token (fp_empty, w0) (s2, w)"
    using fp_more [OF fp_more [OF fp_here fp_call [OF fp_entry.intros(1) [OF st(1)]]] fp_call [OF fp_entry.intros(2) [OF st(2)]]] .
  have "fp_positions s1 = Map.empty" using st(1) by (auto simp: fp_initialize_def fp_empty_def split: if_splits)
  moreover have "fp_positions s2 = fp_positions s1"
    using release_funds_effect [OF st(2)] by (blast dest: fp_book_fields(1))
  ultimately have e: "fp_positions_of s2 1 = []" by (simp add: fp_positions_of_def)
  have c: "fp_course plain_token 1 1000 (s2, w) (s, w)"
    using fc_record [OF fc_record [OF fc_here st(3)] st(4)] .
  have n: "contributions (fp_positions_of s 1) = 1000"
    using d by (auto simp: fp_eval cong: andThen_weak_cong simp del: andThen_eq_Ok)
  have "shares (fp_positions_of s 1) \<le> 10000" using shares_of_one_total [OF r e c] n by simp
  with c n show ?thesis
    by (intro exI [of _ s2] exI [of _ w] exI [of _ s] exI [of _ w]) simp
qed

text \<open>
  C27: the sale of a position. The buyer authorised it and pays the seller exactly the price of the
  offer, in the token of the offer; the buyer's position is the seller's contribution and share, the
  seller's is gone, and so is the offer; nobody else's position changes. The shares of the pool keep
  their sum, unless the buyer held a position already: that one is overwritten and its share lost.
\<close>

theorem position_sale:
  assumes "sep41 T" "fp_run T (fp_empty, w0) (s, w)" "buy_position T env b k sl (s, w) = Ok (s', w')"
  shows "\<exists>off q. fp_sale_offer s (k, sl) = Some off \<and> fp_sale_offer s' (k, sl) = None \<and>
    authorised env b \<and> smap_get (fp_positions_of s k) sl = Some q \<and>
    smap_get (fp_positions_of s' k) = (smap_get (fp_positions_of s k))(sl := None,
      b \<mapsto> q\<lparr>pos_investor := b, pos_invoice_id := k\<rparr>) \<and>
    shares (fp_positions_of s' k) = shares (fp_positions_of s k)
      - (if b = sl then 0 else int (share_of (fp_positions_of s k) b)) \<and>
    (\<forall>token a. tk_balance T token a (peer_tk w') = tk_balance T token a (peer_tk w)
      - (if token = sale_token off \<and> a = b then sale_price off else 0)
      + (if token = sale_token off \<and> a = sl then sale_price off else 0))"
proof -
  have "fp_inv s" using fp_run_inv [OF assms(2)] fp_empty_inv by simp
  from positions_ok_of [OF this] have ok: "smap_ok (fp_positions_of s k)" by (simp add: positions_ok_def)
  from buy_position_effect [OF assms(3)] obtain off p q tk e where
    *: "fp_sale_offer s (k, sl) = Some off" "authorised env b" "smap_get (fp_positions_of s k) sl = Some q"
      "token_transfer T env (sale_token off) b sl (sale_price off) (peer_tk w) = Ok tk" "w' = w\<lparr>peer_tk := tk\<rparr>"
      "s' = fp_emit e (s\<lparr>fp_sale_offer := (fp_sale_offer s)((k, sl) := None),
        fp_positions := (fp_positions s)(k \<mapsto> smap_set b (q\<lparr>pos_investor := b, pos_invoice_id := k\<rparr>)
          (smap_remove sl (fp_positions_of s k)))\<rparr>)"
    unfolding sold_position by blast
  let ?ps = "fp_positions_of s k"
  have "smap_get (smap_remove sl ?ps) b = (if b = sl then None else smap_get ?ps b)"
    by (simp add: smap_get_remove [OF ok])
  then have "shares (fp_positions_of s' k) = shares ?ps - (if b = sl then 0 else int (share_of ?ps b))"
    using shares_remove [OF ok *(3)] shares_set [OF smap_ok_remove [OF ok], where i = b]
    by (auto simp: *(6) share_of_def split: option.splits)
  with * sep41_transfer(3) [OF assms(1) *(4)] show ?thesis
    by (intro exI [of _ off] exI [of _ q]) (simp add: smap_get_set smap_get_remove [OF ok])
qed

theorem position_sale_witness:
  "\<exists>s w s' w'. buy_position plain_token (open_env 500 72) 8 1 21 (s, w) = Ok (s', w') \<and>
     smap_get (fp_positions_of s' 1) 21 = None \<and> shares (fp_positions_of s' 1) = shares (fp_positions_of s 1) \<and>
     peer_tk (w' :: (Address \<Rightarrow> Address \<Rightarrow> i128) peers) 50 21 = peer_tk w 50 21 + 300"
proof -
  obtain s w s1 where d: "fp_demo_open = Ok (s, w)"
      "list_position_for_sale (open_env 500 71) w 21 1 50 300 s = Ok s1"
      "\<exists>s' w'. buy_position plain_token (open_env 500 72) 8 1 21 (s1, w) = Ok (s', w')"
      "fp_sale_offer s1 (1, 21) = Some \<lparr>sale_seller = 21, sale_invoice_id = 1, sale_token = 50, sale_price = 300\<rparr>"
      "share_of (fp_positions_of s1 1) 8 = 0"
    using fp_demo_sale by blast
  then obtain w0 where r: "fp_run plain_token (fp_empty, w0) (s, w)" using fp_demo_run by blast
  from d(3) obtain s' w' where b: "buy_position plain_token (open_env 500 72) 8 1 21 (s1, w) = Ok (s', w')" by blast
  from position_sale [OF sep41_plain_token fp_more [OF r fp_call [OF fp_entry.intros(10) [OF d(2)]]] b] d(4,5)
  have "smap_get (fp_positions_of s' 1) 21 = None \<and> shares (fp_positions_of s' 1) = shares (fp_positions_of s1 1) \<and>
      peer_tk w' 50 21 = peer_tk w 50 21 + 300"
    by (auto simp: plain_token_def)
  with b show ?thesis by blast
qed

text \<open>
  C29: an offer of early settlement that is withdrawn leaves no trace: the SME's escrow comes back in
  full, every token balance is as before the offer, and so is the state of the pool.
\<close>

theorem settlement_offer_refunded:
  assumes "sep41 T" "propose_early_settlement T env sme k x (s, w) = Ok (s1, w1)"
    "cancel_early_settlement T env' sme' k (s1, w1) = Ok (s2, w2)" "self env' = self env"
  shows "s2 = s \<and> sme' = sme \<and> (\<forall>token a. tk_balance T token a (peer_tk w2) = tk_balance T token a (peer_tk w))"
proof -
  from propose_early_settlement_effect [OF assms(2)] obtain p i tk where
    p: "fp_pool s k = Some p" "fp_early_settlement s k = None" "fp_load_invoice w s k = Ok i" "inv_sme i = sme"
      "token_transfer T env (pool_token p) sme (self env) x (peer_tk w) = Ok tk" "w1 = w\<lparr>peer_tk := tk\<rparr>"
      "s1 = s\<lparr>fp_early_settlement := (fp_early_settlement s)(k \<mapsto>
        \<lparr>eso_invoice_id = k, eso_amount = x, eso_accepted_bps = 0, eso_accepted = []\<rparr>)\<rparr>"
    by blast
  from cancel_early_settlement_effect [OF assms(3)] p(1,7) obtain j tk2 where
    c: "fp_load_invoice w1 s1 k = Ok j" "inv_sme j = sme'"
      "token_transfer T env' (pool_token p) (self env') sme' x (peer_tk w1) = Ok tk2" "w2 = w1\<lparr>peer_tk := tk2\<rparr>"
      "s2 = s1\<lparr>fp_early_settlement := (fp_early_settlement s1)(k := None)\<rparr>"
    by auto
  have "fp_load_invoice w1 s1 k = fp_load_invoice w s k" by (simp add: fp_load_invoice_def p(6,7))
  with p(3,4) c(1,2) have sme: "sme' = sme" by simp
  have "s2 = s" using p(2) by (simp add: c(5) p(7) fun_upd_idem)
  moreover have "tk_balance T token a (peer_tk w2) = tk_balance T token a (peer_tk w)" for token a
    using sep41_transfer(3) [OF assms(1) c(3), of token a] sep41_transfer(3) [OF assms(1) p(5), of token a]
    by (simp add: p(6) c(4) sme assms(4))
  ultimately show ?thesis using sme by blast
qed

theorem settlement_offer_refunded_witness:
  "\<exists>s w s1 w1 w2. propose_early_settlement plain_token (open_env 500 70) 8 1 900 (s, w) = Ok (s1, w1) \<and>
     cancel_early_settlement plain_token (open_env 500 71) 8 1 (s1, w1) = Ok (s, w2) \<and>
     peer_tk (w2 :: (Address \<Rightarrow> Address \<Rightarrow> i128) peers) 50 8 = peer_tk w 50 8"
proof -
  obtain s1 w1 s w s2 w2 where "fp_demo_open = Ok (s, w)" and
    d: "propose_early_settlement plain_token (open_env 500 70) 8 1 900 (s, w) = Ok (s1, w1)"
      "cancel_early_settlement plain_token (open_env 500 71) 8 1 (s1, w1) = Ok (s2, w2)"
    using fp_demo_cancels by blast
  from settlement_offer_refunded [OF sep41_plain_token d]
  have "s2 = s" "peer_tk w2 50 8 = peer_tk w 50 8" by (simp_all add: plain_token_def)
  with d show ?thesis by blast
qed

text \<open>
  C28: the consent to an early settlement. Suppose that the positions of a pool stay as they are from
  a state without an offer on, while any other calls are made in any order. Then an acceptance
  settles the pool only if the shares of the investors who accepted the open offer, each counted
  once, add up to 10000 basis points or more; so must all shares of the pool (three positions of
  3333 never settle), and if those add up to exactly 10000, every holder of a positive share
  accepted. Sales in between break the count (\<open>sold_position_counts_twice\<close>).
\<close>

theorem settlement_needs_full_shares:
  assumes "fp_run T (fp_empty, w0) (s, w)" "fp_early_settlement s k = None" "steady_run T k (s, w) (s1, w1)"
    "accept_early_settlement T env a k (s1, w1) = Ok (s2, w2)" "get_pool s2 k = Ok p" "pool_is_closed p"
  shows "\<exists>off. get_early_settlement s1 k = Ok off \<and> distinct (eso_accepted off @ [a]) \<and>
    10000 \<le> (\<Sum>b\<leftarrow>eso_accepted off @ [a]. share_of (fp_positions_of s1 k) b) \<and>
    10000 \<le> shares (fp_positions_of s1 k) \<and>
    (shares (fp_positions_of s1 k) \<le> 10000 \<longrightarrow>
      (\<forall>b. 0 < share_of (fp_positions_of s1 k) b \<longrightarrow> b \<in> set (eso_accepted off @ [a])))"
proof -
  let ?ps = "fp_positions_of s1 k"
  have "fp_inv s1" using fp_run_inv [OF steady_run_run [OF assms(3)]] fp_run_inv [OF assms(1)] fp_empty_inv by simp
  from positions_ok_of [OF this] have ok: "smap_ok ?ps" by (simp add: positions_ok_def)
  have c: "consent_ok k s1" using steady_run_consent [OF assms(3)] assms(2) by (simp add: consent_ok_none)
  from accept_effect [OF assms(4)] assms(5,6) obtain off q where
    *: "fp_early_settlement s1 k = Some off" "smap_get ?ps a = Some q" "a \<notin> set (eso_accepted off)"
      "10000 \<le> eso_accepted_bps off + pos_share_bps q"
    by (auto simp: get_pool_def split: if_splits)
  have sum: "10000 \<le> (\<Sum>b\<leftarrow>eso_accepted off @ [a]. share_of ?ps b)" and d: "distinct (eso_accepted off @ [a])"
    using c * by (auto simp: consent_ok_def share_of_def)
  have all: "b \<in> set (eso_accepted off @ [a])" if "shares ?ps \<le> 10000" "0 < share_of ?ps b" for b
  proof (rule ccontr)
    assume "b \<notin> set (eso_accepted off @ [a])"
    with share_of_sum [OF ok, of "b # eso_accepted off @ [a]"] d sum that show False by simp
  qed
  have "10000 \<le> shares ?ps" using share_of_sum [OF ok d] sum by linarith
  with *(1) d sum all show ?thesis by (intro exI [of _ off]) (simp add: get_early_settlement_def)
qed

theorem settlement_needs_full_shares_witness:
  "\<exists>s1 w1 s2 w2 p off. accept_early_settlement plain_token (open_env 500 72) 21 1
       (s1, w1 :: (Address \<Rightarrow> Address \<Rightarrow> i128) peers) = Ok (s2, w2) \<and> get_pool s2 1 = Ok p \<and> pool_is_closed p \<and>
     get_early_settlement s1 1 = Ok off \<and> 10000 \<le> (\<Sum>b\<leftarrow>eso_accepted off @ [21]. share_of (fp_positions_of s1 1) b)"
proof -
  obtain s w s1 w1 s2 w2 s3 w3 p where d: "fp_demo_open = Ok (s, w)"
      "propose_early_settlement plain_token (open_env 500 70) 8 1 900 (s, w) = Ok (s1, w1)"
      "accept_early_settlement plain_token (open_env 500 71) 22 1 (s1, w1) = Ok (s2, w2)"
      "accept_early_settlement plain_token (open_env 500 72) 21 1 (s2, w2) = Ok (s3, w3)"
      "fp_early_settlement s 1 = None" "fp_positions_of s1 1 = fp_positions_of s 1"
      "fp_positions_of s2 1 = fp_positions_of s 1" "get_pool s3 1 = Ok p" "pool_is_closed p"
    using fp_demo_settles by blast
  then obtain w0 where r: "fp_run plain_token (fp_empty, w0) (s, w)" using fp_demo_run by blast
  have "steady_run plain_token 1 (s, w) (s2, w2)"
    using st_more [OF st_more [OF st_here fp_call [OF fp_entry.intros(7) [OF d(2)]]] fp_call [OF fp_entry.intros(8) [OF d(3)]]] d(6,7)
    by simp
  from settlement_needs_full_shares [OF r d(5) this d(4,8,9)] d(4,8,9) show ?thesis by blast
qed

section \<open>What the contract does not prevent\<close>

text \<open>
  Nothing bounds the sum of the shares of a pool. Three positions of 500, each recorded against a
  total of 1000, hold 15000 basis points; the repayment of 1000 that closes the pool then pays out
  1500, 500 of it from other money that the contract holds.
\<close>

definition fp_demo_over :: "(fp_state \<times> (Address \<Rightarrow> Address \<Rightarrow> i128) peers) res" where
  "fp_demo_over =
     andThen fp_demo_open (\<lambda>(s, w).
     let w = w\<lparr>peer_tk := (\<lambda>_ a. if a = 8 then 2000 else if a = 500 then 500 else 0)\<rparr> in
     andThen (record_position (open_env 500 62) w 1 1 23 500 1000 s) (\<lambda>s. Ok (s, w)))"

theorem oversubscribed_pool_overpays:
  "\<exists>s w s' w' q. fp_demo_over = Ok (s, w) \<and> shares (fp_positions_of s 1) = 15000 \<and>
     repay plain_token (open_env 500 70) 8 1 50 1000 (s, w) = Ok (s', w') \<and> get_pool s' 1 = Ok q \<and>
     pool_is_closed q \<and> pool_repaid_amount q = 1000 \<and> peer_tk w 50 500 = 500 \<and> peer_tk w' 50 500 = 0 \<and>
     peer_tk w' 50 21 = 500 \<and> peer_tk w' 50 22 = 500 \<and> peer_tk w' 50 23 = 500"
  by (simp add: fp_demo_over_def pe_eval cong: andThen_weak_cong del: andThen_eq_Ok)

text \<open>
  A sold position is counted twice in an early settlement. In a pool with a single position of 5000
  basis points the holder accepts the offer and sells the position; the buyer accepts it again, and
  the pool settles, although its shares are 5000.
\<close>

definition fp_demo_single :: "(fp_state \<times> (Address \<Rightarrow> Address \<Rightarrow> i128) peers) res" where
  "fp_demo_single =
     andThen fp_demo_world (\<lambda>w.
     andThen (fp_initialize (open_env 500 5) 1 300 200 600 100 500 700 5000 fp_empty) (\<lambda>s.
     andThen (release_funds (open_env 500 50) 400 1 50 (s, w)) (\<lambda>(s, w).
     andThen (record_position (open_env 500 60) w 1 1 21 500 1000 s) (\<lambda>s.
     andThen (propose_early_settlement plain_token (open_env 500 70) 8 1 900 (s, w)) (\<lambda>(s, w).
     andThen (accept_early_settlement plain_token (open_env 500 71) 21 1 (s, w)) (\<lambda>(s, w).
     andThen (list_position_for_sale (open_env 500 72) w 21 1 50 300 s) (\<lambda>s.
     buy_position plain_token (open_env 500 73) 8 1 21 (s, w))))))))"

theorem sold_position_counts_twice:
  "\<exists>s w s' w' q. fp_demo_single = Ok (s, w) \<and> shares (fp_positions_of s 1) = 5000 \<and>
     accept_early_settlement plain_token (open_env 500 74) 8 1 (s, w) = Ok (s', w') \<and>
     get_pool s' 1 = Ok q \<and> pool_is_closed q"
  by (simp add: fp_demo_single_def pe_eval cong: andThen_weak_cong del: andThen_eq_Ok)

text \<open>A closed pool still takes positions, and counts them as funds that are out.\<close>

theorem closed_pool_takes_positions:
  "\<exists>s w s1 w1 q s2. fp_demo_open = Ok (s, w) \<and> repay plain_token (open_env 500 70) 8 1 50 1000 (s, w) = Ok (s1, w1) \<and>
     get_pool s1 1 = Ok q \<and> pool_is_closed q \<and> get_aggregate_funded s1 50 = 0 \<and>
     record_position (open_env 500 71) w1 1 1 23 500 1000 s1 = Ok s2 \<and> get_aggregate_funded s2 50 = 500"
  by (simp add: pe_eval get_aggregate_funded_def cong: andThen_weak_cong del: andThen_eq_Ok)

end
