(* ===== verification/Pool_Solvency.thy ===== *)
theory Pool_Solvency
  imports Kora_Protocol Pool_Economics
begin

text \<open>
  The money of the financing pool (\<^verbatim>\<open>contracts/financing_pool/src/lib.rs\<close>): what it holds for investors
  and for SMEs, and how each call of the pool changes what it holds beyond that. The runs of the whole
  protocol are in \<open>Protocol_Solvency\<close>.
\<close>

section \<open>What the pool holds for others\<close>

text \<open>Per token and invoice: the repayments of an open pool that were not distributed yet, and the
  escrow of a pending settlement offer. A default distributes what was repaid and leaves the pool
  open, so that a defaulted invoice has nothing due.\<close>

definition defaulted :: "nft_state \<Rightarrow> u64 \<Rightarrow> bool" where
  "defaulted n k \<longleftrightarrow> (case nft_invoice n k of Some (StoredV2 i) \<Rightarrow> inv_status i = Defaulted | _ \<Rightarrow> False)"

definition due :: "nft_state \<Rightarrow> fp_state \<Rightarrow> Address \<Rightarrow> (u64 \<rightharpoonup> i128)" where
  "due n f token k = (case fp_pool f k of None \<Rightarrow> None
     | Some p \<Rightarrow> if pool_token p = token \<and> \<not> pool_is_closed p \<and> \<not> defaulted n k
         then Some (pool_repaid_amount p) else None)"

definition escrow :: "fp_state \<Rightarrow> Address \<Rightarrow> (u64 \<rightharpoonup> i128)" where
  "escrow f token k = (case fp_pool f k of None \<Rightarrow> None
     | Some p \<Rightarrow> if pool_token p = token then map_option eso_amount (fp_early_settlement f k) else None)"

text \<open>What the pool at address \<open>c\<close> holds beyond that.\<close>

definition spare :: "'tk token_api \<Rightarrow> Address \<Rightarrow> Address \<Rightarrow> fp_state \<Rightarrow> nft_state \<Rightarrow> 'tk \<Rightarrow> i128" where
  "spare T c token f n tk =
     tk_balance T token c tk - map_total (due n f token) - map_total (escrow f token)"

lemma due_dom: "dom (due n f token) \<subseteq> dom (fp_pool f)" "dom (escrow f token) \<subseteq> dom (fp_pool f)"
  by (auto simp: due_def escrow_def split: option.splits)

lemma due_finite:
  assumes "finite (dom (fp_pool f))"
  shows "finite (dom (due n f token))" "finite (dom (escrow f token))"
  by (rule finite_subset [OF due_dom(1) assms], rule finite_subset [OF due_dom(2) assms])

lemma map_total_fun_upd:
  "finite (dom m) \<Longrightarrow> map_total (m(k := v)) = map_total m - unwrap_or (m k) 0 + unwrap_or v 0"
  by (cases v) (simp_all add: map_total_del map_total_upd)

lemma map_total_nonneg: "(\<And>k v. m k = Some v \<Longrightarrow> 0 \<le> v) \<Longrightarrow> 0 \<le> map_total m"
  unfolding map_total_def by (rule sum_nonneg) auto

lemma map_total_le_member:
  assumes "finite (dom m)" "\<And>k v. m k = Some v \<Longrightarrow> 0 \<le> v" "m k = Some v"
  shows "v \<le> map_total m"
proof -
  have "the (m k) \<le> map_total m"
    unfolding map_total_def using assms by (intro member_le_sum) auto
  with assms(3) show ?thesis by simp
qed

lemma map_total_less_entries:
  assumes "finite (dom m)" "\<And>k v. m k = Some v \<Longrightarrow> 0 \<le> v" "\<And>k. m' k = None \<or> m' k = m k"
  shows "map_total m' \<le> map_total m"
proof -
  have sub: "dom m' \<subseteq> dom m" using assms(3) by (metis domIff subsetI)
  have "map_total m' = (\<Sum>k\<in>dom m'. the (m k))"
    unfolding map_total_def using assms(3) by (intro sum.cong) (metis domIff)+
  also have "\<dots> \<le> map_total m"
    unfolding map_total_def using assms(1,2) sub by (intro sum_mono2) auto
  finally show ?thesis .
qed

text \<open>A call about one invoice.\<close>

lemma spare_slot:
  assumes "finite (dom (fp_pool f))" "\<And>j. j \<noteq> k \<Longrightarrow> fp_pool f' j = fp_pool f j"
    "\<And>j. j \<noteq> k \<Longrightarrow> fp_early_settlement f' j = fp_early_settlement f j"
    "\<And>j. j \<noteq> k \<Longrightarrow> nft_invoice n' j = nft_invoice n j"
  shows "spare T c token f' n' tk' = spare T c token f n tk + tk_balance T token c tk' - tk_balance T token c tk
    - unwrap_or (due n' f' token k) 0 + unwrap_or (due n f token k) 0
    - unwrap_or (escrow f' token k) 0 + unwrap_or (escrow f token k) 0"
proof -
  have "due n' f' token = (due n f token)(k := due n' f' token k)"
    "escrow f' token = (escrow f token)(k := escrow f' token k)"
    using assms(2-4) by (auto simp: fun_eq_iff due_def escrow_def defaulted_def split: option.split)
  then have "map_total (due n' f' token) = map_total (due n f token) - unwrap_or (due n f token k) 0
        + unwrap_or (due n' f' token k) 0"
      "map_total (escrow f' token) = map_total (escrow f token) - unwrap_or (escrow f token k) 0
        + unwrap_or (escrow f' token k) 0"
    using map_total_fun_upd [OF due_finite(1) [OF assms(1)], of n token k]
      map_total_fun_upd [OF due_finite(2) [OF assms(1)], of token k] by metis+
  then show ?thesis by (simp add: spare_def)
qed

lemma spare_same:
  assumes "fp_pool f' = fp_pool f" "fp_early_settlement f' = fp_early_settlement f"
  shows "spare T c token f' n tk = spare T c token f n tk"
proof -
  have "due n f' = due n f" "escrow f' = escrow f"
    by (intro ext; simp add: due_def escrow_def assms split: option.split)+
  then show ?thesis by (simp add: spare_def)
qed

text \<open>Invoices change: nothing becomes due by that, as long as a defaulted invoice stays defaulted.\<close>

lemma spare_invoices:
  assumes "finite (dom (fp_pool f))" "fp_inv f" "\<And>k. defaulted n k \<Longrightarrow> defaulted n' k"
    "tk_balance T token c tk \<le> tk_balance T token c tk'"
  shows "spare T c token f n tk \<le> spare T c token f n' tk'"
proof -
  have "map_total (due n' f token) \<le> map_total (due n f token)"
    using assms(1-3) due_finite(1)
    by (intro map_total_less_entries)
      (auto simp: due_def fp_inv_def pool_ok_def split: option.splits if_splits)
  with assms(4) show ?thesis by (simp add: spare_def)
qed

section \<open>Payouts\<close>

lemma received_nonneg:
  assumes "0 \<le> r" "\<forall>(i, p)\<in>set ps. pos_share_bps p \<le> 10000"
  shows "0 \<le> received a r d ps"
  using assms(2)
proof (induction ps)
  case (Cons ip ps)
  obtain i p where "ip = (i, p)" by fastforce
  with Cons scaled_share_bounds [OF assms(1), of "pos_share_bps p" d] show ?case
    by (auto simp: payout_def)
qed simp

text \<open>A distribution of \<open>r\<close> costs the pool at most \<open>r\<close> of the token, when the shares add up to at most
  10000 basis points.\<close>

lemma pay_positions_cost:
  assumes "sep41 T" "pay_positions T env k token r d ps c evs tk = Ok (c', evs', tk')" "0 \<le> r"
    "shares ps \<le> 10000"
  shows "tk_balance T token' (self env) tk - (if token' = token then r else 0)
    \<le> tk_balance T token' (self env) tk'"
proof -
  have "\<forall>(i, p)\<in>set ps. pos_share_bps p \<le> 10000"
    using assms(4) shares_each [of _ _ ps] by fastforce
  from received_nonneg [OF assms(3) this, of "self env" d] paid_out_bound [OF assms(3,4), of d]
    pay_positions_balance [OF assms(1,2), of token' "self env"]
  show ?thesis by auto
qed

lemma settled_cost:
  assumes "sep41 T" "settled T env k token r f w w'" "0 \<le> r" "shares (fp_positions_of f k) \<le> 10000"
  shows "tk_balance T token' (self env) (peer_tk w) - (if token' = token then r else 0)
    \<le> tk_balance T token' (self env) (peer_tk w')"
proof -
  from assms(2) obtain c evs where "pay_positions T env k token r (tk_decimals T token (peer_tk w))
      (fp_positions_of f k) 0 [] (peer_tk w) = Ok (c, evs, peer_tk w')" by (auto simp: settled_def)
  from pay_positions_cost [OF assms(1) this assms(3,4)] show ?thesis .
qed

lemma settled_invoice:
  assumes "settled T env k token r f w w'" "fp_invoice_nft f \<in> {None, Some a}" "peer_nft w a = Some n"
    "peer_nft w' a = Some n'"
  shows "\<not> defaulted n k \<and> \<not> defaulted n' k \<and> (\<forall>j. j \<noteq> k \<longrightarrow> nft_invoice n' j = nft_invoice n j)"
proof -
  from assms have "set_repaid (peer_ac w) (subcall env a) (self env) k n = Ok n'"
    by (auto simp: settled_def)
  from set_repaid_effect [OF this] status_calls_elsewhere(3) [OF this] show ?thesis
    by (auto simp: defaulted_def nft_release_exposure_def)
qed

lemma settled_repaid:
  assumes "settled T env k token r f w w'" "fp_invoice_nft f' = fp_invoice_nft f"
  shows "\<exists>j. fp_load_invoice w' f' k = Ok j \<and> inv_status j = Repaid"
  using assms by (auto simp: settled_def fp_load_invoice_eq_Ok get_invoice_def nft_release_exposure_def
      dest!: set_repaid_effect)

section \<open>Calls of the pool\<close>

text \<open>The setting of a call: the invoices of the pool are those of the contract \<open>n\<close> at address \<open>a\<close>, and
  nobody signs for the pool.\<close>

definition pool_calls :: "Address \<Rightarrow> env \<Rightarrow> fp_state \<Rightarrow> ('tk, 'z) peers_scheme \<Rightarrow> nft_state \<Rightarrow>
    ('tk, 'z) peers_scheme \<Rightarrow> nft_state \<Rightarrow> bool" where
  "pool_calls a env f w n w' n' \<longleftrightarrow> finite (dom (fp_pool f)) \<and> fp_inv f \<and> \<not> authorised env (self env) \<and>
     fp_invoice_nft f \<in> {None, Some a} \<and> peer_nft w a = Some n \<and> peer_nft w' a = Some n'"

lemma repay_spare:
  assumes "sep41 T" "repay T env payer k (pool_token p) x (f, w) = Ok (f', w')" "fp_pool f k = Some p"
    "fp_load_invoice w f k = Ok i" "inv_currency i = ''USDC''" "shares (fp_positions_of f k) \<le> 10000"
    "pool_calls a env f w n w' n'"
  shows "spare T (self env) token f n (peer_tk w) \<le> spare T (self env) token f' n' (peer_tk w')"
proof -
  from assms(7) have c: "finite (dom (fp_pool f))" "fp_inv f" "\<not> authorised env (self env)"
      "fp_invoice_nft f \<in> {None, Some a}" "peer_nft w a = Some n" "peer_nft w' a = Some n'"
    by (simp_all add: pool_calls_def)
  from repay_effect [OF assms(2)] assms(3,4) obtain eff p1 evs tk where
    *: "authorised env payer" "0 < x" "\<not> pool_is_closed p"
      "convert_if_needed env w f x (inv_currency i) (pool_token p) = Ok eff"
      "apply_late_penalty env k i p = Ok (p1, evs)"
      "token_transfer T env (pool_token p) payer (self env) x (peer_tk w) = Ok tk"
      "fp_pool f' = (fp_pool f)(k \<mapsto> p1\<lparr>pool_repaid_amount := pool_repaid_amount p1 + eff,
        pool_is_closed := (pool_total_owed p1 \<le> pool_repaid_amount p1 + eff \<or> pool_is_closed p1)\<rparr>)"
      "if pool_total_owed p1 \<le> pool_repaid_amount p1 + eff
       then settled T env k (pool_token p) (pool_repaid_amount p1 + eff) f (w\<lparr>peer_tk := tk\<rparr>) w'
       else w' = w\<lparr>peer_tk := tk\<rparr>"
      "fp_early_settlement f' = fp_early_settlement f"
    unfolding Let_def by auto
  have eff: "eff = x" using convert_if_needed_same *(4) assms(5) by metis
  have ok: "pool_ok k p" using c(2) assms(3) by (simp add: fp_inv_def)
  note p1 = pool_ok_penalty [OF ok *(5)]
  have r: "0 \<le> pool_repaid_amount p" using ok by (simp add: pool_ok_def)
  have "payer \<noteq> self env" using *(1) c(3) by auto
  with sep41_transfer(3) [OF assms(1) *(6), of token "self env"]
  have paid: "tk_balance T token (self env) tk = tk_balance T token (self env) (peer_tk w)
      + (if token = pool_token p then x else 0)" by auto
  show ?thesis
  proof (cases "pool_total_owed p1 \<le> pool_repaid_amount p1 + eff")
    case True
    with *(8) have st: "settled T env k (pool_token p) (pool_repaid_amount p + x) f (w\<lparr>peer_tk := tk\<rparr>) w'"
      using p1 eff by simp
    have inv: "\<not> defaulted n k" "\<not> defaulted n' k" "\<And>j. j \<noteq> k \<Longrightarrow> nft_invoice n' j = nft_invoice n j"
      using settled_invoice [OF st c(4), of n n'] c(5,6) by simp_all
    have cost: "tk_balance T token (self env) tk - (if token = pool_token p then pool_repaid_amount p + x else 0)
        \<le> tk_balance T token (self env) (peer_tk w')"
      using settled_cost [OF assms(1) st _ assms(6), of token] r *(2) by simp
    have "due n' f' token k = None" "escrow f' token k = escrow f token k"
        "due n f token k = (if pool_token p = token then Some (pool_repaid_amount p) else None)"
      using True *(3,7,9) p1 inv assms(3) by (simp_all add: due_def escrow_def)
    then show ?thesis
      using spare_slot [OF c(1), of k f' n' n T "self env" token "peer_tk w'" "peer_tk w"] *(7,9) inv(3) cost paid
      by (auto split: if_splits)
  next
    case False
    with *(8) have w': "w' = w\<lparr>peer_tk := tk\<rparr>" by simp
    with c(5,6) have n': "n' = n" by simp
    have "escrow f' token k = escrow f token k"
        "due n f token k = (if pool_token p = token \<and> \<not> defaulted n k then Some (pool_repaid_amount p) else None)"
        "due n f' token k = (if pool_token p = token \<and> \<not> defaulted n k then Some (pool_repaid_amount p + x) else None)"
      using False *(3,7,9) p1 assms(3) eff by (simp_all add: due_def escrow_def)
    then show ?thesis
      using spare_slot [OF c(1), of k f' n n T "self env" token "peer_tk w'" "peer_tk w"] *(2,7,9) paid
      by (auto simp: w' n' split: if_splits)
  qed
qed

lemma mark_default_spare:
  assumes "sep41 T" "mark_default T env ad k (pool_token p) (f, w) = Ok (f', w')" "fp_pool f k = Some p"
    "shares (fp_positions_of f k) \<le> 10000" "pool_calls a env f w n w' n'"
  shows "spare T (self env) token f n (peer_tk w) \<le> spare T (self env) token f' n' (peer_tk w')"
proof -
  from assms(5) have c: "finite (dom (fp_pool f))" "fp_inv f" "fp_invoice_nft f \<in> {None, Some a}"
      "peer_nft w a = Some n" "peer_nft w' a = Some n'" by (simp_all add: pool_calls_def)
  from mark_default_effect [OF assms(2)] assms(3) c(3-5) obtain w1 where
    *: "\<not> pool_is_closed p" "set_defaulted (subcall env a) ad k n = Ok n'" "fp_pool f' = fp_pool f"
      "fp_early_settlement f' = fp_early_settlement f" "peer_tk w' = peer_tk w1"
      "if 0 < pool_repaid_amount p
       then \<exists>c evs tk. pay_positions T env k (pool_token p) (pool_repaid_amount p)
         (tk_decimals T (pool_token p) (peer_tk w)) (fp_positions_of f k) 0 [] (peer_tk w) = Ok (c, evs, tk) \<and>
         w1 = w\<lparr>peer_tk := tk\<rparr>
       else w1 = w"
    by auto
  have r: "0 \<le> pool_repaid_amount p" using c(2) assms(3) by (auto simp: fp_inv_def pool_ok_def)
  have inv: "\<not> defaulted n k" "defaulted n' k" "\<And>j. j \<noteq> k \<Longrightarrow> nft_invoice n' j = nft_invoice n j"
    using set_defaulted_effect [OF *(2)] status_calls_elsewhere(4) [OF *(2)]
    by (auto simp: defaulted_def nft_release_exposure_def)
  have cost: "tk_balance T token (self env) (peer_tk w) - (if token = pool_token p then pool_repaid_amount p else 0)
      \<le> tk_balance T token (self env) (peer_tk w')"
  proof (cases "0 < pool_repaid_amount p")
    case True
    with *(5,6) obtain c evs where "pay_positions T env k (pool_token p) (pool_repaid_amount p)
        (tk_decimals T (pool_token p) (peer_tk w)) (fp_positions_of f k) 0 [] (peer_tk w) = Ok (c, evs, peer_tk w')"
      by auto
    from pay_positions_cost [OF assms(1) this r assms(4)] show ?thesis .
  qed (use *(5,6) r in simp)
  have "due n' f' token k = None" "escrow f' token k = escrow f token k"
      "due n f token k = (if pool_token p = token then Some (pool_repaid_amount p) else None)"
    using *(1,3,4) inv assms(3) by (simp_all add: due_def escrow_def)
  then show ?thesis
    using spare_slot [OF c(1), of k f' n' n T "self env" token "peer_tk w'" "peer_tk w"] *(3,4) inv(3) cost
    by (auto split: if_splits)
qed

lemma accept_spare:
  assumes "sep41 T" "accept_early_settlement T env ivr k (f, w) = Ok (f', w')"
    "shares (fp_positions_of f k) \<le> 10000" "pool_calls a env f w n w' n'"
  shows "spare T (self env) token f n (peer_tk w) \<le> spare T (self env) token f' n' (peer_tk w')"
proof -
  from assms(4) have c: "finite (dom (fp_pool f))" "fp_inv f" "fp_invoice_nft f \<in> {None, Some a}"
      "peer_nft w a = Some n" "peer_nft w' a = Some n'" by (simp_all add: pool_calls_def)
  from accept_effect [OF assms(2)] obtain off p and b :: u32 where
    *: "fp_early_settlement f k = Some off" "fp_pool f k = Some p" "\<not> pool_is_closed p"
      "if 10000 \<le> b then
         fp_pool f' = (fp_pool f)(k \<mapsto> p\<lparr>pool_repaid_amount := eso_amount off, pool_is_closed := True\<rparr>) \<and>
         settled T env k (pool_token p) (eso_amount off) f w w' \<and>
         fp_early_settlement f' = (fp_early_settlement f)(k := None)
       else fp_pool f' = fp_pool f \<and> w' = w \<and> fp_early_settlement f' = (fp_early_settlement f)(k \<mapsto>
         off\<lparr>eso_accepted := eso_accepted off @ [ivr], eso_accepted_bps := b\<rparr>)"
    by blast
  have r: "0 \<le> pool_repaid_amount p" "0 \<le> eso_amount off"
    using c(2) *(1,2) by (auto simp: fp_inv_def pool_ok_def offers_ok_def intro: order.strict_implies_order)
  show ?thesis
  proof (cases "10000 \<le> b")
    case True
    with *(4) have st: "settled T env k (pool_token p) (eso_amount off) f w w'"
      and f': "fp_pool f' = (fp_pool f)(k \<mapsto> p\<lparr>pool_repaid_amount := eso_amount off, pool_is_closed := True\<rparr>)"
        "fp_early_settlement f' = (fp_early_settlement f)(k := None)" by simp_all
    note inv = settled_invoice [OF st c(3-5)]
    note cost = settled_cost [OF assms(1) st r(2) assms(3), of token]
    have "due n' f' token k = None" "escrow f' token k = None"
        "due n f token k = (if pool_token p = token then Some (pool_repaid_amount p) else None)"
        "escrow f token k = (if pool_token p = token then Some (eso_amount off) else None)"
      using *(1-3) f' inv by (simp_all add: due_def escrow_def)
    then show ?thesis
      using spare_slot [OF c(1), of k f' n' n T "self env" token "peer_tk w'" "peer_tk w"] f' inv cost r
      by (auto split: if_splits)
  next
    case False
    with *(4) have f': "fp_pool f' = fp_pool f" "w' = w" "fp_early_settlement f' = (fp_early_settlement f)(k \<mapsto>
        off\<lparr>eso_accepted := eso_accepted off @ [ivr], eso_accepted_bps := b\<rparr>)" by simp_all
    with *(1) have "escrow f' = escrow f" "due n' f' = due n f"
      using c(4,5) by (auto simp: escrow_def due_def fun_eq_iff split: option.splits)
    with f'(2) show ?thesis by (simp add: spare_def)
  qed
qed

lemma propose_spare:
  assumes "sep41 T" "propose_early_settlement T env sme k x (f, w) = Ok (f', w')" "pool_calls a env f w n w' n'"
  shows "spare T (self env) token f n (peer_tk w) \<le> spare T (self env) token f' n' (peer_tk w')"
proof -
  from assms(3) have c: "finite (dom (fp_pool f))" "\<not> authorised env (self env)"
      "peer_nft w a = Some n" "peer_nft w' a = Some n'" by (simp_all add: pool_calls_def)
  from propose_early_settlement_effect [OF assms(2)] obtain p tk where
    *: "fp_pool f k = Some p" "fp_early_settlement f k = None" "authorised env sme"
      "token_transfer T env (pool_token p) sme (self env) x (peer_tk w) = Ok tk" "w' = w\<lparr>peer_tk := tk\<rparr>"
      "f' = f\<lparr>fp_early_settlement := (fp_early_settlement f)(k \<mapsto>
        \<lparr>eso_invoice_id = k, eso_amount = x, eso_accepted_bps = 0, eso_accepted = []\<rparr>)\<rparr>" by blast
  have "sme \<noteq> self env" "n' = n" using *(3,5) c(2-4) by auto
  with sep41_transfer(3) [OF assms(1) *(4), of token "self env"]
    spare_slot [OF c(1), of k f' n n T "self env" token tk "peer_tk w"] * show ?thesis
    by (auto simp: due_def escrow_def)
qed

lemma cancel_spare:
  assumes "sep41 T" "cancel_early_settlement T env sme k (f, w) = Ok (f', w')" "pool_calls a env f w n w' n'"
  shows "spare T (self env) token f n (peer_tk w) \<le> spare T (self env) token f' n' (peer_tk w')"
proof -
  from assms(3) have c: "finite (dom (fp_pool f))" "peer_nft w a = Some n" "peer_nft w' a = Some n'"
      "\<not> authorised env (self env)" by (simp_all add: pool_calls_def)
  from cancel_early_settlement_effect [OF assms(2)] obtain off p tk where
    *: "fp_early_settlement f k = Some off" "fp_pool f k = Some p" "authorised env sme"
      "token_transfer T env (pool_token p) (self env) sme (eso_amount off) (peer_tk w) = Ok tk"
      "w' = w\<lparr>peer_tk := tk\<rparr>" "f' = f\<lparr>fp_early_settlement := (fp_early_settlement f)(k := None)\<rparr>" by blast
  have "sme \<noteq> self env" "n' = n" using *(3,5) c(2-4) by auto
  with sep41_transfer(3) [OF assms(1) *(4), of token "self env"]
    spare_slot [OF c(1), of k f' n n T "self env" token tk "peer_tk w"] * show ?thesis
    by (auto simp: due_def escrow_def)
qed

lemma buy_spare:
  assumes "sep41 T" "buy_position T env b k sl (f, w) = Ok (f', w')" "pool_calls a env f w n w' n'"
  shows "spare T (self env) token f n (peer_tk w) \<le> spare T (self env) token f' n' (peer_tk w')"
proof -
  from assms(3) have c: "peer_nft w a = Some n" "peer_nft w' a = Some n'" "\<not> authorised env (self env)"
    by (simp_all add: pool_calls_def)
  from buy_position_effect [OF assms(2)] obtain off :: PositionSaleOffer and tk where
    *: "authorised env b" "token_transfer T env (sale_token off) b sl (sale_price off) (peer_tk w) = Ok tk"
      "w' = w\<lparr>peer_tk := tk\<rparr>" "fp_pool f' = fp_pool f" "fp_early_settlement f' = fp_early_settlement f"
    by auto
  have "b \<noteq> self env" "n' = n" using *(1,3) c by auto
  with sep41_transfer(1) [OF assms(1) *(2)] sep41_transfer(3) [OF assms(1) *(2), of token "self env"] *(3)
    spare_same [OF *(4,5), of T "self env" token n "peer_tk w'"]
  show ?thesis by (auto simp: spare_def)
qed

text \<open>A new pool owes nothing yet.\<close>

lemma release_spare:
  assumes "release_funds env m k tok (f, w) = Ok (f', w')" "finite (dom (fp_pool f))" "fp_inv f"
    "fp_invoice_nft f \<in> {None, Some a}" "peer_nft w a = Some n" "peer_nft w' a = Some n'"
  shows "spare T c token f n tk \<le> spare T c token f' n' tk"
proof -
  from release_funds_effect [OF assms(1)] assms(4-6) obtain q where
    *: "fp_pool f k = None" "fp_pool f' = (fp_pool f)(k \<mapsto> q)" "pool_repaid_amount q = 0"
      "set_funded (peer_ac w) (subcall env a) (self env) k n = Ok n'"
      "fp_early_settlement f' = fp_early_settlement f" by fastforce
  have "fp_early_settlement f k = None"
    using *(1) assms(3) by (cases "fp_early_settlement f k") (fastforce simp: fp_inv_def offers_ok_def)+
  with * have "unwrap_or (due n' f' token k) 0 = 0" "escrow f' token k = None" "due n f token k = None"
      "escrow f token k = None" by (simp_all add: due_def escrow_def)
  with spare_slot [OF assms(2), of k f' n' n T c token tk tk] *(2,5) status_calls_elsewhere(2) [OF *(4)]
  show ?thesis by simp
qed

section \<open>Fair runs\<close>

text \<open>
  The contract relies on its callers for two things it does not check: that a repayment and the
  distribution after a default use the token of the pool, and that the admin records positions
  whose shares add up to at most 10000 basis points. Besides, an invoice in another currency than
  USDC is booked at the price of the oracle, while the tokens are paid out as they came in. A
  \<open>fair\<close> call is a call that succeeds and respects the first and the last of these.
\<close>

inductive fair_entry ::
    "'tk token_api \<Rightarrow> env \<Rightarrow> fp_state \<times> ('tk, 'z) peers_scheme \<Rightarrow> fp_state \<times> ('tk, 'z) peers_scheme \<Rightarrow> bool"
  for T :: "'tk token_api" and env :: env where
  fe_init: "fp_initialize env a b c d e n f m s = Ok s' \<Longrightarrow> fair_entry T env (s, w) (s', w)"
| fe_release: "release_funds env m k token (s, w) = Ok (s', w') \<Longrightarrow> fair_entry T env (s, w) (s', w')"
| fe_limit: "set_max_position_bps env a n s = Ok s' \<Longrightarrow> fair_entry T env (s, w) (s', w)"
| fe_record: "record_position env w a k i c n s = Ok s' \<Longrightarrow> fair_entry T env (s, w) (s', w)"
| fe_repay: "repay T env a k (pool_token p) x (s, w) = Ok (s', w') \<Longrightarrow> fp_pool s k = Some p \<Longrightarrow>
    fp_load_invoice w s k = Ok i \<Longrightarrow> inv_currency i = ''USDC'' \<Longrightarrow> fair_entry T env (s, w) (s', w')"
| fe_default: "mark_default T env a k (pool_token p) (s, w) = Ok (s', w') \<Longrightarrow> fp_pool s k = Some p \<Longrightarrow>
    fair_entry T env (s, w) (s', w')"
| fe_offer: "propose_early_settlement T env a k x (s, w) = Ok (s', w') \<Longrightarrow> fair_entry T env (s, w) (s', w')"
| fe_accept: "accept_early_settlement T env a k (s, w) = Ok (s', w') \<Longrightarrow> fair_entry T env (s, w) (s', w')"
| fe_withdraw: "cancel_early_settlement T env a k (s, w) = Ok (s', w') \<Longrightarrow> fair_entry T env (s, w) (s', w')"
| fe_list: "list_position_for_sale env w a k token x s = Ok s' \<Longrightarrow> fair_entry T env (s, w) (s', w)"
| fe_buy: "buy_position T env a k b (s, w) = Ok (s', w') \<Longrightarrow> fair_entry T env (s, w) (s', w')"
| fe_propose: "fp_propose_upgrade env a h s = Ok s' \<Longrightarrow> fair_entry T env (s, w) (s', w)"
| fe_execute: "fp_execute_upgrade env a s = Ok s' \<Longrightarrow> fair_entry T env (s, w) (s', w)"

lemma fair_entry_entry: "fair_entry T env x y \<Longrightarrow> fp_entry T env x y"
  by (induction rule: fair_entry.induct) (blast intro: fp_entry.intros)+

text \<open>No fair call uses up what the pool holds for others.\<close>

lemma fair_entry_spare:
  assumes "fair_entry T env x y" "sep41 T" "pool_calls a env (fst x) (snd x) n (snd y) n'"
    "\<And>k. shares (fp_positions_of (fst x) k) \<le> 10000"
  shows "spare T (self env) token (fst x) n (peer_tk (snd x)) \<le> spare T (self env) token (fst y) n' (peer_tk (snd y))"
  using assms
proof (induction rule: fair_entry.induct)
  case (fe_release m k tok s w s' w')
  from release_funds_effect [OF fe_release(1)] have "peer_tk w' = peer_tk w" by auto
  with release_spare [OF fe_release(1), of a n n' T "self env" token] fe_release(3) show ?case
    by (simp add: pool_calls_def)
next
  case (fe_repay b k p x s w s' w' i)
  from repay_spare [OF fe_repay(5,1-4), of a n n' token] fe_repay(6,7) show ?case by simp
next
  case (fe_default b k p s w s' w')
  from mark_default_spare [OF fe_default(3,1,2), of a n n' token] fe_default(4,5) show ?case by simp
next
  case (fe_offer b k x s w s' w')
  from propose_spare [OF fe_offer(2,1), of a n n' token] fe_offer(3) show ?case by simp
next
  case (fe_accept b k s w s' w')
  from accept_spare [OF fe_accept(2,1), of a n n' token] fe_accept(3,4) show ?case by simp
next
  case (fe_withdraw b k s w s' w')
  from cancel_spare [OF fe_withdraw(2,1), of a n n' token] fe_withdraw(3) show ?case by simp
next
  case (fe_buy b k c s w s' w')
  from buy_spare [OF fe_buy(2,1), of a n n' token] fe_buy(3) show ?case by simp
next
  case (fe_record w b k i c m s s')
  have "fp_pool s' = fp_pool s" "fp_early_settlement s' = fp_early_settlement s"
    using record_position_effect [OF fe_record(1)] by auto
  with fe_record(3) show ?case by (auto simp: pool_calls_def spare_same [of s' s])
qed (auto simp: fp_initialize_def set_max_position_bps_def list_position_for_sale_def pool_calls_def
    fp_propose_upgrade_def fp_execute_upgrade_def Let_def intro!: eq_refl [OF spare_same [symmetric]] split: if_splits)

lemma finite_dom_upd: "finite (dom (m(k \<mapsto> v))) \<longleftrightarrow> finite (dom m)"
  by (simp add: dom_fun_upd)

lemma fp_entry_finite: "fp_entry T env x y \<Longrightarrow> finite (dom (fp_pool (fst x))) \<Longrightarrow> finite (dom (fp_pool (fst y)))"
proof (induction rule: fp_entry.induct)
  case (5 b j token x f w f' w')
  from repay_effect [OF 5(1)] obtain q where "fp_pool f' = (fp_pool f)(j \<mapsto> q)" by (auto simp: Let_def)
  with 5(2) show ?case by (auto simp: finite_dom_upd simp del: fun_upd_apply)
next
  case (8 b j f w f' w')
  from accept_effect [OF 8(1)] 8(2) show ?case
    by (auto simp: finite_dom_upd split: if_splits simp del: fun_upd_apply)
qed (auto simp: finite_dom_upd fp_initialize_def set_max_position_bps_def list_position_for_sale_def
    fp_propose_upgrade_def fp_execute_upgrade_def Let_def split: if_splits
    dest!: release_funds_effect mark_default_effect record_position_effect
      propose_early_settlement_effect cancel_early_settlement_effect buy_position_effect
    simp del: fun_upd_apply)

lemma fp_run_finite: "fp_run T x y \<Longrightarrow> finite (dom (fp_pool (fst x))) \<Longrightarrow> finite (dom (fp_pool (fst y)))"
  by (induction rule: fp_run.induct) (auto elim!: fp_step.cases dest: fp_entry_finite)

lemma nft_moves_defaulted: "nft_moves t n n' \<Longrightarrow> nft_inv n \<Longrightarrow> defaulted n k \<Longrightarrow> defaulted n' k"
  unfolding nft_moves_def defaulted_def
  by (auto split: option.splits StoredInvoice.splits dest!: nft_step_lifecycle elim: lifecycleE)

section \<open>Fair runs of the protocol\<close>

text \<open>A step of the deployed protocol in which the call of the pool, if it is one, is fair and finds shares
  that add up to at most 10000 basis points. The rest of the world does not spend what the pool holds:
  it could only with the pool's authorisation.\<close>

inductive fair_step ::
    "'tk token_api \<Rightarrow> deployment \<Rightarrow> env \<Rightarrow> mp_state \<times> 'tk mp_world \<Rightarrow> mp_state \<times> 'tk mp_world \<Rightarrow> bool"
  for T :: "'tk token_api" and D :: deployment and env :: env where
  fs_marketplace: "self env = dp_marketplace D \<Longrightarrow> mp_entry T env (s, w) (s', w') \<Longrightarrow>
    fair_step T D env (s, w) (s', w')"
| fs_pool: "self env = dp_pool D \<Longrightarrow> peer_fp w (dp_pool D) = Some f \<Longrightarrow> fair_entry T env (f, w) (f', w') \<Longrightarrow>
    \<forall>k. shares (fp_positions_of f k) \<le> 10000 \<Longrightarrow>
    fair_step T D env (s, w) (s, w'\<lparr>peer_fp := (peer_fp w')(dp_pool D \<mapsto> f')\<rparr>)"
| fs_nft: "self env = dp_nft D \<Longrightarrow> peer_nft w (dp_nft D) = Some n \<Longrightarrow>
    nft_entry (peer_ac w) (peer_rr w) env n n' \<Longrightarrow>
    fair_step T D env (s, w) (s, w\<lparr>peer_nft := (peer_nft w)(dp_nft D \<mapsto> n')\<rparr>)"
| fs_other: "peer_nft w' (dp_nft D) = peer_nft w (dp_nft D) \<Longrightarrow>
    peer_fp w' (dp_pool D) = peer_fp w (dp_pool D) \<Longrightarrow>
    \<forall>token. tk_balance T token (dp_pool D) (peer_tk w) \<le> tk_balance T token (dp_pool D) (peer_tk w') \<Longrightarrow>
    fair_step T D env (s, w) (s, w')"

lemma fair_step_step: "fair_step T D env x y \<Longrightarrow> kora_step T D env x y"
  by (induction rule: fair_step.induct) (blast intro: kora_step.intros fair_entry_entry)+

inductive fair_run ::
    "'tk token_api \<Rightarrow> deployment \<Rightarrow> u64 \<Rightarrow> mp_state \<times> 'tk mp_world \<Rightarrow> u64 \<Rightarrow> mp_state \<times> 'tk mp_world \<Rightarrow> bool"
  for T :: "'tk token_api" and D :: deployment where
  fr_here: "wired D x \<Longrightarrow> fair_run T D t x t x"
| fr_more: "fair_run T D t x u y \<Longrightarrow> u \<le> timestamp env \<Longrightarrow> outside D env \<Longrightarrow>
    fair_step T D env y z \<Longrightarrow> wired D z \<Longrightarrow> fair_run T D t x (timestamp env) z"

lemma fair_run_run: "fair_run T D t x u y \<Longrightarrow> kora_run T D t x u y"
  by (induction rule: fair_run.induct) (blast intro: kora_run.intros fair_step_step)+

section \<open>Properties\<close>

text \<open>
  C19: the token of a repayment is not checked. A repayment in any other token than the pool's counts in full:
  it can close the pool and turn the invoice to \<open>Repaid\<close>, for good, while the balances of the pool's
  own token stay as they are for everybody: the investors get nothing of what they lent.
\<close>

theorem repayment_token_unchecked:
  assumes "sep41 T" "fp_run T (fp_empty, w0) (s, w)" "repay T env payer k token x (s, w) = Ok (s', w')"
    "get_pool s k = Ok p" "token \<noteq> pool_token p" "get_pool s' k = Ok q" "pool_is_closed q"
  shows "(\<forall>a. tk_balance T (pool_token p) a (peer_tk w') = tk_balance T (pool_token p) a (peer_tk w)) \<and>
    (\<exists>j. fp_load_invoice w' s' k = Ok j \<and> inv_status j = Repaid) \<and>
    (\<forall>s'' w''. fp_run T (s', w') (s'', w'') \<longrightarrow> get_pool s'' k = Ok q)"
proof -
  have q: "fp_pool s' k = Some q" using assms(6) by (simp add: get_pool_def)
  from repay_closing [OF assms(3) q assms(7)] obtain tk where
    tk: "token_transfer T env token payer (self env) x (peer_tk w) = Ok tk"
    and st: "settled T env k token (pool_repaid_amount q) s (w\<lparr>peer_tk := tk\<rparr>) w'" by blast
  have "fp_inv s" using fp_run_inv [OF assms(2)] fp_empty_inv by simp
  from positions_ok_of [OF this] have ok: "smap_ok (fp_positions_of s k)" by (simp add: positions_ok_def)
  have "tk_balance T (pool_token p) a (peer_tk w') = tk_balance T (pool_token p) a (peer_tk w)" for a
    using settled_balance [OF assms(1) st ok, of "pool_token p" a] assms(5)
      sep41_transfer(3) [OF assms(1) tk, of "pool_token p" a] by auto
  moreover have "fp_invoice_nft s' = fp_invoice_nft s" using repay_effect [OF assms(3)] fp_book_fields(3) by blast
  with settled_repaid [OF st] have "\<exists>j. fp_load_invoice w' s' k = Ok j \<and> inv_status j = Repaid" by blast
  moreover have "get_pool s'' k = Ok q" if "fp_run T (s', w') (s'', w'')" for s'' w''
    using fp_run_closed [OF that, of k q] q assms(7) by (simp add: get_pool_def)
  ultimately show ?thesis by blast
qed

lemma fp_demo_repays_junk:
  "\<exists>s w s' w' p q. fp_demo_open = Ok (s, w) \<and> repay plain_token (open_env 500 70) 8 1 77 1000 (s, w) = Ok (s', w') \<and>
     get_pool s 1 = Ok p \<and> pool_token p = 50 \<and> get_pool s' 1 = Ok q \<and> pool_is_closed q"
  by (simp add: fp_eval get_pool_def cong: andThen_weak_cong del: andThen_eq_Ok)

theorem repayment_token_unchecked_witness:
  "\<exists>s w s' w' j. repay plain_token (open_env 500 70) 8 1 77 1000 (s, w) = Ok (s', w') \<and>
     fp_load_invoice w' s' 1 = Ok j \<and> inv_status j = Repaid \<and>
     peer_tk (w' :: (Address \<Rightarrow> Address \<Rightarrow> i128) peers) 50 21 = peer_tk w 50 21"
proof -
  obtain s w s' w' p q where d: "fp_demo_open = Ok (s, w)"
      "repay plain_token (open_env 500 70) 8 1 77 1000 (s, w) = Ok (s', w')"
      "get_pool s 1 = Ok p" "pool_token p = 50" "get_pool s' 1 = Ok q" "pool_is_closed q"
    using fp_demo_repays_junk by blast
  then obtain w0 where r: "fp_run plain_token (fp_empty, w0) (s, w)" using fp_demo_run by blast
  from repayment_token_unchecked [OF sep41_plain_token r d(2,3) _ d(5,6)] d(4)
  obtain j where "fp_load_invoice w' s' 1 = Ok j" "inv_status j = Repaid" "peer_tk w' 50 21 = peer_tk w 50 21"
    by (auto simp: plain_token_def)
  with d(2) show ?thesis by blast
qed

text \<open>
  C20: an early settlement distributes the offer, not what was repaid before. When the last
  acceptance settles a pool, every investor receives exactly its share of the offered amount, and
  the contract's balance falls by the sum of these shares; the booked repaid amount is replaced by
  the offer, and the record of the closed pool never changes again. If the shares of the pool add up
  to at most 10000 basis points, which the contract does not enforce, the contract thus gives away
  at most the offer, which it got in full when the offer was made: repayments made before stay with
  it. In general it gives away at most the offer times the sum of the shares.
\<close>

theorem settlement_pays_offer_only:
  assumes "sep41 T" "fp_run T (fp_empty, w0) (s, w)" "accept_early_settlement T env a k (s, w) = Ok (s', w')"
    "get_pool s k = Ok p" "get_pool s' k = Ok q" "pool_is_closed q"
  shows "\<exists>off cost. get_early_settlement s k = Ok off \<and> pool_repaid_amount q = eso_amount off \<and>
    cost = paid_out (eso_amount off) (tk_decimals T (pool_token p) (peer_tk w)) (fp_positions_of s k) \<and>
    (\<forall>token b. tk_balance T token b (peer_tk w') = tk_balance T token b (peer_tk w) +
       (if token = pool_token p then
          (case smap_get (fp_positions_of s k) b of None \<Rightarrow> 0
           | Some r \<Rightarrow> scaled_share (eso_amount off) (pos_share_bps r) (tk_decimals T (pool_token p) (peer_tk w)))
          - (if b = self env then cost else 0)
        else 0)) \<and>
    0 \<le> cost \<and> cost * 10000 \<le> eso_amount off * shares (fp_positions_of s k) \<and>
    (shares (fp_positions_of s k) \<le> 10000 \<longrightarrow> cost \<le> eso_amount off) \<and>
    (\<forall>s'' w''. fp_run T (s', w') (s'', w'') \<longrightarrow> get_pool s'' k = Ok q)"
proof -
  have inv: "fp_inv s" using fp_run_inv [OF assms(2)] fp_empty_inv by simp
  note pos = positions_ok_of [OF this, of k]
  then have ok: "smap_ok (fp_positions_of s k)" by (simp add: positions_ok_def)
  from accept_effect [OF assms(3)] assms(4-6) obtain off where
    *: "fp_early_settlement s k = Some off" "settled T env k (pool_token p) (eso_amount off) s w w'"
      "pool_repaid_amount q = eso_amount off"
    by (auto simp: get_pool_def split: if_splits)
  have "0 \<le> eso_amount off" using inv *(1) by (auto simp: fp_inv_def offers_ok_def intro: order.strict_implies_order)
  note cost = paid_out_shares [OF this pos] paid_out_bound [OF this]
  have "get_pool s'' k = Ok q" if "fp_run T (s', w') (s'', w'')" for s'' w''
    using fp_run_closed [OF that, of k q] assms(5,6) by (simp add: get_pool_def)
  with *(1,3) cost settled_balance [OF assms(1) *(2) ok] show ?thesis
    by (intro exI [of _ off] exI [of _ "paid_out (eso_amount off) (tk_decimals T (pool_token p) (peer_tk w)) (fp_positions_of s k)"])
      (simp add: get_early_settlement_def)
qed

text \<open>The run of the witness: 400 of 1000 repaid, then a settlement for 900 that both investors accept.\<close>

lemma fp_demo_settles_late:
  "\<exists>s0 w0 s1 w1 s2 w2 s w s' w' p q. fp_demo_open = Ok (s0, w0) \<and>
     repay plain_token (open_env 500 70) 8 1 50 400 (s0, w0) = Ok (s1, w1) \<and>
     propose_early_settlement plain_token (open_env 500 71) 8 1 900 (s1, w1) = Ok (s2, w2) \<and>
     accept_early_settlement plain_token (open_env 500 72) 21 1 (s2, w2) = Ok (s, w) \<and>
     accept_early_settlement plain_token (open_env 500 73) 22 1 (s, w) = Ok (s', w') \<and>
     get_pool s 1 = Ok p \<and> pool_repaid_amount p = 400 \<and> pool_token p = 50 \<and> get_pool s' 1 = Ok q \<and> pool_is_closed q \<and>
     fp_early_settlement s 1 = Some \<lparr>eso_invoice_id = 1, eso_amount = 900, eso_accepted_bps = 5000, eso_accepted = [21]\<rparr> \<and>
     map_option pos_share_bps (smap_get (fp_positions_of s 1) 21) = Some 5000"
  by (simp add: pe_eval cong: andThen_weak_cong del: andThen_eq_Ok)

theorem settlement_pays_offer_only_witness:
  "\<exists>s w s' w' p q. accept_early_settlement plain_token (open_env 500 73) 22 1
       (s, w :: (Address \<Rightarrow> Address \<Rightarrow> i128) peers) = Ok (s', w') \<and>
     get_pool s 1 = Ok p \<and> pool_repaid_amount p = 400 \<and> get_pool s' 1 = Ok q \<and> pool_repaid_amount q = 900 \<and>
     peer_tk w' 50 21 = peer_tk w 50 21 + 450"
proof -
  obtain s0 w0 s1 w1 s2 w2 s w s' w' p q where d: "fp_demo_open = Ok (s0, w0)"
      "repay plain_token (open_env 500 70) 8 1 50 400 (s0, w0) = Ok (s1, w1)"
      "propose_early_settlement plain_token (open_env 500 71) 8 1 900 (s1, w1) = Ok (s2, w2)"
      "accept_early_settlement plain_token (open_env 500 72) 21 1 (s2, w2) = Ok (s, w)"
      "accept_early_settlement plain_token (open_env 500 73) 22 1 (s, w) = Ok (s', w')"
      "get_pool s 1 = Ok p" "pool_repaid_amount p = 400" "pool_token p = 50" "get_pool s' 1 = Ok q" "pool_is_closed q"
      "fp_early_settlement s 1 = Some \<lparr>eso_invoice_id = 1, eso_amount = 900, eso_accepted_bps = 5000, eso_accepted = [21]\<rparr>"
      "map_option pos_share_bps (smap_get (fp_positions_of s 1) 21) = Some 5000"
    using fp_demo_settles_late by blast
  obtain w00 where "fp_run plain_token (fp_empty, w00) (s0, w0)" using fp_demo_run [OF d(1)] by blast
  from fp_more [OF fp_more [OF fp_more [OF this fp_call [OF fp_entry.intros(5) [OF d(2)]]]
        fp_call [OF fp_entry.intros(7) [OF d(3)]]] fp_call [OF fp_entry.intros(8) [OF d(4)]]]
  have r: "fp_run plain_token (fp_empty, w00) (s, w)" .
  from settlement_pays_offer_only [OF sep41_plain_token r d(5,6,9,10)] d(8,11,12)
  have "pool_repaid_amount q = 900" "peer_tk w' 50 21 = peer_tk w 50 21 + 450"
    by (auto simp: get_early_settlement_def plain_token_def scaled_share_def STANDARD_DECIMALS_def)
  with d(5-7,9) show ?thesis by blast
qed

end
