(* ===== verification/Protocol_Runs.thy ===== *)
theory Protocol_Runs
  imports Pool_Solvency
begin

text \<open>
  What holds along the runs of the deployed protocol (\<open>Kora_Protocol\<close>): the agreement of its contracts,
  the refinement of each of them, and two consequences that no contract shows alone: what is left
  of a pool after a default, and of a listing whose pool was opened early.
\<close>

section \<open>After a default\<close>

lemma nft_run_defaulted:
  "nft_run t n u n' \<Longrightarrow> nft_inv n \<Longrightarrow> nft_invoice n k = Some (StoredV2 i) \<Longrightarrow> inv_status i = Defaulted \<Longrightarrow>
     nft_invoice n' k = Some (StoredV2 i)"
proof (induction rule: nft_run.induct)
  case (nft_more t s u s' v s'')
  from nft_step_lifecycle [OF nft_more.hyps(3) nft_run_inv [OF nft_more.hyps(1) nft_more.prems(1)]
      nft_more.IH [OF nft_more.prems]] nft_more.prems(3)
  show ?case by (auto elim: lifecycleE)
qed

text \<open>While the invoice is \<open>Defaulted\<close>, its pool is open and no call of the pool can settle it.\<close>

lemma defaulted_not_settled:
  assumes "settled T env k token r f w w'" "fp_invoice_nft f \<in> {None, Some a}" "peer_nft w a = Some n"
    "nft_invoice n k = Some (StoredV2 i)" "inv_status i = Defaulted"
  shows False
  using assms by (auto simp: settled_def dest!: set_repaid_effect)

lemma defaulted_repay:
  assumes "repay T env payer k token x (f, w) = Ok (f', w')" "fp_invoice_nft f \<in> {None, Some a}"
    "peer_nft w a = Some n" "nft_invoice n k = Some (StoredV2 i)" "inv_status i = Defaulted"
  shows "\<exists>q tk. fp_pool f' k = Some q \<and> \<not> pool_is_closed q \<and> w' = w\<lparr>peer_tk := tk\<rparr> \<and>
    token_transfer T env token payer (self env) x (peer_tk w) = Ok tk"
proof -
  from repay_effect [OF assms(1)] obtain p j eff p1 evs tk where
    *: "\<not> pool_is_closed p" "apply_late_penalty env k j p = Ok (p1, evs)"
      "token_transfer T env token payer (self env) x (peer_tk w) = Ok tk"
      "fp_pool f' = (fp_pool f)(k \<mapsto> p1\<lparr>pool_repaid_amount := pool_repaid_amount p1 + eff,
        pool_is_closed := (pool_total_owed p1 \<le> pool_repaid_amount p1 + eff \<or> pool_is_closed p1)\<rparr>)"
      "if pool_total_owed p1 \<le> pool_repaid_amount p1 + eff
       then settled T env k token (pool_repaid_amount p1 + eff) f (w\<lparr>peer_tk := tk\<rparr>) w'
       else w' = w\<lparr>peer_tk := tk\<rparr>"
    unfolding Let_def by blast
  have "\<not> pool_total_owed p1 \<le> pool_repaid_amount p1 + eff"
    using *(5) defaulted_not_settled [OF _ assms(2) _ assms(4,5), where w = "w\<lparr>peer_tk := tk\<rparr>"] assms(3)
    by auto
  moreover have "\<not> pool_is_closed p1" using apply_late_penalty_effect [OF *(2)] *(1) by auto
  ultimately show ?thesis using *(3-5) by simp
qed

lemma defaulted_accept:
  assumes "accept_early_settlement T env ivr k (f, w) = Ok (f', w')" "fp_invoice_nft f \<in> {None, Some a}"
    "peer_nft w a = Some n" "nft_invoice n k = Some (StoredV2 i)" "inv_status i = Defaulted"
  shows "w' = w"
proof -
  from accept_effect [OF assms(1)] obtain off p and b :: u32 where
    *: "if 10000 \<le> b then
         fp_pool f' = (fp_pool f)(k \<mapsto> p\<lparr>pool_repaid_amount := eso_amount off, pool_is_closed := True\<rparr>) \<and>
         settled T env k (pool_token p) (eso_amount off) f w w' \<and>
         fp_early_settlement f' = (fp_early_settlement f)(k := None)
       else fp_pool f' = fp_pool f \<and> w' = w \<and> fp_early_settlement f' = (fp_early_settlement f)(k \<mapsto>
         off\<lparr>eso_accepted := eso_accepted off @ [ivr], eso_accepted_bps := b\<rparr>)"
    by blast
  moreover have "\<not> settled T env k (pool_token p) (eso_amount off) f w w'"
    using defaulted_not_settled [OF _ assms(2-5)] by blast
  ultimately show ?thesis by (simp split: if_splits)
qed

lemma defaulted_default:
  assumes "fp_invoice_nft f \<in> {None, Some a}" "peer_nft w a = Some n"
    "nft_invoice n k = Some (StoredV2 i)" "inv_status i = Defaulted"
  shows "mark_default T env ad k token (f, w) \<noteq> Ok z"
  using assms by (cases z) (auto dest!: mark_default_effect set_defaulted_effect)

section \<open>A pool opened early\<close>

text \<open>No call removes a pool.\<close>

lemma fp_entry_pool_kept: "fp_entry T env x y \<Longrightarrow> fp_pool (fst x) k \<noteq> None \<Longrightarrow> fp_pool (fst y) k \<noteq> None"
proof (induction rule: fp_entry.induct)
  case (5 b j token x f w f' w')
  from repay_effect [OF 5(1)] 5(2) show ?case by (auto simp: Let_def)
next
  case (8 b j f w f' w')
  from accept_effect [OF 8(1)] 8(2) show ?case by (auto split: if_splits)
qed (auto simp: fp_initialize_def set_max_position_bps_def list_position_for_sale_def
    fp_propose_upgrade_def fp_execute_upgrade_def Let_def split: if_splits
    dest!: release_funds_effect mark_default_effect record_position_effect
      propose_early_settlement_effect cancel_early_settlement_effect buy_position_effect)

lemma fp_run_pool_kept: "fp_run T x y \<Longrightarrow> fp_pool (fst x) k \<noteq> None \<Longrightarrow> fp_pool (fst y) k \<noteq> None"
  by (induction rule: fp_run.induct) (auto elim!: fp_step.cases dest: fp_entry_pool_kept [where k = k])

text \<open>A contribution that fills a listing opens its pool, and so fails where there is one.\<close>

lemma fund_no_pool:
  assumes "fund_invoice T env i k x (s, w) = Ok (s', w')" "wired D (s, w)" "peer_fp w (dp_pool D) = Some f"
    "fp_pool f k \<noteq> None"
  shows "\<exists>l. mp_listing s' k = Some l \<and> lst_funded_amount l < lst_asking_price l"
proof -
  from fund_effect [OF assms(1)] obtain l c inv fee w1 full where
    *: "load_config s = Ok (c, s\<lparr>mp_config := Some c\<rparr>)"
      "bps_of_normalized x (unwrap_or (mp_tier_fee_bps s (tier_ordinal (inv_risk_tier (inv :: Invoice)))) (mc_fee_bps c))
        (tk_decimals T (lst_token l) (peer_tk w)) = Ok fee"
      "mp_pay T env c (lst_token l) i fee (x - fee) w = Ok w1"
      "mp_book_contribution env i k x fee (x - fee) l (s\<lparr>mp_config := Some c\<rparr>) = Ok (full, s')"
      "if full then mp_release env c k (lst_token l) w1 = Ok w' else w' = w1"
    by blast
  from mp_pay_effect [OF *(3) bps_of_normalized_nonneg [OF *(2)]] obtain tk tr where
    w1: "w1 = w\<lparr>peer_tk := tk, peer_tr := tr\<rparr>" by blast
  have "mc_financing_pool c = dp_pool D" using *(1) assms(2) by (simp add: wired_def)
  then have "mp_release env c k (lst_token l) w1 \<noteq> Ok w'"
    using w1 assms(3,4) by (auto dest!: mp_release_effect release_funds_effect)
  with *(5) have "\<not> full" by auto
  with mp_book_effect [OF *(4)] show ?thesis by auto
qed

definition not_full :: "mp_state \<Rightarrow> u64 \<Rightarrow> bool" where
  "not_full s k \<longleftrightarrow> (\<exists>l. mp_listing s k = Some l \<and> lst_funded_amount l < lst_asking_price l)"

lemma not_full_frame [simp]:
  "not_full (s\<lparr>mp_config := x1\<rparr>) = not_full s" "not_full (s\<lparr>mp_events := x2\<rparr>) = not_full s"
  "not_full (s\<lparr>mp_refund_claimed := x3\<rparr>) = not_full s" "not_full (s\<lparr>mp_whitelisted := x4\<rparr>) = not_full s"
  "not_full (s\<lparr>mp_tier_fee_bps := x5\<rparr>) = not_full s" "not_full (s\<lparr>mp_upgrade_proposal := x6\<rparr>) = not_full s"
  "not_full (s\<lparr>mp_code := x7\<rparr>) = not_full s"
  "not_full (s\<lparr>mp_admin := b1, mp_invoice_nft := b2, mp_financing_pool := b3, mp_treasury := b4,
     mp_fee_bps := b5, mp_access_control := b6, mp_risk_registry := b7\<rparr>) = not_full s"
  by (simp_all add: not_full_def fun_eq_iff)

lemma cancel_not_full:
  "cancel_listing env a j s = Ok s' \<Longrightarrow> not_full s k \<Longrightarrow> not_full s' k"
  "request_cancellation env a j s = Ok s' \<Longrightarrow> not_full s k \<Longrightarrow> not_full s' k"
  "admin_confirm_cancellation env a j s = Ok s' \<Longrightarrow> not_full s k \<Longrightarrow> not_full s' k"
  by (auto simp: not_full_def dest!: cancel_listing_effect request_cancellation_effect admin_confirm_effect
      split: if_splits)

lemma mp_entry_not_full:
  assumes "mp_entry T env x y" "wired D x" "peer_fp (snd x) (dp_pool D) = Some f" "fp_pool f k \<noteq> None"
    "not_full (fst x) k"
  shows "not_full (fst y) k"
  using assms
proof (induction rule: mp_entry.induct)
  case (mp_list a j x y token deadline r s w s' w')
  from list_invoice_effect [OF mp_list(1)] mp_list(5) show ?case by (auto simp: not_full_def)
next
  case (mp_fund a j x s w s' w')
  show ?case
  proof (cases "j = k")
    case True
    with fund_no_pool [OF mp_fund(1), of D f] mp_fund(2-4) show ?thesis by (simp add: not_full_def)
  next
    case False
    from fund_effect [OF mp_fund(1)] obtain fee net l c full where
      "mp_book_contribution env a j x fee net l (s\<lparr>mp_config := Some c\<rparr>) = Ok (full, s')" by blast
    from mp_book_effect [OF this] False have "mp_listing s' k = mp_listing s k" by auto
    with mp_fund(5) show ?thesis by (simp add: not_full_def)
  qed
next
  case (mp_refund a j s w s' w')
  from claim_refund_effect [OF mp_refund(1)] mp_refund(5) show ?case by (auto simp: not_full_def)
qed (auto simp: mp_initialize_def set_referrer_split_bps_def update_fee_bps_def
    mp_set_fee_bps_def set_tier_fee_bps_def mp_whitelist_token_def remove_token_whitelist_def
    mp_propose_upgrade_def mp_execute_upgrade_def Let_def
    dest!: mp_load_admin_effect load_config_effect elim: cancel_not_full)

lemma kora_step_not_full:
  "kora_step T D env x y \<Longrightarrow> wired D x \<Longrightarrow> peer_fp (snd x) (dp_pool D) = Some f \<Longrightarrow> fp_pool f k \<noteq> None \<Longrightarrow>
     not_full (fst x) k \<Longrightarrow> not_full (fst y) k"
  by (induction rule: kora_step.induct) (auto dest: mp_entry_not_full)

lemma kora_run_not_full:
  assumes "kora_run T D t x u y" "peer_fp (snd x) (dp_pool D) = Some f"
    "peer_nft (snd x) (dp_nft D) = Some n" "coherent (fst x) f n" "fp_pool f k \<noteq> None" "not_full (fst x) k"
  shows "not_full (fst y) k"
  using assms
proof (induction rule: kora_run.induct)
  case (kr_more t x u y env z)
  from kora_run_projects [OF kr_more.hyps(1) kr_more.prems(1-3)] obtain f1 where
    1: "peer_fp (snd y) (dp_pool D) = Some f1" "fp_run T (f, snd x) (f1, snd y)" "wired D y" by blast
  have "fp_pool f1 k \<noteq> None" using fp_run_pool_kept [OF 1(2), of k] kr_more.prems(4) by simp
  with kora_step_not_full [OF kr_more.hyps(4) 1(3,1)] kr_more.IH [OF kr_more.prems] show ?case by blast
qed

section \<open>A run for the witnesses\<close>

text \<open>The set-up of the three contracts, an invoice of 1000 that is listed for 900 and funded by the
  investors 21 and 22, its default after the due date, and a repayment of 100 after that. No
  contract signs.\<close>

definition user_env :: "Address \<Rightarrow> u64 \<Rightarrow> env" where
  "user_env c t = \<lparr>self = c, invoker = None, timestamp = t, auth = (\<lambda>_ a. a \<notin> {300, 400, 500})\<rparr>"

definition kd :: deployment where
  "kd = \<lparr>dp_marketplace = 400, dp_pool = 500, dp_nft = 300\<rparr>"

definition kd_world :: "(Address \<Rightarrow> Address \<Rightarrow> i128) mp_world" where
  "kd_world = \<lparr>peer_ac = nft_demo_ac, peer_rr = [200 \<mapsto> ff_registry], peer_or = [700 \<mapsto> or_empty],
     peer_nft = [300 \<mapsto> nft_empty], peer_tk = (\<lambda>_ a. if a = 8 \<or> a = 21 \<or> a = 22 then 1000 else 0),
     peer_tr = [600 \<mapsto> tr_demo], peer_fp = [500 \<mapsto> fp_empty]\<rparr>"

definition kd_ready :: "(mp_state \<times> (Address \<Rightarrow> Address \<Rightarrow> i128) mp_world) res" where
  "kd_ready =
     andThen (nft_initialize (user_env 300 10) 1 100 nft_empty) (\<lambda>n.
     andThen (set_authorized_callers (user_env 300 20) 1 400 500 n) (\<lambda>n.
     andThen (mint_invoice (peer_ac kd_world) (peer_rr kd_world) (user_env 300 30) 8 [1] 1000 ''USDC''
                9000 ''Qm'' 35 None n) (\<lambda>(k, n).
     andThen (fp_initialize (user_env 500 31) 1 300 200 600 100 500 700 5000 fp_empty) (\<lambda>f.
     andThen (mp_initialize 1 300 500 600 100 200 50 mp_empty) (\<lambda>s.
     andThen (mp_whitelist_token (user_env 400 35) 1 50 s) (\<lambda>s.
     Ok (s, kd_world\<lparr>peer_nft := (peer_nft kd_world)(300 \<mapsto> n), peer_fp := (peer_fp kd_world)(500 \<mapsto> f)\<rparr>)))))))"

definition kd_funded :: "(mp_state \<times> (Address \<Rightarrow> Address \<Rightarrow> i128) mp_world) res" where
  "kd_funded =
     andThen kd_ready (\<lambda>x.
     andThen (list_invoice (user_env 400 40) 9 1 900 1000 50 5000 None x) (\<lambda>x.
     andThen (fund_invoice plain_token (user_env 400 50) 21 1 600 x) (\<lambda>x.
     fund_invoice plain_token (user_env 400 60) 22 1 300 x)))"

definition kd_defaulted :: "(fp_state \<times> (Address \<Rightarrow> Address \<Rightarrow> i128) mp_world) res" where
  "kd_defaulted =
     andThen kd_funded (\<lambda>(s, w).
     andThen (deployed (peer_fp w 500)) (\<lambda>f.
     mark_default plain_token (user_env 500 9001) 1 1 50 (f, w)))"

definition kd_early :: "(mp_state \<times> (Address \<Rightarrow> Address \<Rightarrow> i128) mp_world \<times> fp_state \<times>
    (Address \<Rightarrow> Address \<Rightarrow> i128) mp_world) res" where
  "kd_early =
     andThen kd_ready (\<lambda>x.
     andThen (list_invoice (user_env 400 40) 9 1 900 1000 50 5000 None x) (\<lambda>(s, w).
     andThen (deployed (peer_fp w 500)) (\<lambda>f.
     andThen (release_funds (user_env 500 41) 99 1 50 (f, w)) (\<lambda>(f, w').
     Ok (s, w, f, w')))))"

lemmas kd_eval =
  kd_early_def
  kd_ready_def kd_funded_def kd_defaulted_def kd_world_def user_env_def ff_eval mark_default_def
  fp_report_default_def record_default_def rr_require_admin_def bps_of_def

lemma kd_reaches:
  "\<exists>s w f n l i p. kd_funded = Ok (s, w) \<and> peer_fp w 500 = Some f \<and> peer_nft w 300 = Some n \<and>
     get_listing s 1 = Ok l \<and> lst_funded_amount l = 900 \<and> get_invoice n 1 = Ok i \<and> inv_status i = Funded \<and>
     get_pool f 1 = Ok p"
  by (simp add: kd_eval get_listing_def get_pool_def cong: andThen_weak_cong del: andThen_eq_Ok)

lemma kd_opens_early:
  "\<exists>s w0 f w l p. kd_early = Ok (s, w0, f, w) \<and> get_listing s 1 = Ok l \<and> lst_funded_amount l = 0 \<and>
     lst_asking_price l = 900 \<and> get_pool f 1 = Ok p \<and> pool_total_owed p = 1000"
  by (simp add: kd_eval get_listing_def get_pool_def cong: andThen_weak_cong del: andThen_eq_Ok)

lemma kd_after_default:
  "\<exists>f w n i f' w'. kd_defaulted = Ok (f, w) \<and> peer_nft w 300 = Some n \<and> get_invoice n 1 = Ok i \<and>
     inv_status i = Defaulted \<and>
     repay plain_token (user_env 500 9100) 8 1 50 100 (f, w\<lparr>peer_fp := (peer_fp w)(500 \<mapsto> f)\<rparr>) = Ok (f', w')"
  by (simp add: kd_eval cong: andThen_weak_cong del: andThen_eq_Ok)

text \<open>The steps of the run keep the wiring.\<close>

lemma list_wired:
  assumes "list_invoice env seller k ask face token deadline ref (s, w) = Ok (s', w')" "wired D (s, w)"
  shows "wired D (s', w')"
proof -
  from list_invoice_effect [OF assms(1)] obtain c n n' where
    *: "load_config s = Ok (c, s\<lparr>mp_config := Some c\<rparr>)" "peer_nft w (mc_invoice_nft c) = Some n"
      "set_listed (peer_ac w) (subcall env (mc_invoice_nft c)) (self env) k n = Ok n'"
      "w' = w\<lparr>peer_nft := (peer_nft w)(mc_invoice_nft c \<mapsto> n')\<rparr>" "mp_config s' = Some c"
    by fastforce
  have "nft_marketplace n' = nft_marketplace n" "nft_financing_pool n' = nft_financing_pool n"
    using set_listed_effect [OF *(3)] by auto
  with * assms(2) show ?thesis by (auto simp: wired_def load_config_def)
qed

lemma fund_wired:
  assumes "fund_invoice T env i k x (s, w) = Ok (s', w')" "wired D (s, w)"
  shows "wired D (s', w')"
proof -
  from fund_effect [OF assms(1)] obtain l c inv fee w1 full where
    *: "load_config s = Ok (c, s\<lparr>mp_config := Some c\<rparr>)"
      "bps_of_normalized x (unwrap_or (mp_tier_fee_bps s (tier_ordinal (inv_risk_tier (inv :: Invoice)))) (mc_fee_bps c))
        (tk_decimals T (lst_token l) (peer_tk w)) = Ok fee"
      "mp_pay T env c (lst_token l) i fee (x - fee) w = Ok w1"
      "mp_book_contribution env i k x fee (x - fee) l (s\<lparr>mp_config := Some c\<rparr>) = Ok (full, s')"
      "if full then mp_release env c k (lst_token l) w1 = Ok w' else w' = w1"
    by blast
  from mp_pay_effect [OF *(3) bps_of_normalized_nonneg [OF *(2)]] obtain tk tr where
    w1: "w1 = w\<lparr>peer_tk := tk, peer_tr := tr\<rparr>" by blast
  have s': "load_config s' = Ok (c, s')" using mp_book_effect [OF *(4)] by (auto simp: load_config_def)
  show ?thesis
  proof (cases full)
    case True
    with *(5) have "mp_release env c k (lst_token l) w1 = Ok w'" by simp
    from mp_release_effect [OF this] obtain f f' m where
      r: "peer_fp w1 (mc_financing_pool c) = Some f"
        "release_funds (subcall env (mc_financing_pool c)) (self env) k (lst_token l) (f, w1) = Ok (f', w1\<lparr>peer_nft := m\<rparr>)"
        "w' = w1\<lparr>peer_nft := m, peer_fp := (peer_fp w1)(mc_financing_pool c \<mapsto> f')\<rparr>" by blast
    from release_funds_effect [OF r(2)] obtain a n n' where
      u: "fp_book f' = fp_book f" "fp_invoice_nft f = Some a" "peer_nft w1 a = Some n"
        "set_funded (peer_ac w1) (subcall (subcall env (mc_financing_pool c)) a) (mc_financing_pool c) k n = Ok n'"
        "w1\<lparr>peer_nft := m\<rparr> = w1\<lparr>peer_nft := (peer_nft w1)(a \<mapsto> n')\<rparr>" by auto
    have "m = (peer_nft w)(a \<mapsto> n')" using arg_cong [OF u(5), of peer_nft] w1 by simp
    moreover have "nft_marketplace n' = nft_marketplace n" "nft_financing_pool n' = nft_financing_pool n"
      using set_funded_effect [OF u(4)] by auto
    ultimately show ?thesis
      using assms(2) *(1) s' r(1,3) u(2,3) w1 fp_book_fields(3) [OF u(1)] by (auto simp: wired_def)
  next
    case False
    with *(5) s' w1 assms(2) *(1) show ?thesis by (auto simp: wired_def)
  qed
qed

lemma mark_default_wired:
  assumes "mark_default T env ad k token (f, w) = Ok (f', w')" "wired D (s, w)" "peer_fp w (dp_pool D) = Some f"
  shows "wired D (s, w'\<lparr>peer_fp := (peer_fp w')(dp_pool D \<mapsto> f')\<rparr>)"
proof -
  from mark_default_effect [OF assms(1)] obtain a n n' where
    *: "fp_invoice_nft f = Some a" "peer_nft w a = Some n" "set_defaulted (subcall env a) ad k n = Ok n'"
      "peer_nft w' = (peer_nft w)(a \<mapsto> n')" "fp_book f' = fp_book f" by auto
  have "nft_marketplace n' = nft_marketplace n" "nft_financing_pool n' = nft_financing_pool n"
    using set_defaulted_effect [OF *(3)] by (auto simp: nft_release_exposure_def)
  with *(1,2,4) assms(2,3) fp_book_fields(3) [OF *(5)] show ?thesis by (auto simp: wired_def)
qed

lemma release_wired:
  assumes "release_funds env m k token (f, w) = Ok (f', w')" "wired D (s, w)" "peer_fp w (dp_pool D) = Some f"
  shows "wired D (s, w'\<lparr>peer_fp := (peer_fp w')(dp_pool D \<mapsto> f')\<rparr>)"
proof -
  from release_funds_effect [OF assms(1)] obtain a n n' where
    *: "fp_invoice_nft f = Some a" "peer_nft w a = Some n"
      "set_funded (peer_ac w) (subcall env a) (self env) k n = Ok n'"
      "peer_nft w' = (peer_nft w)(a \<mapsto> n')" "fp_book f' = fp_book f" by auto
  have "nft_marketplace n' = nft_marketplace n" "nft_financing_pool n' = nft_financing_pool n"
    using set_funded_effect [OF *(3)] by auto
  with *(1,2,4) assms(2,3) fp_book_fields(3) [OF *(5)] show ?thesis by (auto simp: wired_def)
qed

lemma kd_simps [simp]:
  "dp_marketplace kd = 400" "dp_pool kd = 500" "dp_nft kd = 300" "outside kd (user_env c t)"
  "self (user_env c t) = c" "timestamp (user_env c t) = t" "deployed_new kd (mp_empty, kd_world)"
  by (simp_all add: kd_def outside_def user_env_def deployed_new_def kd_world_def)

lemma kd_more:
  assumes "kora_run T kd t x u y" "u \<le> v" "kora_step T kd (user_env c v) y z" "wired kd z"
  shows "kora_run T kd t x v z"
  using kr_more [OF assms(1), of "user_env c v" z] assms(2-4) by simp

lemma kd_fair:
  assumes "fair_run T kd t x u y" "u \<le> v" "fair_step T kd (user_env c v) y z" "wired kd z"
  shows "fair_run T kd t x v z"
  using fr_more [OF assms(1), of "user_env c v" z] assms(2-4) by simp

definition kd_with :: "nft_state \<Rightarrow> (Address \<Rightarrow> Address \<Rightarrow> i128) mp_world" where
  "kd_with n = kd_world\<lparr>peer_nft := (peer_nft kd_world)(300 \<mapsto> n)\<rparr>"

lemma kd_nft_step:
  "nft_entry (peer_ac kd_world) (peer_rr kd_world) (user_env 300 t) n n' \<Longrightarrow>
     fair_step plain_token kd (user_env 300 t) (s, kd_with n) (s, kd_with n')"
  using fs_nft [of "user_env 300 t" kd "kd_with n" n n' plain_token s] by (simp add: kd_with_def)

lemma kd_wired_nft:
  "nft_marketplace n \<in> {None, Some 400} \<Longrightarrow> nft_financing_pool n \<in> {None, Some 500} \<Longrightarrow> wired kd (mp_empty, kd_with n)"
  by (simp add: wired_def load_config_def mp_empty_def kd_with_def kd_world_def fp_empty_def)

lemma kd_ready_fair:
  assumes "kd_ready = Ok (s, w)"
  shows "fair_run plain_token kd 0 (mp_empty, kd_world) 35 (s, w) \<and> wired kd (s, w)"
proof -
  from assms obtain n1 n2 n3 m f s1 where
    st: "nft_initialize (user_env 300 10) 1 100 nft_empty = Ok n1"
      "set_authorized_callers (user_env 300 20) 1 400 500 n1 = Ok n2"
      "mint_invoice (peer_ac kd_world) (peer_rr kd_world) (user_env 300 30) 8 [1] 1000 ''USDC'' 9000 ''Qm'' 35 None n2
        = Ok (m, n3)"
      "fp_initialize (user_env 500 31) 1 300 200 600 100 500 700 5000 fp_empty = Ok f"
      "mp_initialize 1 300 500 600 100 200 50 mp_empty = Ok s1"
      "mp_whitelist_token (user_env 400 35) 1 50 s1 = Ok s"
      "w = (kd_with n3)\<lparr>peer_fp := (peer_fp kd_world)(500 \<mapsto> f)\<rparr>"
    by (auto simp: kd_ready_def kd_with_def)
  have nft: "nft_marketplace n1 = None" "nft_financing_pool n1 = None"
      "nft_marketplace n2 = Some 400" "nft_financing_pool n2 = Some 500"
      "nft_marketplace n3 = Some 400" "nft_financing_pool n3 = Some 500"
    using st(1-3) by (auto simp: nft_initialize_def nft_empty_def set_authorized_callers_def mint_invoice_eq_Ok)
  have f: "fp_invoice_nft f = Some 300" using st(4) by (auto simp: fp_initialize_def split: if_splits)
  have c: "mp_config s1 = Some c \<Longrightarrow> mc_invoice_nft c = 300 \<and> mc_financing_pool c = 500" "mp_config s = mp_config s1"
      "mp_config s1 \<noteq> None" for c
    using st(5,6)
    by (auto simp: mp_initialize_def Let_def mp_whitelist_token_def load_config_def dest!: mp_load_admin_effect)
  have "kd_with nft_empty = kd_world" by (simp add: kd_with_def kd_world_def)
  then have "fair_run plain_token kd 0 (mp_empty, kd_world) 0 (mp_empty, kd_with nft_empty)"
    using fr_here [OF kd_wired_nft [of nft_empty]] by (simp add: nft_empty_def)
  then have r: "fair_run plain_token kd 0 (mp_empty, kd_world) 30 (mp_empty, kd_with n3)"
    using kd_fair [OF kd_fair [OF kd_fair [OF _ _ kd_nft_step [OF nft_entry.intros(1) [OF st(1)]]]
          _ kd_nft_step [OF nft_entry.intros(3) [OF st(2)]]] _ kd_nft_step [OF nft_entry.intros(4) [OF st(3)]]]
      kd_wired_nft nft by simp
  have e: "fair_step plain_token kd (user_env 500 31) (mp_empty, kd_with n3) (mp_empty, w)"
      "fair_step plain_token kd (user_env 400 32) (mp_empty, w) (s1, w)"
      "fair_step plain_token kd (user_env 400 35) (s1, w) (s, w)"
    using fs_pool [of "user_env 500 31" kd "kd_with n3" fp_empty plain_token f "kd_with n3" mp_empty]
      fe_init [OF st(4), of plain_token "kd_with n3"] st(7)
    by (simp_all add: kd_with_def kd_world_def fp_positions_of_def fp_empty_def fs_marketplace mp_init [OF st(5)] mp_white [OF st(6)])
  have w: "wired kd (mp_empty, w)" "wired kd (s1, w)" "wired kd (s, w)"
    using c f nft(5,6) st(7)
    by (auto simp: wired_def load_config_def mp_empty_def kd_with_def split: option.splits)
  from kd_fair [OF kd_fair [OF kd_fair [OF r _ e(1) w(1)] _ e(2) w(2)] _ e(3) w(3)] w(3) show ?thesis by simp
qed

lemma kd_funded_fair:
  assumes "kd_funded = Ok (s, w)"
  shows "fair_run plain_token kd 0 (mp_empty, kd_world) 60 (s, w) \<and> wired kd (s, w)"
proof -
  from assms [unfolded kd_funded_def] obtain s0 w0 s1 w1 s2 w2 where
    st: "kd_ready = Ok (s0, w0)" "list_invoice (user_env 400 40) 9 1 900 1000 50 5000 None (s0, w0) = Ok (s1, w1)"
      "fund_invoice plain_token (user_env 400 50) 21 1 600 (s1, w1) = Ok (s2, w2)"
      "fund_invoice plain_token (user_env 400 60) 22 1 300 (s2, w2) = Ok (s, w)"
    by auto
  note r = kd_ready_fair [OF st(1)]
  have w: "wired kd (s1, w1)" "wired kd (s2, w2)" "wired kd (s, w)"
    using r list_wired [OF st(2)] fund_wired [OF st(3)] fund_wired [OF st(4)] by blast+
  have e: "fair_step plain_token kd (user_env 400 40) (s0, w0) (s1, w1)"
      "fair_step plain_token kd (user_env 400 50) (s1, w1) (s2, w2)"
      "fair_step plain_token kd (user_env 400 60) (s2, w2) (s, w)"
    by (simp_all add: fs_marketplace mp_list [OF st(2)] mp_fund [OF st(3)] mp_fund [OF st(4)])
  from kd_fair [OF kd_fair [OF kd_fair [OF conjunct1 [OF r] _ e(1) w(1)] _ e(2) w(2)] _ e(3) w(3)] w(3) show ?thesis by simp
qed

lemma kd_ready_run:
  "kd_ready = Ok (s, w) \<Longrightarrow> kora_run plain_token kd 0 (mp_empty, kd_world) 35 (s, w) \<and> wired kd (s, w)"
  using kd_ready_fair fair_run_run by blast

lemma kd_funded_run:
  "kd_funded = Ok (s, w) \<Longrightarrow> kora_run plain_token kd 0 (mp_empty, kd_world) 60 (s, w) \<and> wired kd (s, w)"
  using kd_funded_fair fair_run_run by blast

lemma kd_early_run:
  assumes "kd_early = Ok (s, w0, f, w)"
  shows "kora_run plain_token kd 0 (mp_empty, kd_world) 41 (s, w\<lparr>peer_fp := (peer_fp w)(500 \<mapsto> f)\<rparr>) \<and>
    wired kd (s, w\<lparr>peer_fp := (peer_fp w)(500 \<mapsto> f)\<rparr>)"
proof -
  from assms [unfolded kd_early_def] obtain s1 w1 f0 where
    st: "kd_ready = Ok (s1, w1)" "list_invoice (user_env 400 40) 9 1 900 1000 50 5000 None (s1, w1) = Ok (s, w0)"
      "peer_fp w0 500 = Some f0" "release_funds (user_env 500 41) 99 1 50 (f0, w0) = Ok (f, w)"
    by (auto simp: case_prod_beta)
  note r = kd_ready_run [OF st(1)]
  have w0: "wired kd (s, w0)" using r list_wired [OF st(2)] by blast
  have w: "wired kd (s, w\<lparr>peer_fp := (peer_fp w)(500 \<mapsto> f)\<rparr>)"
    using release_wired [OF st(4), of kd s] w0 st(3) by simp
  have e: "kora_step plain_token kd (user_env 400 40) (s1, w1) (s, w0)"
      "kora_step plain_token kd (user_env 500 41) (s, w0) (s, w\<lparr>peer_fp := (peer_fp w)(500 \<mapsto> f)\<rparr>)"
    using ks_pool [OF _ _ fp_entry.intros(2) [OF st(4)], where D = kd and s = s and T = plain_token] st(3)
    by (simp_all add: ks_marketplace mp_list [OF st(2)])
  from kd_more [OF kd_more [OF conjunct1 [OF r] _ e(1) w0] _ e(2) w] w show ?thesis by simp
qed

lemma kd_defaulted_run:
  assumes "kd_defaulted = Ok (f, w)"
  shows "\<exists>s. kora_run plain_token kd 0 (mp_empty, kd_world) 9001 (s, w\<lparr>peer_fp := (peer_fp w)(500 \<mapsto> f)\<rparr>) \<and>
    wired kd (s, w\<lparr>peer_fp := (peer_fp w)(500 \<mapsto> f)\<rparr>)"
proof -
  from assms [unfolded kd_defaulted_def] obtain s w0 f0 where
    st: "kd_funded = Ok (s, w0)" "peer_fp w0 500 = Some f0"
      "mark_default plain_token (user_env 500 9001) 1 1 50 (f0, w0) = Ok (f, w)"
    by auto
  note r = kd_funded_run [OF st(1)]
  have w: "wired kd (s, w\<lparr>peer_fp := (peer_fp w)(500 \<mapsto> f)\<rparr>)"
    using mark_default_wired [OF st(3), of kd s] r st(2) by simp
  have "kora_step plain_token kd (user_env 500 9001) (s, w0) (s, w\<lparr>peer_fp := (peer_fp w)(500 \<mapsto> f)\<rparr>)"
    using ks_pool [OF _ _ fp_entry.intros(6) [OF st(3)], of kd s] st(2) by simp
  from kd_more [OF conjunct1 [OF r] _ this w] w show ?thesis by (intro exI [of _ s]) simp
qed

section \<open>Properties\<close>

text \<open>
  C2: in every reachable state of the deployed protocol the marketplace, the pool and the invoice
  contract agree on every invoice. An invoice has a listing exactly when it left \<open>Created\<close>, and a
  pool exactly when it left \<open>Listed\<close>; the pool is closed exactly when the invoice is \<open>Repaid\<close>; listing and
  pool carry its amount; a fully funded listing has its pool. There is no listing and no pool
  without an invoice.
\<close>

theorem protocol_coherent:
  assumes "kora_run T D t x u (s, w)" "deployed_new D x"
  shows "\<exists>f n. peer_fp w (dp_pool D) = Some f \<and> peer_nft w (dp_nft D) = Some n \<and>
    (\<forall>k i. get_invoice n k = Ok i \<longrightarrow>
       (mp_listing s k = None \<longleftrightarrow> inv_status i = Created) \<and>
       (fp_pool f k = None \<longleftrightarrow> inv_status i \<in> {Created, Listed}) \<and>
       (\<forall>p. get_pool f k = Ok p \<longrightarrow> pool_face_value p = inv_amount i \<and>
          (pool_is_closed p \<longleftrightarrow> inv_status i = Repaid)) \<and>
       (\<forall>l. get_listing s k = Ok l \<longrightarrow> lst_face_value l = inv_amount i \<and>
          (lst_asking_price l \<le> lst_funded_amount l \<longrightarrow> fp_pool f k \<noteq> None))) \<and>
    (\<forall>k. (\<forall>i. get_invoice n k \<noteq> Ok i) \<longrightarrow> mp_listing s k = None \<and> fp_pool f k = None)"
proof -
  from deployed_new_runs [OF assms] obtain f n where
    *: "peer_fp w (dp_pool D) = Some f" "peer_nft w (dp_nft D) = Some n" "coherent s f n" by auto
  have yes: "agree (mp_listing s k) (Some (StoredV2 i)) (fp_pool f k)" if "get_invoice n k = Ok i" for k i
    using coherentD [OF *(3), of k] that by (simp add: get_invoice_def)
  have no: "nft_invoice n k = None" if "\<forall>i. get_invoice n k \<noteq> Ok i" for k
    using coherentD [OF *(3), of k] that
    by (auto simp: agree_def get_invoice_def split: option.splits StoredInvoice.splits)
  have phase: "pool_phase st = None \<longleftrightarrow> st \<in> {Created, Listed}"
      "pool_phase st = Some c \<Longrightarrow> c \<longleftrightarrow> st = Repaid" for st c by (cases st; auto)+
  show ?thesis
  proof (intro exI conjI allI impI)
    fix k i assume "get_invoice n k = Ok i"
    note a = yes [OF this, unfolded agree_V2]
    show "mp_listing s k = None \<longleftrightarrow> inv_status i = Created" using a by blast
    show "fp_pool f k = None \<longleftrightarrow> inv_status i \<in> {Created, Listed}"
      using a phase(1) by (metis map_option_is_None)
    show "pool_face_value p = inv_amount i" "pool_is_closed p \<longleftrightarrow> inv_status i = Repaid"
      if "get_pool f k = Ok p" for p
      using a phase(2) [of "inv_status i"] that by (simp_all add: get_pool_def)
    show "lst_face_value l = inv_amount i" if "get_listing s k = Ok l" for l
      using a that by (simp add: get_listing_def)
    show "fp_pool f k \<noteq> None" if "get_listing s k = Ok l" "lst_asking_price l \<le> lst_funded_amount l" for l
      using a that by (simp add: get_listing_def)
  next
    fix k assume "\<forall>i. get_invoice n k \<noteq> Ok i"
    from no [OF this] coherentD [OF *(3), of k] show "mp_listing s k = None" "fp_pool f k = None" by simp_all
  qed (use * in auto)
qed

theorem protocol_coherent_witness:
  "\<exists>s w f n p i. kora_run plain_token kd 0 (mp_empty, kd_world) 60 (s, w) \<and>
     peer_fp w 500 = Some f \<and> peer_nft w 300 = Some n \<and> get_invoice n 1 = Ok i \<and> inv_status i = Funded \<and>
     get_pool f 1 = Ok p \<and> pool_face_value p = inv_amount i \<and> \<not> pool_is_closed p"
proof -
  obtain s w f n l i p where d: "kd_funded = Ok (s, w)" "peer_fp w 500 = Some f" "peer_nft w 300 = Some n"
      "get_listing s 1 = Ok l" "get_invoice n 1 = Ok i" "inv_status i = Funded" "get_pool f 1 = Ok p"
    using kd_reaches by blast
  have r: "kora_run plain_token kd 0 (mp_empty, kd_world) 60 (s, w)" using kd_funded_run [OF d(1)] by blast
  from protocol_coherent [OF r kd_simps(7)] d(2,3,5-7) have
    "pool_face_value p = inv_amount i" "\<not> pool_is_closed p" by auto
  with r d show ?thesis by blast
qed

text \<open>
  C13: the protocol refines each of its contracts. Seen from the invoice contract, from the pool and
  from the marketplace, every run of the deployed protocol is a run of that contract alone (with the
  others as its surroundings), so that what holds in the reachable states of a contract holds
  in the protocol: what an invoice went through, what a pool owes, what a listing collected.
\<close>

theorem protocol_refines_contracts:
  assumes "kora_run T D t x u (s, w)" "deployed_new D x"
  shows "\<exists>f n v. peer_fp w (dp_pool D) = Some f \<and> peer_nft w (dp_nft D) = Some n \<and> v \<le> u \<and>
    nft_run t nft_empty v n \<and> fp_run T (fp_empty, snd x) (f, w) \<and> mp_run T t (mp_empty, snd x) u (s, w) \<and>
    nft_inv n \<and> fp_inv f \<and> mp_inv u s"
proof -
  from deployed_new_runs [OF assms] obtain n f v where
    *: "peer_nft w (dp_nft D) = Some n" "peer_fp w (dp_pool D) = Some f" "coherent s f n" "v \<le> u"
      "nft_run t nft_empty v n" "fp_run T (fp_empty, snd x) (f, w)" "mp_run T t x u (s, w)"
    by auto
  have "x = (mp_empty, snd x)" using assms(2) by (simp add: deployed_new_def prod_eq_iff)
  with *(7) have m: "mp_run T t (mp_empty, snd x) u (s, w)" by simp
  have "nft_inv n" "fp_inv f" "mp_inv u s"
    using nft_run_inv [OF *(5) nft_empty_inv] fp_run_inv [OF *(6)] fp_empty_inv
      mp_run_inv [OF m] mp_empty_inv by simp_all
  with * m show ?thesis by blast
qed

theorem protocol_refines_contracts_witness:
  "\<exists>s w f v n. kora_run plain_token kd 0 (mp_empty, kd_world) 60 (s, w) \<and> peer_fp w 500 = Some f \<and>
     peer_nft w 300 = Some n \<and> nft_run 0 nft_empty v n \<and> fp_run plain_token (fp_empty, kd_world) (f, w)"
proof -
  obtain s w where d: "kd_funded = Ok (s, w)" using kd_reaches by blast
  have r: "kora_run plain_token kd 0 (mp_empty, kd_world) 60 (s, w)" using kd_funded_run [OF d(1)] by blast
  from protocol_refines_contracts [OF r kd_simps(7)] r show ?thesis by fastforce
qed

text \<open>
  C17: what happens after a default. From the moment an invoice is \<open>Defaulted\<close>, in every later state of
  the protocol, its pool stays open, a second default is refused and no acceptance of an early
  settlement moves tokens; the pool still accepts repayments, none of them closes it, and the
  tokens of each go from the payer to the pool and to nobody else. The investors are not paid from
  them by any of these calls.
\<close>

theorem default_strands_repayments:
  assumes "kora_run T D t x u (s, w)" "deployed_new D x" "peer_nft w (dp_nft D) = Some n"
    "get_invoice n k = Ok i" "inv_status i = Defaulted"
    "kora_run T D u (s, w) v (s', w')" "peer_fp w' (dp_pool D) = Some f" "sep41 T"
  shows "(\<exists>p. get_pool f k = Ok p \<and> \<not> pool_is_closed p) \<and>
    (\<forall>y. mark_default T env a k token (f, w') \<noteq> Ok y) \<and>
    (\<forall>f' w''. accept_early_settlement T env a k (f, w') = Ok (f', w'') \<longrightarrow> w'' = w') \<and>
    (\<forall>f' w''. repay T env a k token y (f, w') = Ok (f', w'') \<longrightarrow>
       (\<exists>q. get_pool f' k = Ok q \<and> \<not> pool_is_closed q) \<and>
       (\<forall>token' b. tk_balance T token' b (peer_tk w'') = tk_balance T token' b (peer_tk w')
          - (if token' = token \<and> b = a then y else 0) + (if token' = token \<and> b = self env then y else 0)))"
proof -
  from deployed_new_runs [OF assms(1,2)] assms(3) obtain f0 where
    0: "peer_fp w (dp_pool D) = Some f0" "coherent s f0 n" by auto
  from kora_run_projects [OF assms(6), of f0 n] 0 assms(3,7) obtain n' v' where
    1: "peer_nft w' (dp_nft D) = Some n'" "coherent s' f n'" "nft_run u n v' n'" "wired D (s', w')" by auto
  have i: "nft_invoice n' k = Some (StoredV2 i)"
    using nft_run_defaulted [OF 1(3)] 0(2) assms(4,5) by (simp add: coherent_def get_invoice_def)
  have a: "fp_invoice_nft f \<in> {None, Some (dp_nft D)}" using 1(4) assms(7) by (simp add: wired_def)
  have "\<exists>p. get_pool f k = Ok p \<and> \<not> pool_is_closed p"
    using coherentD [OF 1(2), of k] i assms(5) by (auto simp: agree_V2 get_pool_def)
  moreover have "(\<exists>q. get_pool f' k = Ok q \<and> \<not> pool_is_closed q) \<and>
      tk_balance T token' b (peer_tk w'') = tk_balance T token' b (peer_tk w')
        - (if token' = token \<and> b = a then y else 0) + (if token' = token \<and> b = self env then y else 0)"
    if "repay T env a k token y (f, w') = Ok (f', w'')" for f' w'' token' b
    using defaulted_repay [OF that a 1(1) i assms(5)] sep41_transfer(3) [OF assms(8)] by (auto simp: get_pool_def)
  ultimately show ?thesis
    using defaulted_accept [OF _ a 1(1) i assms(5)] defaulted_default [OF a 1(1) i assms(5)] by blast
qed

theorem default_strands_repayments_witness:
  "\<exists>s w f f' w' q. kora_run plain_token kd 0 (mp_empty, kd_world) 9001 (s, w) \<and>
     repay plain_token (user_env 500 9100) 8 1 50 100 (f, w) = Ok (f', w') \<and>
     peer_fp w 500 = Some f \<and> get_pool f' 1 = Ok q \<and> \<not> pool_is_closed q \<and> peer_tk w' 50 21 = peer_tk w 50 21"
proof -
  obtain f w n i f' w' where
    d: "kd_defaulted = Ok (f, w)" "peer_nft w 300 = Some n" "get_invoice n 1 = Ok i" "inv_status i = Defaulted"
      "repay plain_token (user_env 500 9100) 8 1 50 100 (f, w\<lparr>peer_fp := (peer_fp w)(500 \<mapsto> f)\<rparr>) = Ok (f', w')"
    using kd_after_default by blast
  let ?w = "w\<lparr>peer_fp := (peer_fp w)(500 \<mapsto> f)\<rparr>"
  from kd_defaulted_run [OF d(1)] obtain s where
    r: "kora_run plain_token kd 0 (mp_empty, kd_world) 9001 (s, ?w)" "wired kd (s, ?w)" by blast
  have "(\<exists>q. get_pool f' 1 = Ok q \<and> \<not> pool_is_closed q) \<and> peer_tk w' 50 21 = peer_tk ?w 50 21"
    using default_strands_repayments [OF r(1) kd_simps(7) _ d(3,4) kr_here [OF r(2)] _ sep41_plain_token,
        of f "user_env 500 9100" 8 50 100] d(2,5) by (simp add: plain_token_def)
  with r(1) d(5) show ?thesis
    by (intro exI [of _ s] exI [of _ ?w] exI [of _ f] exI [of _ f'] exI [of _ w']) simp
qed

text \<open>
  C18: a pool that is opened before its listing is full. The pool does not check that its caller is the
  marketplace: any address can open the pool of a listed invoice. If the listing is not full at
  that moment, then in every later state of the protocol it is still not full, because the
  contribution that would fill it fails, while the invoice counts as funded, repaid or defaulted.
\<close>

theorem early_pool_blocks_funding:
  assumes "kora_run T D t x u (s, w)" "deployed_new D x" "peer_fp w (dp_pool D) = Some f"
    "get_pool f k = Ok p" "get_listing s k = Ok l" "lst_funded_amount l < lst_asking_price l"
    "kora_run T D u (s, w) v (s', w')"
  shows "\<exists>n i l'. peer_nft w' (dp_nft D) = Some n \<and> get_invoice n k = Ok i \<and>
    inv_status i \<in> {Funded, Repaid, Defaulted} \<and>
    get_listing s' k = Ok l' \<and> lst_funded_amount l' < lst_asking_price l'"
proof -
  from deployed_new_runs [OF assms(1,2)] assms(3) obtain n0 where
    0: "peer_nft w (dp_nft D) = Some n0" "coherent s f n0" by auto
  have p: "fp_pool f k \<noteq> None" using assms(4) by (simp add: get_pool_def)
  from kora_run_projects [OF assms(7), of f n0] 0 assms(3) obtain n f' where
    1: "peer_nft w' (dp_nft D) = Some n" "coherent s' f' n" "fp_run T (f, w) (f', w')" by auto
  have "fp_pool f' k \<noteq> None" using fp_run_pool_kept [OF 1(3), of k] p by simp
  with coherentD [OF 1(2), of k] obtain i where
    i: "nft_invoice n k = Some (StoredV2 i)" "map_option pool_is_closed (fp_pool f' k) = pool_phase (inv_status i)"
      "fp_pool f' k \<noteq> None"
    by (auto simp: agree_def split: option.splits StoredInvoice.splits)
  have "inv_status i \<in> {Funded, Repaid, Defaulted}" using i(2,3) by (cases "inv_status i") auto
  moreover have "not_full s' k"
    using kora_run_not_full [OF assms(7), of f n0 k] 0 assms(3,5,6) p by (simp add: not_full_def get_listing_def)
  ultimately show ?thesis using 1(1) i(1) by (auto simp: not_full_def get_listing_def get_invoice_def)
qed

theorem early_pool_blocks_funding_witness:
  "\<exists>s w n i l. kora_run plain_token kd 0 (mp_empty, kd_world) 41 (s, w) \<and> peer_nft w 300 = Some n \<and>
     get_invoice n 1 = Ok i \<and> inv_status i \<in> {Funded, Repaid, Defaulted} \<and>
     get_listing s 1 = Ok l \<and> lst_funded_amount l = 0"
proof -
  obtain s w0 f w l p where d: "kd_early = Ok (s, w0, f, w)" "get_listing s 1 = Ok l" "lst_funded_amount l = 0"
      "lst_asking_price l = 900" "get_pool f 1 = Ok p"
    using kd_opens_early by blast
  note r = kd_early_run [OF d(1)]
  from early_pool_blocks_funding [OF conjunct1 [OF r] kd_simps(7) _ d(5,2) _ kr_here [OF conjunct2 [OF r]]] d(3,4)
  have "\<exists>n i. peer_nft w 300 = Some n \<and> get_invoice n 1 = Ok i \<and> inv_status i \<in> {Funded, Repaid, Defaulted}"
    by auto
  with r d(2,3) show ?thesis by fastforce
qed

end
