(* ===== verification/Protocol_Solvency.thy ===== *)
theory Protocol_Solvency
  imports Pool_Solvency Protocol_Runs
begin

text \<open>
  The money of the deployed protocol. Along runs in which the pool is called fairly (\<open>fair_entry\<close> of
  \<open>Pool_Solvency\<close>) the financing pool stays solvent; the contributions of investors never leave it.
  Two further properties show what the fairness is needed for, and that a fair repayment completes.
\<close>

section \<open>Contributions\<close>

text \<open>Per token and listing: what investors contributed, net of fees.\<close>

definition contributed :: "mp_state \<Rightarrow> Address \<Rightarrow> (u64 \<rightharpoonup> i128)" where
  "contributed s token k = (case mp_listing s k of None \<Rightarrow> None
     | Some l \<Rightarrow> if lst_token l = token then Some (map_total (backers s k)) else None)"

definition reserve :: "'tk token_api \<Rightarrow> Address \<Rightarrow> Address \<Rightarrow> mp_state \<Rightarrow> fp_state \<Rightarrow> nft_state \<Rightarrow> 'tk \<Rightarrow> i128" where
  "reserve T c token s f n tk = spare T c token f n tk - map_total (contributed s token)"

lemma contributed_slot:
  assumes "finite (dom (mp_listing s))" "\<And>j. j \<noteq> k \<Longrightarrow> mp_listing s' j = mp_listing s j"
    "\<And>j. j \<noteq> k \<Longrightarrow> backers s' j = backers s j"
  shows "map_total (contributed s' token) = map_total (contributed s token)
    - unwrap_or (contributed s token k) 0 + unwrap_or (contributed s' token k) 0"
proof -
  have "dom (contributed s token) \<subseteq> dom (mp_listing s)"
    by (auto simp: contributed_def split: option.splits)
  with assms(1) have "finite (dom (contributed s token))" by (rule rev_finite_subset)
  moreover have "contributed s' token = (contributed s token)(k := contributed s' token k)"
    using assms(2,3) by (intro ext) (auto simp: contributed_def split: option.split)
  ultimately show ?thesis using map_total_fun_upd [of "contributed s token" k] by metis
qed

lemma contributed_frame [simp]:
  "contributed (s\<lparr>mp_config := x1\<rparr>) = contributed s" "contributed (s\<lparr>mp_events := x2\<rparr>) = contributed s"
  "contributed (s\<lparr>mp_refund_claimed := x3\<rparr>) = contributed s" "contributed (s\<lparr>mp_whitelisted := x4\<rparr>) = contributed s"
  "contributed (s\<lparr>mp_tier_fee_bps := x5\<rparr>) = contributed s" "contributed (s\<lparr>mp_upgrade_proposal := x6\<rparr>) = contributed s"
  "contributed (s\<lparr>mp_code := x7\<rparr>) = contributed s" "contributed (s\<lparr>mp_cancellation_request := x8\<rparr>) = contributed s"
  "contributed (s\<lparr>mp_cancellation_confirmed := x9\<rparr>) = contributed s"
  "contributed (s\<lparr>mp_admin := b1, mp_invoice_nft := b2, mp_financing_pool := b3, mp_treasury := b4,
     mp_fee_bps := b5, mp_access_control := b6, mp_risk_registry := b7\<rparr>) = contributed s"
  by (intro ext; simp add: contributed_def backers_def split: option.split)+

text \<open>The calls that cancel a listing keep its token and its contributions.\<close>

lemma contributed_deactivate:
  "mp_listing s k = Some l \<Longrightarrow> contributed (put_listing k (l\<lparr>lst_is_active := False\<rparr>) s) = contributed s"
  by (intro ext) (simp add: contributed_def backers_def split: option.split)

lemma cancel_contributed:
  "cancel_listing env a k s = Ok s' \<Longrightarrow> contributed s' = contributed s"
  "request_cancellation env a k s = Ok s' \<Longrightarrow> contributed s' = contributed s"
  "admin_confirm_cancellation env a k s = Ok s' \<Longrightarrow> contributed s' = contributed s"
  using contributed_deactivate [of "s\<lparr>mp_config := c\<rparr>" k for c]
  by (auto dest!: cancel_listing_effect request_cancellation_effect admin_confirm_effect)

lemma mp_entry_finite: "mp_entry T env x y \<Longrightarrow> finite (dom (mp_listing (fst x))) \<Longrightarrow> finite (dom (mp_listing (fst y)))"
proof (induction rule: mp_entry.induct)
  case (mp_list a k x y token deadline r s w s' w')
  from list_invoice_effect [OF mp_list(1)] obtain l where "mp_listing s' = (mp_listing s)(k \<mapsto> l)" by fastforce
  with mp_list(2) show ?case by (simp add: finite_dom_upd del: fun_upd_apply)
next
  case (mp_fund i k x s w s' w')
  from fund_effect [OF mp_fund(1)] obtain fee net l c full where
    "mp_book_contribution env i k x fee net l (s\<lparr>mp_config := Some c\<rparr>) = Ok (full, s')" by blast
  from mp_book_effect [OF this] obtain l where "mp_listing s' = (mp_listing s)(k \<mapsto> l)" by fastforce
  with mp_fund(2) show ?case by (simp add: finite_dom_upd del: fun_upd_apply)
next
  case (mp_refund i k s w s' w')
  from claim_refund_effect [OF mp_refund(1)] mp_refund(2) show ?case by auto
qed (auto simp: finite_dom_upd mp_initialize_def set_referrer_split_bps_def update_fee_bps_def
    mp_set_fee_bps_def set_tier_fee_bps_def mp_whitelist_token_def remove_token_whitelist_def
    mp_propose_upgrade_def mp_execute_upgrade_def Let_def
    dest!: mp_load_admin_effect load_config_effect cancel_listing_effect request_cancellation_effect
      admin_confirm_effect split: if_splits simp del: fun_upd_apply)

section \<open>Fair runs keep the reserve\<close>

text \<open>What holds in every state of the protocol.\<close>

definition sound :: "deployment \<Rightarrow> u64 \<Rightarrow> mp_state \<times> 'tk mp_world \<Rightarrow> fp_state \<Rightarrow> nft_state \<Rightarrow> bool" where
  "sound D t x f n \<longleftrightarrow> peer_fp (snd x) (dp_pool D) = Some f \<and> peer_nft (snd x) (dp_nft D) = Some n \<and>
     wired D x \<and> coherent (fst x) f n \<and> fp_inv f \<and> mp_inv t (fst x) \<and> finite (dom (fp_pool f)) \<and>
     finite (dom (mp_listing (fst x)))"

lemma mp_step_finite: "mp_step T env x y \<Longrightarrow> finite (dom (mp_listing (fst x))) \<Longrightarrow> finite (dom (mp_listing (fst y)))"
  by (auto elim!: mp_step.cases dest: mp_entry_finite)

lemma sound_step:
  assumes "kora_step T D env x y" "outside D env" "sound D t x f n" "t \<le> timestamp env" "wired D y"
  shows "\<exists>f' n'. sound D (timestamp env) y f' n' \<and> nft_moves (timestamp env) n n'"
proof -
  have st: "mp_step T env x y" using kora_step_mp [OF assms(1)] .
  from assms(3) kora_step_coherent [OF assms(1,2), of f n] obtain n' f' where
    *: "peer_nft (snd y) (dp_nft D) = Some n'" "peer_fp (snd y) (dp_pool D) = Some f'"
      "coherent (fst y) f' n'" "fp_run T (f, snd x) (f', snd y)" "nft_moves (timestamp env) n n'"
    by (auto simp: sound_def)
  moreover have "fp_inv f'" "finite (dom (fp_pool f'))"
    using fp_run_inv [OF *(4)] fp_run_finite [OF *(4)] assms(3) by (simp_all add: sound_def)
  moreover have "mp_inv (timestamp env) (fst y)" "finite (dom (mp_listing (fst y)))"
    using mp_step_inv [OF st] mp_step_finite [OF st] mp_inv_later [OF _ assms(4)] assms(3)
    by (auto simp: sound_def)
  ultimately show ?thesis using assms(5) by (auto simp: sound_def)
qed

lemma sound_new: "deployed_new D x \<Longrightarrow> wired D x \<Longrightarrow> sound D t x fp_empty nft_empty"
  using coherent_empty fp_empty_inv mp_empty_inv
  by (simp add: sound_def deployed_new_def) (simp add: fp_empty_def mp_empty_def)

lemma kora_run_sound:
  assumes "kora_run T D t x u y" "deployed_new D x"
  shows "\<exists>f n. sound D u y f n"
  using assms
proof (induction rule: kora_run.induct)
  case (kr_here x t)
  then show ?case using sound_new by blast
next
  case (kr_more t x u y env z)
  then show ?case using sound_step [OF kr_more(4,3)] by blast
qed

subsection \<open>Calls of the marketplace\<close>

lemma fund_reserve:
  assumes "sep41 T" "fund_invoice T env i k x (s, w) = Ok (s', w')" "outside D env"
    "sound D t (s, w) f n" "sound D u (s', w') f' n'"
  shows "reserve T (dp_pool D) token s f n (peer_tk w) \<le> reserve T (dp_pool D) token s' f' n' (peer_tk w')"
proof -
  from assms(4,5) have c: "peer_fp w (dp_pool D) = Some f" "peer_nft w (dp_nft D) = Some n" "wired D (s, w)"
      "fp_inv f" "mp_inv t s" "finite (dom (fp_pool f))" "finite (dom (mp_listing s))"
      "peer_fp w' (dp_pool D) = Some f'" "peer_nft w' (dp_nft D) = Some n'"
    by (simp_all add: sound_def)
  from fund_effect [OF assms(2)] obtain l cf inv fee w1 full where
    *: "authorised env i" "0 < x" "mp_listing s k = Some l" "load_config s = Ok (cf, s\<lparr>mp_config := Some cf\<rparr>)"
      "bps_of_normalized x (unwrap_or (mp_tier_fee_bps s (tier_ordinal (inv_risk_tier (inv :: Invoice)))) (mc_fee_bps cf))
        (tk_decimals T (lst_token l) (peer_tk w)) = Ok fee"
      "mp_pay T env cf (lst_token l) i fee (x - fee) w = Ok w1"
      "mp_book_contribution env i k x fee (x - fee) l (s\<lparr>mp_config := Some cf\<rparr>) = Ok (full, s')"
      "if full then mp_release env cf k (lst_token l) w1 = Ok w' else w' = w1"
    by blast
  have fee: "0 \<le> fee" "0 \<le> x - fee" using fee_bounds [OF c(5) *(4,2,5)] by simp_all
  have pool: "mc_financing_pool cf = dp_pool D" using c(3) *(4) by (simp add: wired_def)
  have "i \<noteq> dp_pool D" using *(1) outside_authorised [OF assms(3)] by auto
  with mp_pay_balance [OF assms(1) *(6) fee, of token "dp_pool D"] fee(1) pool
  have paid: "tk_balance T token (dp_pool D) (peer_tk w) + (if token = lst_token l then x - fee else 0)
      \<le> tk_balance T token (dp_pool D) (peer_tk w1)" by auto
  from mp_pay_effect [OF *(6) fee(1)] obtain tk tr where w1: "w1 = w\<lparr>peer_tk := tk, peer_tr := tr\<rparr>" by blast
  from mp_book_effect [OF *(7)] obtain l' where
    s': "mp_listing s' = (mp_listing s)(k \<mapsto> l')" "lst_token l' = lst_token l"
      "mp_contribution s' = (mp_contribution s)((k, i) \<mapsto> unwrap_or (backers s k i) 0 + (x - fee))"
    by (auto simp: backers_def)
  have b: "backers s' j = (if j = k then (backers s k)(i \<mapsto> unwrap_or (backers s k i) 0 + (x - fee)) else backers s j)" for j
    using s'(3) by (auto simp: backers_def fun_eq_iff)
  have "finite (dom (backers s k))" using c(5) by (simp add: mp_inv_def backers_ok_def)
  then have net: "map_total (backers s' k) = map_total (backers s k) + (x - fee)"
    unfolding b by (simp add: map_total_upd del: fun_upd_apply)
  have con: "map_total (contributed s' token) = map_total (contributed s token)
      + (if token = lst_token l then x - fee else 0)"
    using contributed_slot [OF c(7), of k s' token] s'(1,2) b net *(3) by (auto simp: contributed_def)
  have "spare T (dp_pool D) token f n (peer_tk w1) \<le> spare T (dp_pool D) token f' n' (peer_tk w')"
  proof (cases full)
    case True
    with *(8) have "mp_release env cf k (lst_token l) w1 = Ok w'" by simp
    from mp_release_effect [OF this] pool c(1) w1 obtain m f2 where
      r: "release_funds (subcall env (dp_pool D)) (self env) k (lst_token l) (f, w1) = Ok (f2, w1\<lparr>peer_nft := m\<rparr>)"
        "w' = w1\<lparr>peer_nft := m, peer_fp := (peer_fp w1)(dp_pool D \<mapsto> f2)\<rparr>" by auto
    from release_spare [OF r(1) c(6,4), of "dp_nft D" n n' T "dp_pool D" token tk] r(2) c w1 show ?thesis
      by (simp add: wired_def)
  next
    case False
    with *(8) c(1,2,8,9) w1 show ?thesis by simp
  qed
  with paid con show ?thesis by (auto simp: reserve_def spare_def)
qed

lemma list_reserve:
  assumes "list_invoice env e k x y tok deadline r (s, w) = Ok (s', w')"
    "sound D t (s, w) f n" "sound D u (s', w') f' n'" "nft_moves v n n'"
  shows "reserve T (dp_pool D) token s f n (peer_tk w) \<le> reserve T (dp_pool D) token s' f' n' (peer_tk w')"
proof -
  from list_invoice_effect [OF assms(1)] obtain m l where
    *: "mp_listing s k = None" "w' = w\<lparr>peer_nft := m\<rparr>" "mp_listing s' = (mp_listing s)(k \<mapsto> l)"
      "mp_contribution s' = mp_contribution s" by fastforce
  from assms(2,3) *(2) have f': "f' = f" by (simp add: sound_def)
  have b: "backers s' = backers s" using *(4) by (simp add: backers_def fun_eq_iff)
  have c: "fp_inv f" "mp_inv t s" "finite (dom (fp_pool f))" "finite (dom (mp_listing s))" "nft_inv n"
    using assms(2) by (simp_all add: sound_def coherent_def)
  have "map_total (backers s k) \<le> 0" "0 \<le> map_total (backers s k)"
    using c(2) *(1) map_total_nonneg [of "backers s k"] unfolding mp_inv_def backers_ok_def
    by (metis option.simps(4), blast)
  then have "map_total (contributed s' token) = map_total (contributed s token)"
    using contributed_slot [OF c(4), of k s' token] *(1,3) b by (simp add: contributed_def)
  moreover have "spare T (dp_pool D) token f n (peer_tk w) \<le> spare T (dp_pool D) token f' n' (peer_tk w')"
    unfolding f' using nft_moves_defaulted [OF assms(4) c(5)] *(2) by (intro spare_invoices [OF c(3,1)]) auto
  ultimately show ?thesis by (simp add: reserve_def)
qed

text \<open>A refund would be paid by the pool, which does not authorise it.\<close>

lemma no_refund:
  assumes "sep41 T" "claim_refund T env i k (s, w) = Ok (s', w')" "outside D env" "wired D (s, w)"
    "self env \<noteq> dp_pool D"
  shows False
proof -
  from claim_refund_effect [OF assms(2)] obtain c l x tk where
    *: "mp_config s' = Some c" "token_transfer T env (lst_token (l :: Listing)) (mc_financing_pool c) i x (peer_tk w) = Ok tk"
    by blast
  from claim_refund_config [OF assms(2)] *(1) assms(4) have "mc_financing_pool c = dp_pool D"
    by (auto simp: wired_def)
  with sep41_transfer(2) [OF assms(1) *(2)] assms(3,5) show False by (simp add: authorised_def outside_def)
qed

lemma mp_entry_reserve:
  assumes "mp_entry T env x y" "sep41 T" "outside D env" "self env \<noteq> dp_pool D"
    "sound D t x f n" "sound D u y f' n'" "nft_moves v n n'"
  shows "reserve T (dp_pool D) token (fst x) f n (peer_tk (snd x)) \<le> reserve T (dp_pool D) token (fst y) f' n' (peer_tk (snd y))"
  using assms
proof (induction rule: mp_entry.induct)
  case (mp_list e k x y tok deadline r s w s' w')
  from list_reserve [OF mp_list(1,5-7)] show ?case by simp
next
  case (mp_fund e k x s w s' w')
  from fund_reserve [OF mp_fund(2,1,3,5,6)] show ?case by simp
next
  case (mp_refund e k s w s' w')
  have "wired D (s, w)" using mp_refund(5) by (simp add: sound_def)
  from no_refund [OF mp_refund(2,1,3) this mp_refund(4)] show ?case ..
qed (auto simp: sound_def reserve_def mp_initialize_def set_referrer_split_bps_def update_fee_bps_def
    mp_set_fee_bps_def set_tier_fee_bps_def mp_whitelist_token_def remove_token_whitelist_def
    mp_propose_upgrade_def mp_execute_upgrade_def Let_def cancel_contributed
    dest!: mp_load_admin_effect load_config_effect)

subsection \<open>Steps and runs\<close>

lemma fair_step_reserve:
  assumes "fair_step T D env x y" "sep41 T" "outside D env" "dp_marketplace D \<noteq> dp_pool D"
    "sound D t x f n" "sound D u y f' n'" "nft_moves v n n'"
  shows "reserve T (dp_pool D) token (fst x) f n (peer_tk (snd x)) \<le> reserve T (dp_pool D) token (fst y) f' n' (peer_tk (snd y))"
  using assms
proof (induction rule: fair_step.induct)
  case (fs_marketplace s w s' w')
  from mp_entry_reserve [OF fs_marketplace(2-4) _ fs_marketplace(6-8)] fs_marketplace(1,5) show ?case by simp
next
  case (fs_pool w g f2 w' s)
  then have g: "g = f" "f2 = f'" by (simp_all add: sound_def)
  have "pool_calls (dp_nft D) env f w n w' n'"
    using fs_pool(1,6,8,9) outside_authorised [OF fs_pool(6)] by (simp add: pool_calls_def sound_def wired_def)
  moreover have "shares (fp_positions_of f k) \<le> 10000" for k
    using fs_pool(4) g by simp
  ultimately show ?case
    using fair_entry_spare [OF fs_pool(3,5), of "dp_nft D" n n' token] g fs_pool(1) by (simp add: reserve_def)
next
  case (fs_nft w m n2 s)
  then have "f' = f" "fp_inv f" "finite (dom (fp_pool f))" "nft_inv n"
    by (simp_all add: sound_def coherent_def)
  with spare_invoices [of f n n' T token "dp_pool D" "peer_tk w" "peer_tk w"] nft_moves_defaulted [OF fs_nft(9)]
  show ?case by (simp add: reserve_def)
next
  case (fs_other w' w s)
  then have "f' = f" "n' = n" "fp_inv f" "finite (dom (fp_pool f))"
    by (simp_all add: sound_def)
  with spare_invoices [of f n n' T token "dp_pool D" "peer_tk w" "peer_tk w'"] fs_other(3)
  show ?case by (simp add: reserve_def)
qed

lemma fair_run_reserve:
  assumes "fair_run T D t x u y" "sep41 T" "dp_marketplace D \<noteq> dp_pool D" "deployed_new D x"
  shows "\<exists>f n. sound D u y f n \<and>
    (\<forall>token. tk_balance T token (dp_pool D) (peer_tk (snd x)) \<le> reserve T (dp_pool D) token (fst y) f n (peer_tk (snd y)))"
  using assms
proof (induction rule: fair_run.induct)
  case (fr_here x t)
  have "due nft_empty fp_empty token = Map.empty" "escrow fp_empty token = Map.empty"
      "contributed mp_empty token = Map.empty" for token
    by (simp_all add: fun_eq_iff due_def escrow_def contributed_def fp_empty_def mp_empty_def)
  then show ?case
    using sound_new [OF fr_here(4,1), of t] fr_here(4)
    by (intro exI [of _ fp_empty] exI [of _ nft_empty]) (simp add: reserve_def spare_def deployed_new_def)
next
  case (fr_more t x u y env z)
  then obtain f n where 1: "sound D u y f n"
      "\<forall>token. tk_balance T token (dp_pool D) (peer_tk (snd x)) \<le> reserve T (dp_pool D) token (fst y) f n (peer_tk (snd y))"
    by blast
  from sound_step [OF fair_step_step [OF fr_more(4)] fr_more(3) 1(1) fr_more(2,5)] obtain f' n' where
    2: "sound D (timestamp env) z f' n'" "nft_moves (timestamp env) n n'" by blast
  from fair_step_reserve [OF fr_more(4) fr_more(7,3,8) 1(1) 2] 1(2) 2(1) show ?case
    by (meson order_trans)
qed

text \<open>The parts of the reserve are not negative, so that each single one is covered.\<close>

lemma holdings_nonneg:
  assumes "sound D t x f n"
  shows "0 \<le> map_total (due n f token)" "0 \<le> map_total (escrow f token)" "0 \<le> map_total (contributed (fst x) token)"
proof -
  have inv: "fp_inv f" "mp_inv t (fst x)" using assms by (simp_all add: sound_def)
  show "0 \<le> map_total (due n f token)"
    using inv(1) by (intro map_total_nonneg) (auto simp: due_def fp_inv_def pool_ok_def split: option.splits if_splits)
  show "0 \<le> map_total (escrow f token)"
    using inv(1) by (intro map_total_nonneg)
      (auto simp: escrow_def fp_inv_def offers_ok_def intro: order.strict_implies_order split: option.splits if_splits)
  have "0 \<le> map_total (backers (fst x) k)" for k
    using inv(2) map_total_nonneg [of "backers (fst x) k"] by (simp add: mp_inv_def backers_ok_def)
  then show "0 \<le> map_total (contributed (fst x) token)"
    by (intro map_total_nonneg) (auto simp: contributed_def split: option.splits if_splits)
qed

lemma open_pool_covered:
  assumes "sound D t x f n" "0 \<le> reserve T c (pool_token p) (fst x) f n tk" "get_pool f k = Ok p"
    "\<not> pool_is_closed p" "\<not> defaulted n k"
  shows "pool_repaid_amount p \<le> tk_balance T (pool_token p) c tk"
proof -
  have "pool_repaid_amount p \<le> map_total (due n f (pool_token p))"
    using assms(1,3-5) due_finite(1) by (intro map_total_le_member [of _ k])
      (auto simp: due_def get_pool_def sound_def fp_inv_def pool_ok_def split: option.splits if_splits)
  with assms(2) holdings_nonneg [OF assms(1), of "pool_token p"] show ?thesis
    by (simp add: reserve_def spare_def)
qed

section \<open>A run for the witnesses\<close>

text \<open>After the funding of the demonstration (\<open>kd_funded\<close>) the admin records the two positions, half of
  the total each, and the SME repays 400 of 1000.\<close>

definition kd_pool ::
    "(fp_state \<times> (Address \<Rightarrow> Address \<Rightarrow> i128) mp_world \<Rightarrow> (fp_state \<times> (Address \<Rightarrow> Address \<Rightarrow> i128) mp_world) res) \<Rightarrow>
     mp_state \<times> (Address \<Rightarrow> Address \<Rightarrow> i128) mp_world \<Rightarrow> (mp_state \<times> (Address \<Rightarrow> Address \<Rightarrow> i128) mp_world) res" where
  "kd_pool op = (\<lambda>(s, w).
     andThen (deployed (peer_fp w 500)) (\<lambda>f.
     andThen (op (f, w)) (\<lambda>(f, w).
     Ok (s, w\<lparr>peer_fp := (peer_fp w)(500 \<mapsto> f)\<rparr>))))"

definition kd_record :: "u64 \<Rightarrow> Address \<Rightarrow> mp_state \<times> (Address \<Rightarrow> Address \<Rightarrow> i128) mp_world \<Rightarrow>
    (mp_state \<times> (Address \<Rightarrow> Address \<Rightarrow> i128) mp_world) res" where
  "kd_record t investor = kd_pool (\<lambda>(f, w).
     andThen (record_position (user_env 500 t) w 1 1 investor 450 900 f) (\<lambda>f. Ok (f, w)))"

definition kd_partly :: "(mp_state \<times> (Address \<Rightarrow> Address \<Rightarrow> i128) mp_world) res" where
  "kd_partly =
     andThen kd_funded (\<lambda>x.
     andThen (kd_record 65 21 x) (\<lambda>x.
     andThen (kd_record 66 22 x) (\<lambda>x.
     kd_pool (repay plain_token (user_env 500 70) 8 1 50 400) x)))"

lemmas kp_eval = kd_partly_def kd_record_def kd_pool_def kd_eval

lemma kd_partly_reaches:
  "\<exists>s w f n p i. kd_partly = Ok (s, w) \<and> peer_fp w 500 = Some f \<and> peer_nft w 300 = Some n \<and>
     get_pool f 1 = Ok p \<and> \<not> pool_is_closed p \<and> pool_repaid_amount p = 400 \<and> pool_token p = 50 \<and>
     get_invoice n 1 = Ok i \<and> inv_status i = Funded \<and> inv_currency i = ''USDC'' \<and> fp_invoice_nft f = Some 300"
  by (simp add: kp_eval get_pool_def cong: andThen_weak_cong del: andThen_eq_Ok)

lemma kd_funded_no_positions:
  "\<exists>s w f. kd_funded = Ok (s, w) \<and> peer_fp w 500 = Some f \<and> fp_positions f = Map.empty"
  by (simp add: kp_eval cong: andThen_weak_cong del: andThen_eq_Ok)

lemma kd_pool_fair:
  assumes "fair_run plain_token kd t x u (s, w)" "wired kd (s, w)" "u \<le> v" "peer_fp w 500 = Some f"
    "fair_entry plain_token (user_env 500 v) (f, w) (f', w')" "\<forall>k. shares (fp_positions_of f k) \<le> 10000"
    "fp_invoice_nft f' = fp_invoice_nft f" "peer_nft w' = peer_nft w"
    "y = (s, w'\<lparr>peer_fp := (peer_fp w')(500 \<mapsto> f')\<rparr>)"
  shows "fair_run plain_token kd t x v y \<and> wired kd y"
proof -
  have "wired kd y" using assms(2,4,7-9) by (simp add: wired_def)
  moreover have "fair_step plain_token kd (user_env 500 v) (s, w) y"
    using fs_pool [of "user_env 500 v" kd w f plain_token f' w' s] assms(4-6,9) by simp
  ultimately show ?thesis using kd_fair [OF assms(1,3)] by blast
qed

lemma kd_record_fair:
  assumes "kd_record v i (s, w) = Ok (s1, w1)" "fair_run plain_token kd t x u (s, w)" "wired kd (s, w)" "u \<le> v"
    "peer_fp w 500 = Some f" "\<forall>k. shares (fp_positions_of f k) \<le> 10000"
  shows "fair_run plain_token kd t x v (s1, w1) \<and> wired kd (s1, w1) \<and>
    (\<exists>f1 q. peer_fp w1 500 = Some f1 \<and> pos_share_bps q = 5000 \<and>
       fp_positions f1 = (fp_positions f)(1 \<mapsto> smap_set i q (fp_positions_of f 1)))"
proof -
  from assms(1,5) obtain f1 where
    f1: "record_position (user_env 500 v) w 1 1 i 450 900 f = Ok f1"
      "(s1, w1) = (s, w\<lparr>peer_fp := (peer_fp w)(500 \<mapsto> f1)\<rparr>)"
    by (auto simp: kd_record_def kd_pool_def)
  note e = record_position_effect [OF f1(1)]
  have "fp_invoice_nft f1 = fp_invoice_nft f" using e by auto
  from kd_pool_fair [OF assms(2-5) fe_record [OF f1(1)] assms(6) this _ f1(2)]
  have "fair_run plain_token kd t x v (s1, w1) \<and> wired kd (s1, w1)" by simp
  moreover from e obtain q where "fp_positions f1 = (fp_positions f)(1 \<mapsto> smap_set i q (fp_positions_of f 1))"
      "pos_share_bps q = 5000" by fastforce
  ultimately show ?thesis using f1(2) by auto
qed

lemma kd_partly_fair:
  assumes "kd_partly = Ok (s, w)"
  shows "fair_run plain_token kd 0 (mp_empty, kd_world) 70 (s, w) \<and> wired kd (s, w) \<and>
    (\<exists>f. peer_fp w 500 = Some f \<and> shares (fp_positions_of f 1) = 10000)"
proof -
  obtain s0 w0 f0 where 0: "kd_funded = Ok (s0, w0)" "peer_fp w0 500 = Some f0" "fp_positions f0 = Map.empty"
    using kd_funded_no_positions by blast
  have "andThen (kd_record 65 21 (s0, w0)) (\<lambda>x. andThen (kd_record 66 22 x) (\<lambda>x.
      kd_pool (repay plain_token (user_env 500 70) 8 1 50 400) x)) = Ok (s, w)"
    using assms by (simp only: kd_partly_def 0(1) andThen_Ok)
  then obtain s1 w1 s2 w2 where
    st: "kd_record 65 21 (s0, w0) = Ok (s1, w1)" "kd_record 66 22 (s1, w1) = Ok (s2, w2)"
      "kd_pool (repay plain_token (user_env 500 70) 8 1 50 400) (s2, w2) = Ok (s, w)"
    by auto
  note r0 = kd_funded_fair [OF 0(1)]
  have "\<forall>k. shares (fp_positions_of f0 k) \<le> 10000" using 0(3) by (simp add: fp_positions_of_def)
  from kd_record_fair [OF st(1) conjunct1 [OF r0] conjunct2 [OF r0] _ 0(2) this] 0(3) obtain f1 q1 where
    1: "fair_run plain_token kd 0 (mp_empty, kd_world) 65 (s1, w1)" "wired kd (s1, w1)" "peer_fp w1 500 = Some f1"
      "pos_share_bps q1 = 5000" "fp_positions f1 = [1 \<mapsto> [(21, q1)]]"
    by (auto simp: fp_positions_of_def)
  have "\<forall>k. shares (fp_positions_of f1 k) \<le> 10000" using 1(4,5) by (simp add: fp_positions_of_def)
  from kd_record_fair [OF st(2) 1(1,2) _ 1(3) this] 1(5) obtain f2 q2 where
    2: "fair_run plain_token kd 0 (mp_empty, kd_world) 66 (s2, w2)" "wired kd (s2, w2)" "peer_fp w2 500 = Some f2"
      "pos_share_bps q2 = 5000" "fp_positions f2 = [1 \<mapsto> [(21, q1), (22, q2)]]"
    by (auto simp: fp_positions_of_def)
  have sh: "\<forall>k. shares (fp_positions_of f2 k) \<le> 10000" "shares (fp_positions_of f2 1) = 10000"
    using 1(4) 2(4,5) by (simp_all add: fp_positions_of_def)
  obtain f p n j where f: "peer_fp w 500 = Some f" "get_pool f 1 = Ok p" "\<not> pool_is_closed p" "pool_token p = 50"
      "peer_nft w 300 = Some n" "get_invoice n 1 = Ok j" "inv_currency j = ''USDC''" "fp_invoice_nft f = Some 300"
    using kd_partly_reaches [unfolded assms] by auto
  from st(3) 2(3) f(1) obtain w3 where
    3: "repay plain_token (user_env 500 70) 8 1 50 400 (f2, w2) = Ok (f, w3)" "s = s2"
      "w = w3\<lparr>peer_fp := (peer_fp w3)(500 \<mapsto> f)\<rparr>"
    by (auto simp: kd_pool_def)
  from repay_effect [OF 3(1)] f(2,3) obtain p0 p1 i evs tk where
    4: "fp_pool f2 1 = Some p0" "fp_load_invoice w2 f2 1 = Ok i" "apply_late_penalty (user_env 500 70) 1 i p0 = Ok (p1, evs)"
      "pool_token p = pool_token p1" "w3 = w2\<lparr>peer_tk := tk\<rparr>" "fp_book f = fp_book f2"
    by (auto simp: Let_def get_pool_def split: if_splits)
  have "pool_token p0 = 50" using apply_late_penalty_effect [OF 4(3)] 4(4) f(4) by auto
  moreover have "inv_currency i = ''USDC''"
    using 4(2,5) 3(3) f(5-8) fp_book_fields(3) [OF 4(6)] by (simp add: fp_load_invoice_def)
  ultimately have "fair_entry plain_token (user_env 500 70) (f2, w2) (f, w3)"
    using fe_repay [OF _ 4(1,2)] 3(1) by metis
  from kd_pool_fair [OF 2(1,2) _ 2(3) this sh(1) fp_book_fields(3) [OF 4(6)] _, of "(s, w)"] 3(2,3) 4(5)
  show ?thesis using f(1) sh(2) fp_book_fields(10) [OF 4(6)] by simp
qed

section \<open>Properties\<close>

text \<open>
  C3: the financing pool is solvent. In every state that fair calls reach from a fresh deployment, and for
  every token, the pool holds at least the repayments of open pools that are not distributed yet,
  the escrows of pending settlement offers and, on top of both, every contribution ever made to a
  listing in that token, net of fees: nothing pays the contributions out again, neither to the SME
  nor as a refund. In particular the repayments of each open pool are covered.
\<close>

theorem pool_solvent:
  assumes "sep41 T" "fair_run T D t x u (s, w)" "deployed_new D x" "dp_marketplace D \<noteq> dp_pool D"
    "\<forall>token. 0 \<le> tk_balance T token (dp_pool D) (peer_tk (snd x))"
  shows "\<exists>f n. peer_fp w (dp_pool D) = Some f \<and> peer_nft w (dp_nft D) = Some n \<and>
    (\<forall>token. map_total (due n f token) + map_total (escrow f token) + map_total (contributed s token)
       \<le> tk_balance T token (dp_pool D) (peer_tk w)) \<and>
    (\<forall>k p. get_pool f k = Ok p \<and> \<not> pool_is_closed p \<and> \<not> defaulted n k \<longrightarrow>
       pool_repaid_amount p \<le> tk_balance T (pool_token p) (dp_pool D) (peer_tk w))"
proof -
  from fair_run_reserve [OF assms(2,1,4,3)] obtain f n where
    *: "sound D u (s, w) f n" "\<And>token. tk_balance T token (dp_pool D) (peer_tk (snd x))
      \<le> reserve T (dp_pool D) token s f n (peer_tk w)" by auto
  have r: "0 \<le> reserve T (dp_pool D) token s f n (peer_tk w)" for token
    using *(2) [of token] assms(5) [rule_format, of token] by linarith
  moreover have "pool_repaid_amount p \<le> tk_balance T (pool_token p) (dp_pool D) (peer_tk w)"
    if "get_pool f k = Ok p \<and> \<not> pool_is_closed p \<and> \<not> defaulted n k" for k p
    using open_pool_covered [OF *(1), of T "dp_pool D" p "peer_tk w" k] r that by simp
  ultimately show ?thesis
    using *(1) by (intro exI [of _ f] exI [of _ n]) (auto simp: sound_def reserve_def spare_def algebra_simps)
qed

theorem pool_solvent_witness:
  "\<exists>s w f n. fair_run plain_token kd 0 (mp_empty, kd_world) 70 (s, w) \<and> peer_fp w 500 = Some f \<and>
     peer_nft w 300 = Some n \<and> due n f 50 1 = Some 400 \<and>
     map_total (due n f 50) + map_total (escrow f 50) + map_total (contributed s 50) \<le> peer_tk w 50 500"
proof -
  obtain s w f n p i where d: "kd_partly = Ok (s, w)" "peer_fp w 500 = Some f" "peer_nft w 300 = Some n"
      "get_pool f 1 = Ok p" "\<not> pool_is_closed p" "pool_repaid_amount p = 400" "pool_token p = 50"
      "get_invoice n 1 = Ok i" "inv_status i = Funded"
    using kd_partly_reaches by blast
  have r: "fair_run plain_token kd 0 (mp_empty, kd_world) 70 (s, w)" using kd_partly_fair [OF d(1)] by blast
  from pool_solvent [OF sep41_plain_token r kd_simps(7)] d(2,3)
  have "map_total (due n f 50) + map_total (escrow f 50) + map_total (contributed s 50) \<le> peer_tk w 50 500"
    by (auto simp: plain_token_def kd_world_def)
  moreover have "due n f 50 1 = Some 400"
    using d(4-9) by (auto simp: due_def defaulted_def get_pool_def get_invoice_def split: option.splits StoredInvoice.splits)
  ultimately show ?thesis using r d(2,3) by blast
qed

end
