(* ===== verification/Repayment_Progress.thy ===== *)
theory Repayment_Progress
  imports Protocol_Solvency
begin

text \<open>
  A repayment of what is owed goes through: when the protocol was used fairly, nothing that the pool did
  before can make the closing repayment of an open pool fail.
\<close>

section \<open>Tokens that pay\<close>

text \<open>
  A transfer that the sender authorised and can afford succeeds if the receiver accepts the tokens.
  \<open>R\<close> says which addresses do: an asset contract may refuse an account that was deauthorised or has
  no trustline. A statement that rests on this asks \<open>R\<close> only of the addresses that are paid.
\<close>

definition token_live :: "(Address \<Rightarrow> bool) \<Rightarrow> 'tk token_api \<Rightarrow> bool" where
  "token_live R T \<longleftrightarrow>
     (\<forall>env from to amount tk. authorised env from \<and> R to \<and> 0 \<le> amount \<and> amount \<le> tk_balance T (self env) from tk \<longrightarrow>
        (\<exists>tk'. tk_transfer T env from to amount tk = Ok tk'))"

lemma plain_token_views:
  "tk_balance plain_token token a tk = tk token a" "tk_decimals plain_token token tk = 7"
  by (simp_all add: plain_token_def)

lemma plain_token_live: "token_live (\<lambda>_. True) plain_token"
  by (simp add: token_live_def plain_token_def Let_def)

lemma token_live_transfer:
  "token_live R T \<Longrightarrow> R to \<Longrightarrow> authorised (subcall env token) from \<Longrightarrow> 0 \<le> x \<Longrightarrow> x \<le> tk_balance T token from tk \<Longrightarrow>
     \<exists>tk'. token_transfer T env token from to x tk = Ok tk'"
  by (auto simp: token_live_def token_transfer_def)

section \<open>The payouts\<close>

text \<open>A distribution succeeds if the pool can afford the payouts.\<close>

lemma pay_positions_succeeds:
  assumes "sep41 T" "token_live R T" "payable r d"
    "\<forall>(i, q)\<in>set ps. R i \<and> 0 < pos_contributed q \<and> pos_contributed q \<le> MAX_AMOUNT \<and> pos_share_bps q \<le> 10000"
    "paid_out r d ps \<le> tk_balance T token (self env) tk"
  shows "\<exists>y. pay_positions T env k token r d ps c evs tk = Ok y"
  using assms(4,5)
proof (induction ps arbitrary: c evs tk)
  case (Cons iq ps)
  obtain i q where iq: "iq = (i, q)" by fastforce
  have r: "0 \<le> r" "r \<le> I128_MAX" using assms(3) payable_bound [OF assms(3)] by (auto simp: payable_def)
  from Cons.prems(1) iq have q: "0 < pos_contributed q" "pos_contributed q \<le> MAX_AMOUNT" "pos_share_bps q \<le> 10000"
      and R: "R i" by auto
  have ps: "0 \<le> paid_out r d ps"
    using Cons.prems(1) paid_out_le [OF r(1), of ps d] by fastforce
  have pay: "bps_of_normalized r (pos_share_bps q) d = Ok (payout r d q)"
    using bps_of_normalized_succeeds [OF assms(3) q(3)] by (simp add: payout_def)
  from bps_of_normalized_bounds [OF pay q(3)] have b: "0 \<le> payout r d q" "payout r d q \<le> r" by simp_all
  have "in_i128 (payout r d q - pos_contributed q)"
    using b q(1,2) r(2) by (simp add: in_i128_def width_defs MAX_AMOUNT_def)
  then have y: "checked_sub (payout r d q) (pos_contributed q) = Some (payout r d q - pos_contributed q)"
    by (simp add: checked_sub_def)
  have "authorised (subcall env token) (self env)" by simp
  from token_live_transfer [OF assms(2) R this b(1)] Cons.prems(2) ps iq obtain tk' where
    tk': "token_transfer T env token (self env) i (payout r d q) tk = Ok tk'" by fastforce
  have "paid_out r d ps \<le> tk_balance T token (self env) tk'"
    using sep41_transfer(3) [OF assms(1) tk', of token "self env"] Cons.prems(2) iq b(1) by auto
  with Cons.IH [where tk = tk'] Cons.prems(1) have "\<exists>y. pay_positions T env k token r d ps c' evs' tk' = Ok y" for c' evs'
    by simp
  with pay y tk' show ?case by (simp add: iq Let_def)
qed simp

section \<open>The closing repayment\<close>

text \<open>What the invoice costs at the time of the call, penalty included.\<close>

definition owed_now :: "env \<Rightarrow> Invoice \<Rightarrow> Pool \<Rightarrow> i128" where
  "owed_now env i p = pool_face_value p +
     (if pool_penalty_applied p \<or> 0 < pool_late_penalty_bps p \<and> inv_due_date i < timestamp env
      then penalty_of p else 0)"

lemma apply_late_penalty_succeeds:
  assumes "pool_ok k p" "payable (owed_now env i p) d"
  shows "\<exists>p1 evs. apply_late_penalty env k i p = Ok (p1, evs) \<and> pool_total_owed p1 = owed_now env i p"
proof -
  have p: "0 < pool_face_value p" "pool_late_penalty_bps p \<le> 10000"
      "pool_total_owed p = pool_face_value p + (if pool_penalty_applied p then penalty_of p else 0)"
    using assms(1) by (simp_all add: pool_ok_def)
  from penalty_bounds [OF p(1,2)] have pen: "0 \<le> penalty_of p" "pool_face_value p \<le> owed_now env i p"
    by (simp_all add: owed_now_def)
  have b: "owed_now env i p * 10000 \<le> I128_MAX" "0 \<le> owed_now env i p"
    using payable_bound [OF assms(2)] assms(2) by (simp_all add: payable_def)
  have "bps_of (pool_face_value p) (pool_late_penalty_bps p) = Ok (penalty_of p)"
  proof -
    have "pool_face_value p * int (pool_late_penalty_bps p) \<le> pool_face_value p * 10000"
      using p(1,2) by (intro mult_left_mono) auto
    also have "\<dots> \<le> I128_MAX" using pen(2) b(1) by linarith
    finally show ?thesis using p(1) by (simp add: bps_of_eq_Ok penalty_of_def)
  qed
  moreover have "in_i128 (owed_now env i p)" using b by (simp add: in_i128_nonneg)
  ultimately show ?thesis
    using p(3) by (auto simp: apply_late_penalty_def owed_now_def checked_add_def split: if_splits)
qed

lemma set_repaid_succeeds:
  assumes "nft_invoice n k = Some (StoredV2 i)" "inv_status i = Funded" "nft_financing_pool n = Some a"
    "authorised env a" "nft_require_not_paused acs n = Ok ()"
  shows "\<exists>n'. set_repaid acs env a k n = Ok n'"
  using assms by (simp add: set_repaid_def nft_load_invoice_def Let_def)

text \<open>The state of the contracts in which the pool of an invoice can be settled: the invoice is funded, not
  frozen and in USDC, the protocol is not paused, and the contracts know each other.\<close>

definition settleable :: "u64 \<Rightarrow> Address \<Rightarrow> Address \<Rightarrow> fp_state \<Rightarrow> ('tk, 'z) peers_scheme \<Rightarrow> nft_state \<Rightarrow> Invoice \<Rightarrow> bool" where
  "settleable k c a f w n i \<longleftrightarrow> fp_invoice_nft f = Some a \<and> peer_nft w a = Some n \<and>
     get_invoice n k = Ok i \<and> inv_status i = Funded \<and> inv_currency i = ''USDC'' \<and>
     \<not> is_invoice_frozen n k \<and> nft_financing_pool n = Some c \<and> nft_require_not_paused (peer_ac w) n = Ok () \<and>
     (\<forall>b. fp_price_oracle f = Some b \<longrightarrow> peer_or w b \<noteq> None)"

lemma fp_settle_succeeds:
  assumes "sep41 T" "token_live R T" "settleable k (self env) a f w n i" "positions_ok (fp_positions_of f k)"
    "payable r (tk_decimals T token (peer_tk w))"
    "paid_out r (tk_decimals T token (peer_tk w)) (fp_positions_of f k) \<le> tk_balance T token (self env) (peer_tk w)"
    "\<forall>(i, q)\<in>set (fp_positions_of f k). R i"
  shows "\<exists>f' w'. fp_settle T env k token r v (f, w) = Ok (f', w')"
proof -
  have "\<forall>(i, q)\<in>set (fp_positions_of f k). R i \<and> 0 < pos_contributed q \<and> pos_contributed q \<le> MAX_AMOUNT \<and>
      pos_share_bps q \<le> 10000"
    using assms(4,7) by (auto simp: positions_ok_def)
  from pay_positions_succeeds [OF assms(1,2,5) this assms(6)] obtain c evs tk where
    "pay_positions T env k token r (tk_decimals T token (peer_tk w)) (fp_positions_of f k) 0 [] (peer_tk w)
      = Ok (c, evs, tk)" by (metis prod_cases3)
  moreover from assms(3) have "\<exists>n'. set_repaid (peer_ac w) (subcall env a) (self env) k n = Ok n'"
    by (intro set_repaid_succeeds [of n k i]) (simp_all add: settleable_def get_invoice_def)
  ultimately show ?thesis
    using assms(3) by (auto simp: fp_settle_def distribute_yield_def Let_def fp_call_nft_def settleable_def)
qed

lemma repay_succeeds:
  assumes "sep41 T" "token_live R T" "settleable k (self env) a f w n i" "fp_inv f" "get_pool f k = Ok p"
    "\<not> pool_is_closed p" "authorised env payer" "authorised (subcall env (pool_token p)) payer"
    "\<not> authorised env (self env)" "shares (fp_positions_of f k) \<le> 10000"
    "x = owed_now env i p - pool_repaid_amount p" "x \<le> MAX_AMOUNT"
    "x \<le> tk_balance T (pool_token p) payer (peer_tk w)"
    "payable (owed_now env i p) (tk_decimals T (pool_token p) (peer_tk w))"
    "pool_repaid_amount p \<le> tk_balance T (pool_token p) (self env) (peer_tk w)"
    "R (self env)" "\<forall>(i, q)\<in>set (fp_positions_of f k). R i"
  shows "\<exists>f' w'. repay T env payer k (pool_token p) x (f, w) = Ok (f', w')"
proof -
  have ok: "pool_ok k p" "fp_pool f k = Some p" "fp_repayment_lock f = Map.empty" "positions_ok (fp_positions_of f k)"
    using assms(4,5) positions_ok_of [OF assms(4)] by (auto simp: fp_inv_def get_pool_def)
  from apply_late_penalty_succeeds [OF ok(1) assms(14)] obtain p1 evs where
    p1: "apply_late_penalty env k i p = Ok (p1, evs)" "pool_total_owed p1 = owed_now env i p" by blast
  note p1' = pool_ok_penalty [OF ok(1) p1(1)]
  have r: "pool_repaid_amount p1 + x = owed_now env i p" "0 < x"
    using p1' p1(2) ok(1) assms(6,11) by (auto simp: pool_ok_def)
  have in_r: "in_i128 (owed_now env i p)" "0 \<le> owed_now env i p"
    using assms(14) payable_bound [OF assms(14)] by (simp_all add: payable_def in_i128_nonneg)
  from token_live_transfer [OF assms(2,16,8) _ assms(13)] r(2) obtain tk where
    tk: "token_transfer T env (pool_token p) payer (self env) x (peer_tk w) = Ok tk" by fastforce
  have "payer \<noteq> self env" using assms(7,9) by auto
  with sep41_transfer(3) [OF assms(1) tk, of "pool_token p" "self env"] assms(15) p1' r(1)
  have "owed_now env i p \<le> tk_balance T (pool_token p) (self env) tk" by auto
  moreover have d: "tk_decimals T (pool_token p) tk = tk_decimals T (pool_token p) (peer_tk w)"
    using sep41_transfer(4) [OF assms(1) tk] .
  ultimately have afford: "paid_out (owed_now env i p) (tk_decimals T (pool_token p) tk) (fp_positions_of f k)
      \<le> tk_balance T (pool_token p) (self env) tk"
    using paid_out_bound [OF in_r(2) assms(10)] by (meson order_trans)
  let ?f = "fp_emit (repayment_made env k payer x) (put_pool k (p1\<lparr>pool_repaid_amount := owed_now env i p,
      pool_is_closed := True\<rparr>) (f\<lparr>fp_repayment_lock := (fp_repayment_lock f)(k \<mapsto> True), fp_events := fp_events f @ evs\<rparr>))"
  have "fp_positions_of ?f k = fp_positions_of f k" "settleable k (self env) a ?f (w\<lparr>peer_tk := tk\<rparr>) n i"
    using assms(3) by (simp_all add: fp_positions_of_def settleable_def)
  with fp_settle_succeeds [OF assms(1,2), of k env a ?f "w\<lparr>peer_tk := tk\<rparr>" n i "owed_now env i p" "pool_token p"
      "pool_face_value p1"] ok(4) assms(14,17) d afford
  obtain f2 w2 where st: "fp_settle T env k (pool_token p) (owed_now env i p) (pool_face_value p1)
      (?f, w\<lparr>peer_tk := tk\<rparr>) = Ok (f2, w2)" by auto
  have "commit_repayment T env payer k (pool_token p) x p1 x
      (f\<lparr>fp_repayment_lock := (fp_repayment_lock f)(k \<mapsto> True), fp_events := fp_events f @ evs\<rparr>, w) = Ok (f2, w2)"
    using r(1) in_r(1) p1(2) tk st by (simp add: commit_repayment_def Let_def checked_add_def)
  moreover have "convert_if_needed env w g x ''USDC'' (pool_token p) = Ok x" if "fp_price_oracle g = fp_price_oracle f" for g
    using assms(3) that by (auto simp: convert_if_needed_def convert_def settleable_def split: option.split)
  moreover have "fp_load_invoice w g k = Ok i" if "fp_invoice_nft g = fp_invoice_nft f" for g
    using assms(3) that by (simp add: fp_load_invoice_def settleable_def)
  ultimately show ?thesis
    using assms(3,6,7,12) ok(2,3) r(2) p1(1) by (simp add: repay_def Let_def settleable_def)
qed

section \<open>Properties\<close>

text \<open>The run of the witness: 600 are still owed, and the SME has them.\<close>

lemma kd_partly_settleable:
  "\<exists>s w f n p i. kd_partly = Ok (s, w) \<and> peer_fp w 500 = Some f \<and> get_pool f 1 = Ok p \<and> \<not> pool_is_closed p \<and>
     settleable 1 500 300 f w n i \<and> owed_now (user_env 500 80) i p = 1000 \<and> pool_repaid_amount p = 400 \<and>
     pool_token p = 50 \<and> peer_tk w 50 8 = 600"
  by (simp add: kp_eval get_pool_def settleable_def owed_now_def cong: andThen_weak_cong del: andThen_eq_Ok)

lemma user_env_authorised:
  "authorised (user_env c t) a \<longleftrightarrow> a \<notin> {300, 400, 500}" "auth (user_env c t) b a \<longleftrightarrow> a \<notin> {300, 400, 500}"
  by (simp_all add: authorised_def user_env_def)

text \<open>
  C4: the closing repayment goes through. Take any state that fair calls reach from a fresh deployment, an
  open pool of an invoice that can be settled (\<open>settleable\<close>) with shares of at most 10000 basis points,
  and a payer who authorises the call and has what is still owed at that time, the late penalty
  included. If the pool and the investors accept the token and the amounts stay in the range of the
  scaled computation, repaying exactly that amount in the token of the pool succeeds, closes the
  pool and turns the invoice to \<open>Repaid\<close>: whatever happened to this and the other pools before, the
  pool can afford the payouts.
\<close>

theorem repayment_can_complete:
  assumes "sep41 T" "token_live R T" "fair_run T D t x u (s, w)" "deployed_new D x"
    "dp_marketplace D \<noteq> dp_pool D" "\<forall>token. 0 \<le> tk_balance T token (dp_pool D) (peer_tk (snd x))"
    "peer_fp w (dp_pool D) = Some f" "get_pool f k = Ok p" "\<not> pool_is_closed p"
    "settleable k (dp_pool D) (dp_nft D) f w n i" "shares (fp_positions_of f k) \<le> 10000"
    "self env = dp_pool D" "outside D env" "authorised env payer" "auth env (pool_token p) payer"
    "y = owed_now env i p - pool_repaid_amount p" "y \<le> MAX_AMOUNT"
    "y \<le> tk_balance T (pool_token p) payer (peer_tk w)"
    "payable (owed_now env i p) (tk_decimals T (pool_token p) (peer_tk w))"
    "R (dp_pool D)" "\<forall>(a, q)\<in>set (fp_positions_of f k). R a"
  shows "\<exists>f' w' q j. repay T env payer k (pool_token p) y (f, w) = Ok (f', w') \<and>
    get_pool f' k = Ok q \<and> pool_is_closed q \<and> pool_repaid_amount q = owed_now env i p \<and>
    fp_load_invoice w' f' k = Ok j \<and> inv_status j = Repaid"
proof -
  from fair_run_reserve [OF assms(3,1,5,4)] assms(7) obtain n' where
    *: "sound D u (s, w) f n'" "\<And>token. tk_balance T token (dp_pool D) (peer_tk (snd x))
      \<le> reserve T (dp_pool D) token s f n' (peer_tk w)" by (auto simp: sound_def)
  have n: "n' = n" "get_invoice n k = Ok i" "inv_status i = Funded" "inv_currency i = ''USDC''"
      "fp_load_invoice w f k = Ok i"
    using *(1) assms(10) by (simp_all add: sound_def settleable_def fp_load_invoice_def)
  have inv: "fp_inv f" using *(1) by (simp add: sound_def)
  have r: "0 \<le> reserve T (dp_pool D) (pool_token p) (fst (s, w)) f n (peer_tk w)"
    using *(2) [of "pool_token p"] assms(6) n(1) by (auto intro: order_trans)
  have "\<not> defaulted n k" using n(2,3) by (auto simp: defaulted_def get_invoice_def split: option.splits StoredInvoice.splits)
  from open_pool_covered [OF *(1) [unfolded n(1)] r assms(8,9) this]
  have cov: "pool_repaid_amount p \<le> tk_balance T (pool_token p) (self env) (peer_tk w)" using assms(12) by simp
  have auth: "\<not> authorised env (self env)" "authorised (subcall env (pool_token p)) payer"
    using outside_authorised [OF assms(13)] assms(12,15) by (simp_all add: authorised_def)
  from repay_succeeds [OF assms(1,2) assms(10) [folded assms(12)] inv assms(8,9,14) auth(2,1) assms(11,16-19) cov assms(20) [folded assms(12)] assms(21)]
  obtain f' w' where rep: "repay T env payer k (pool_token p) y (f, w) = Ok (f', w')" by blast
  from repay_effect [OF rep] assms(8) n(4,5) obtain eff p1 evs where
    e: "convert_if_needed env w f y ''USDC'' (pool_token p) = Ok eff" "apply_late_penalty env k i p = Ok (p1, evs)"
      "fp_pool f' = (fp_pool f)(k \<mapsto> p1\<lparr>pool_repaid_amount := pool_repaid_amount p1 + eff,
        pool_is_closed := (pool_total_owed p1 \<le> pool_repaid_amount p1 + eff \<or> pool_is_closed p1)\<rparr>)"
    unfolding Let_def get_pool_def by auto
  have "pool_ok k p" using inv assms(8) by (simp add: fp_inv_def get_pool_def)
  with pool_ok_penalty [OF this e(2)] apply_late_penalty_succeeds [OF this assms(19)] e(2)
  have owed: "pool_total_owed p1 = owed_now env i p" "pool_repaid_amount p1 = pool_repaid_amount p" by auto
  have "eff = y" using convert_if_needed_same [OF e(1)] .
  with owed e(3) assms(16) obtain q where
    q: "get_pool f' k = Ok q" "pool_is_closed q" "pool_repaid_amount q = owed_now env i p" by (auto simp: get_pool_def)
  from repay_closing [OF rep] q(1,2) obtain tk where
    "settled T env k (pool_token p) (pool_repaid_amount q) f (w\<lparr>peer_tk := tk\<rparr>) w'" by (auto simp: get_pool_def)
  from settled_repaid [OF this] repay_effect [OF rep] rep q fp_book_fields(3) show ?thesis by metis
qed

theorem repayment_can_complete_witness:
  "\<exists>s w f f' w' q. fair_run plain_token kd 0 (mp_empty, kd_world) 70 (s, w) \<and> peer_fp w 500 = Some f \<and>
     repay plain_token (user_env 500 80) 8 1 50 600 (f, w) = Ok (f', w') \<and> get_pool f' 1 = Ok q \<and> pool_is_closed q"
proof -
  obtain s w f n p i where d: "kd_partly = Ok (s, w)" "peer_fp w 500 = Some f" "get_pool f 1 = Ok p"
      "\<not> pool_is_closed p" "settleable 1 500 300 f w n i" "owed_now (user_env 500 80) i p = 1000"
      "pool_repaid_amount p = 400" "pool_token p = 50" "peer_tk w 50 8 = 600"
    using kd_partly_settleable by blast
  note r = kd_partly_fair [OF d(1)]
  have sh: "shares (fp_positions_of f 1) \<le> 10000" using r d(2) by auto
  have "payable 1000 7" "(600 :: i128) \<le> MAX_AMOUNT"
    by (simp_all add: payable_def STANDARD_DECIMALS_def I128_MAX_def MAX_AMOUNT_def)
  with repayment_can_complete [OF sep41_plain_token plain_token_live conjunct1 [OF r] kd_simps(7) _ _ _ d(3,4) _ sh,
      of n i "user_env 500 80" 8 600] d
  have "\<exists>f' w' q. repay plain_token (user_env 500 80) 8 1 50 600 (f, w) = Ok (f', w') \<and> get_pool f' 1 = Ok q \<and> pool_is_closed q"
    by (auto simp: kd_world_def plain_token_views user_env_authorised)
  with r d(2) show ?thesis by blast
qed

end
