(* ===== verification/Spec2Isabelle.thy ===== *)
theory Spec2Isabelle
  imports Admin_Powers Pause_Switch Repayment_Progress
begin

text \<open>
  Verification of the Kora protocol, invoice financing on the Soroban platform: the contracts of
  \<^verbatim>\<open>src/contracts\<close>.

  \<^bold>\<open>The program.\<close> An SME mints an invoice as an NFT (\<^verbatim>\<open>invoice_nft\<close>) and lists it below its face value
  (\<^verbatim>\<open>marketplace\<close>). Investors fund the listing in a whitelisted token; a fee goes to the \<^verbatim>\<open>treasury\<close>, the
  rest to the \<^verbatim>\<open>financing_pool\<close>. When the price is reached, the marketplace opens a pool, which turns
  the invoice to \<open>Funded\<close>. Repayments go to the pool, converted by the \<^verbatim>\<open>price_oracle\<close> where the currency
  differs; the last one is distributed over the investors' positions and turns the invoice to
  \<open>Repaid\<close>. Defaults are reported to the \<^verbatim>\<open>risk_registry\<close>, which slashes the stake of the SME's verifier.
  \<^verbatim>\<open>access_control\<close> holds the pause switch, the roles, the multisig and the protocol parameters. The
  crate \<^verbatim>\<open>shared\<close> holds types, errors, events, validation, the audit types and the reentrancy lock.

  \<^bold>\<open>How the model is built.\<close> Each contract has a record with one field per storage key (an option or a
  map where the key may be absent), the installed code and the published events, and one
  definition per function, with the source's name (prefixed where two contracts use the same one).
  Results are values: \<open>Ok\<close>, \<open>Err\<close> with a \<open>KoraError\<close>, or \<open>Trap\<close> where the host aborts; a failed
  invocation leaves no state behind. The host environment \<open>env\<close> gives the running contract, its
  invoker, the ledger time and the authorisations. A call of another contract runs the callee's
  definition in \<open>subcall env callee\<close>. Token contracts are not part of the repository: they are the
  parameter \<open>T\<close>, with the documented behaviour of a transfer (\<open>sep41\<close>, and \<open>token_live\<close> where a call has to succeed, for receivers that accept the token) as
  named hypotheses. So is the
  SDK's decoder of old invoice records, the parameter \<open>D\<close> of \<open>migrate\<close>.

  \<^bold>\<open>Theories.\<close>
  \<^item> \<open>Kora_Errors\<close>, \<open>Kora_Prelude\<close>: the error enumeration with its codes (\<^verbatim>\<open>shared/src/errors.rs\<close>); results,
    environment and checked arithmetic.
  \<^item> \<open>Shared_Types\<close>, \<open>Shared_Events\<close>, \<open>Shared_Validation\<close>, \<open>Shared_Reentrancy\<close>: the files of \<^verbatim>\<open>shared/src\<close> of
    the same names. \<open>lock_cell\<close> is the interface of the lock, interpreted by every contract that
    uses it; the basis-point functions are shown equal to rounded-down shares,
    the scaled one up to the decimals it drops.
  \<^item> \<open>Audit_Log\<close>: the ring buffer kept by three contracts, refining the list of all admin actions
    (locale \<open>audited\<close>). \<open>Upgrade_Timelock\<close>: the contract of the two-step upgrade (locale
    \<open>timelocked_upgrade\<close>, interpreted by six contracts). \<open>Soroban_Map\<close>: the SDK's ordered map (locale
    \<open>ordered_map\<close>). \<open>Token_Interface\<close>: the token parameter.
  \<^item> \<open>Access_Control\<close>: quorum and single execution of multisig proposals, parameters in range and changed
    by governance only, pause, roles. \<open>Admin_Powers\<close>: what the multisig does not restrict.
  \<^item> \<open>Risk_Registry\<close>: stakes backed by tokens, slashing, histories that only grow, cooldown, scores.
  \<^item> \<open>Price_Oracle\<close>: conversions use fresh positive prices and round down.
  \<^item> \<open>Invoice_NFT\<close>: the records of a run move only along the life cycle of an invoice, listed terms are
    final, ids are fresh, the credit limit, migration.
  \<^item> \<open>Kora_Treasury\<close>: what \<open>withdraw\<close> can pay out in any window of 24 hours (\<open>emergency_withdraw\<close> is not
    limited), exact transfers, timelocked cap.
  \<^item> \<open>Financing_Pool\<close>, \<open>Pool_Economics\<close>: the model and the effects of the pool's operations, what a pool
    owes, when it closes, who is paid what, the sale of positions, early settlement, and concrete runs
    for what the contract does not prevent: shares beyond 100 percent, a sold position that counts
    twice in a settlement, positions recorded on a closed pool.
  \<^item> \<open>Marketplace\<close>, \<open>Funding_Flow\<close>: the model and the invariant of the marketplace, the split of a
    contribution, the opening of the pool across four contracts, cancellation and refunds.
  \<^item> \<open>Pause_Switch\<close>: the pause across contracts (locale \<open>pause_guard\<close>, interpreted on the guards of invoice
    contract, pool and marketplace), what it stops and what it leaves alone.
  \<^item> \<open>Kora_Protocol\<close>, \<open>Protocol_Runs\<close>: marketplace, pool and invoice contract deployed together. In every
    reachable state they agree on each invoice; a run of the protocol is a run of each contract; what
    follows from a default and from a pool that is opened early.
  \<^item> \<open>Pool_Solvency\<close>, \<open>Protocol_Solvency\<close>, \<open>Repayment_Progress\<close>: the money of the protocol. Along runs in
    which the pool is called fairly (\<open>fair_run\<close>) it holds what it owes and every contribution; a
    repayment in a foreign token, and what an early settlement does not pay; the closing repayment
    of an open pool succeeds.

  \<^bold>\<open>Runs.\<close> Statements on all reachable states are by rule induction over a step relation per contract,
  with one rule per entry point (\<open>nft_entry\<close>, \<open>fp_entry\<close>, \<open>mp_entry\<close>) and, where a contract calls others,
  a rule by which the other contracts and the tokens change in any way between two calls. Where time
  matters, ledger time does not decrease along a run. A run of the protocol (\<open>kora_run\<close>) composes the
  entry points of three contracts under two assumptions: no contract address signs (\<open>outside\<close>), and the
  addresses that the contracts store of each other are the deployed ones (\<open>wired\<close>). A fair run restricts
  the calls of the pool by what the contract itself does not check: repayments and distributions use
  the token of the pool, repaid invoices are in USDC, the shares of a pool add up to at most 10000
  basis points, and no step outside the three contracts lowers the balances of the pool.

  \<^bold>\<open>Bounds.\<close> No fuel is used: the loops of the source (the audit page, the migration, the payouts, the
  scans of signers) are recursive functions with termination proofs. Integers keep their width
  through the checked, saturating or trapping operations of \<open>Kora_Prelude\<close>. Where a hypothesis bounds an
  input (fewer than 2 to the 64 audit entries), it is the width of a counter of the source; \<open>payable\<close>
  is the range in which the scaled computation of shares does not overflow.

  \<^bold>\<open>Not modelled.\<close> The time-to-live helpers, which change no stored value; the host's storage limits and
  resource fees, and the expiry of stored entries. The integration tests under
  \<^verbatim>\<open>contracts/tests\<close>, the unit tests inside the crates, the TypeScript SDK, scripts, examples and
  documentation are not part of the implementation.
\<close>

section \<open>Upgrades\<close>

text \<open>
  C40: the upgrade of every upgradable contract is timelocked. In each of the six contracts only the
  admin, with authorisation, proposes and executes; a proposal installs nothing; code is installed
  only from a proposal that is at least a day old, it is the proposed code, and a proposal is used
  once.
\<close>

theorem upgrades_timelocked:
  "upgrade_safe ac_admin ac_upgrade_proposal ac_code ac_propose_upgrade ac_execute_upgrade \<and>
   upgrade_safe rr_admin rr_upgrade_proposal rr_code rr_propose_upgrade rr_execute_upgrade \<and>
   upgrade_safe nft_admin nft_upgrade_proposal nft_code nft_propose_upgrade nft_execute_upgrade \<and>
   upgrade_safe tr_admin tr_upgrade_proposal tr_code tr_propose_upgrade tr_execute_upgrade \<and>
   upgrade_safe fp_admin fp_upgrade_proposal fp_code fp_propose_upgrade fp_execute_upgrade \<and>
   upgrade_safe mp_admin_of mp_upgrade_proposal mp_code mp_propose_upgrade mp_execute_upgrade"
  by (intro conjI ac_upgrade.safe rr_upgrade.safe nft_upgrade.safe tr_upgrade.safe fp_upgrade.safe
      mp_upgrade.safe)

theorem upgrades_timelocked_witness:
  "\<exists>s1 s2. fp_propose_upgrade (open_env 500 10) 1 [7] (fp_empty\<lparr>fp_admin := Some 1\<rparr>) = Ok s1 \<and>
     fp_execute_upgrade (open_env 500 86410) 1 s1 = Ok s2 \<and> fp_code s2 = Some [7] \<and>
     (\<forall>s3. fp_execute_upgrade (open_env 500 86411) 1 s2 \<noteq> Ok s3)"
proof -
  obtain s1 s2 where d: "fp_propose_upgrade (open_env 500 10) 1 [7] (fp_empty\<lparr>fp_admin := Some 1\<rparr>) = Ok s1"
      "fp_execute_upgrade (open_env 500 86410) 1 s1 = Ok s2"
    by (simp add: fp_propose_upgrade_def fp_execute_upgrade_def fp_empty_def fp_require_admin_def Let_def
        timelock_elapsed_def add_u64_def U64_MAX_def UPGRADE_TIMELOCK_DELAY_def)
  have safe: "upgrade_safe fp_admin fp_upgrade_proposal fp_code fp_propose_upgrade fp_execute_upgrade"
    using upgrades_timelocked by blast
  have "fp_code s2 = Some [7]" using safe d unfolding upgrade_safe_def by blast
  moreover have "\<forall>s3. fp_execute_upgrade (open_env 500 86411) 1 s2 \<noteq> Ok s3"
    using safe d(2) unfolding upgrade_safe_def by blast
  ultimately show ?thesis using d by blast
qed

end
